theory Spec2Isabelle
  imports Main "HOL-Library.Sublist"
begin

section \<open>Data model of the import service\<close>

text \<open>
  A shallow embedding of \<^verbatim>\<open>src/import/import.service.ts\<close> (class \<^verbatim>\<open>ImportService\<close>).
  Contracts are the exported (source project) shapes, models are what the management
  API answers. Only the fields the service reads or forwards are kept; payloads the
  service never inspects (elements, terms, descriptions, folder references) are JSON
  values.
\<close>

datatype json =
    JNull
  | JBool bool
  | JNum int
  | JStr string
  | JArr "json list"
  | JObj "(string \<times> json) list"

text \<open>\<^verbatim>\<open>IReferenceObjectContract\<close>: every field may be undefined.\<close>

record reference =
  ref_id :: "string option"
  ref_codename :: "string option"
  ref_external_id :: "string option"

record language_contract =
  language_id :: string
  language_name :: string
  language_codename :: string
  language_external_id :: "string option"
  language_is_active :: bool
  language_is_default :: bool
  language_fallback_language :: "reference option"

record language_model =
  lm_id :: string
  lm_name :: string
  lm_codename :: string
  lm_isActive :: bool

record add_language_data =
  al_codename :: string
  al_name :: string
  al_external_id :: "string option"
  al_fallback_language :: reference
  al_is_active :: bool

datatype language_patch = ReplaceIsActive bool | ReplaceCodename string

record file_reference =
  fr_id :: string
  fr_type :: string

record asset_contract =
  asset_id :: string
  asset_file_name :: string
  asset_title :: "string option"
  asset_size :: int
  asset_type :: string
  asset_file_reference :: file_reference
  asset_descriptions :: json
  asset_external_id :: "string option"
  asset_folder :: json

record binary_file =
  bf_asset :: asset_contract
  bf_binaryData :: "nat list"

record upload_data =
  up_binaryData :: "nat list"
  up_contentType :: string
  up_filename :: string

record add_asset_data =
  aa_descriptions :: json
  aa_file_reference :: file_reference
  aa_external_id :: "string option"
  aa_folder :: json
  aa_title :: "string option"

record asset_model =
  am_id :: string
  am_fileName :: string

datatype asset_folder_contract =
  AssetFolderContract
    (folder_id: string)
    (folder_name: string)
    (folder_external_id: "string option")
    (folder_folders: "asset_folder_contract list")

text \<open>\<^verbatim>\<open>IAddOrModifyAssetFolderData\<close>, the nested request of \<^verbatim>\<open>addAssetFolders\<close>.\<close>

datatype add_folder_data =
  AddFolderData
    (af_name: string)
    (af_external_id: "string option")
    (af_folders: "add_folder_data list")

datatype asset_folder_model =
  AssetFolder
    (afm_id: string)
    (afm_name: string)
    (afm_externalId: "string option")
    (afm_folders: "asset_folder_model list")

record content_type_contract =
  ct_id :: string
  ct_name :: string
  ct_codename :: string
  ct_external_id :: "string option"
  ct_elements :: json

record content_type_snippet_contract =
  cts_id :: string
  cts_name :: string
  cts_codename :: string
  cts_external_id :: "string option"
  cts_elements :: json

record add_snippet_data =
  as_elements :: json
  as_name :: string
  as_codename :: string
  as_external_id :: "string option"

record taxonomy_contract =
  tx_id :: string
  tx_name :: string
  tx_codename :: string
  tx_external_id :: "string option"
  tx_terms :: json

text \<open>Content types, snippets, taxonomies and content items come back as models of
  which the service reads \<^verbatim>\<open>id\<close> and \<^verbatim>\<open>name\<close> only.\<close>

record named_model =
  model_id :: string
  model_name :: string

record content_item_contract =
  ci_id :: string
  ci_name :: string
  ci_codename :: string
  ci_external_id :: "string option"
  ci_type :: reference

record add_content_item_data =
  ai_name :: string
  ai_type_codename :: string
  ai_codename :: string
  ai_external_id :: "string option"

record language_variant_contract =
  lv_item :: reference
  lv_language :: reference
  lv_elements :: json
  lv_workflow_step :: reference

record language_variant_model =
  lvm_item :: reference
  lvm_language :: reference

record workflow_step_contract =
  ws_id :: string
  ws_name :: string

record import_data =
  languages :: "language_contract list"
  taxonomies :: "taxonomy_contract list"
  contentTypeSnippets :: "content_type_snippet_contract list"
  contentTypes :: "content_type_contract list"
  assets :: "asset_contract list"
  contentItems :: "content_item_contract list"
  languageVariants :: "language_variant_contract list"
  workflowSteps :: "workflow_step_contract list"

record import_source =
  importData :: import_data
  assetFolders :: "asset_folder_contract list"
  binaryFiles :: "binary_file list"

text \<open>The union types \<^verbatim>\<open>ValidImportContract\<close> and \<^verbatim>\<open>ValidImportModel\<close>.\<close>

datatype valid_import_contract =
    OAssetFolder asset_folder_contract
  | OLanguage language_contract
  | OTaxonomy taxonomy_contract
  | OContentTypeSnippet content_type_snippet_contract
  | OContentType content_type_contract
  | OAsset asset_contract
  | OContentItem content_item_contract
  | OLanguageVariant language_variant_contract

datatype valid_import_model =
    MAssetFolder asset_folder_model
  | MLanguage language_model
  | MTaxonomy named_model
  | MContentTypeSnippet named_model
  | MContentType named_model
  | MAsset asset_model
  | MContentItem named_model
  | MLanguageVariant language_variant_model

text \<open>\<^verbatim>\<open>IImportItemResult<TRaw, TModel>\<close>. Each importer answers with entries of its
  own kind; \<^verbatim>\<open>importedItems.push(...)\<close> in \<^verbatim>\<open>importAsync\<close> widens them to the union
  types.\<close>

record ('c, 'm) import_item_result =
  imported :: 'm
  original :: 'c
  importId :: "string option"
  originalId :: "string option"

type_synonym valid_result = "(valid_import_contract, valid_import_model) import_item_result"

definition widen ::
  "('c \<Rightarrow> valid_import_contract) \<Rightarrow> ('m \<Rightarrow> valid_import_model)
     \<Rightarrow> ('c, 'm) import_item_result \<Rightarrow> valid_result" where
  "widen inC inM r =
     \<lparr>imported = inM (imported r), original = inC (original r),
      importId = importId r, originalId = originalId r\<rparr>"

datatype action_type =
    ALanguage | AAsset | AAssetFolder | AContentType | AContentTypeSnippet
  | AContentItem | ALanguageVariant | APublish | AChangeWorkflowStep | ATaxonomy

subsection \<open>Configuration\<close>

record process_config =
  process_asset :: "(asset_contract \<Rightarrow> bool) option"
  process_language :: "(language_contract \<Rightarrow> bool) option"
  process_assetFolder :: "(asset_folder_contract \<Rightarrow> bool) option"
  process_contentType :: "(content_type_contract \<Rightarrow> bool) option"
  process_contentItem :: "(content_item_contract \<Rightarrow> bool) option"
  process_contentTypeSnippet :: "(content_type_snippet_contract \<Rightarrow> bool) option"
  process_languageVariant :: "(language_variant_contract \<Rightarrow> bool) option"
  process_taxonomy :: "(taxonomy_contract \<Rightarrow> bool) option"

text \<open>
  \<^verbatim>\<open>IImportConfig\<close>. The transport parameters and \<open>enableLog\<close> (console output
  only) are left out. The two observer callbacks are effects of the caller: the model
  records whether each is configured and writes every invocation to the event log of
  the world.
\<close>

record config =
  enablePublish :: bool
  workflowIdForImportedItems :: "string option"
  fixLanguages :: bool
  process :: "process_config option"
  onImport :: bool
  onUnsupportedBinaryFile :: bool

subsection \<open>Errors\<close>

text \<open>Every \<^verbatim>\<open>throw Error(...)\<close> of the service is a constructor; \<open>RemoteError\<close>
  is whatever a client call rejects with, \<open>HelperError\<close> whatever a helper of
  \<^verbatim>\<open>../core\<close> throws, \<open>TypeError\<close> a property read on \<^verbatim>\<open>undefined\<close>.\<close>

datatype error =
    MissingBinaryFile string
  | LanguageUnsetCodename string
  | DefaultLanguageMismatch string string
  | InvalidDefaultExistingLanguage string
  | ContentItemUnsetTypeCodename string
  | MissingItemCodename
  | MissingLanguageCodename
  | OriginalFolderNotFound "string option" string
  | TypeError
  | RemoteError string
  | HelperError string

subsection \<open>The management client and the world\<close>

datatype call =
    ListLanguages
  | ModifyLanguage string language_patch
  | AddLanguage add_language_data
  | UploadBinaryFile upload_data
  | AddAsset add_asset_data
  | AddAssetFolders "add_folder_data list"
  | AddContentType content_type_contract
  | AddContentTypeSnippet add_snippet_data
  | AddTaxonomy taxonomy_contract
  | AddContentItem add_content_item_data
  | UpsertLanguageVariant string string json
  | PublishLanguageVariant string string
  | ChangeWorkflowStepOfLanguageVariant string string string

datatype event_data = DataModel valid_import_model | DataVoid

datatype event =
    OnImport string action_type event_data
  | OnUnsupportedBinaryFile binary_file

text \<open>
  The target project is a state \<open>'s\<close> that only the client touches. Every endpoint
  takes the request and the project state and answers with a response or an error and
  the next project state.
\<close>

record 's client =
  listLanguages :: "'s \<Rightarrow> (error + language_model list) \<times> 's"
  modifyLanguage :: "string \<Rightarrow> language_patch \<Rightarrow> 's \<Rightarrow> (error + unit) \<times> 's"
  addLanguage :: "add_language_data \<Rightarrow> 's \<Rightarrow> (error + language_model) \<times> 's"
  uploadBinaryFile :: "upload_data \<Rightarrow> 's \<Rightarrow> (error + string) \<times> 's"
  addAsset :: "add_asset_data \<Rightarrow> 's \<Rightarrow> (error + asset_model) \<times> 's"
  addAssetFolders :: "add_folder_data list \<Rightarrow> 's \<Rightarrow> (error + asset_folder_model list) \<times> 's"
  addContentType :: "content_type_contract \<Rightarrow> 's \<Rightarrow> (error + named_model) \<times> 's"
  addContentTypeSnippet :: "add_snippet_data \<Rightarrow> 's \<Rightarrow> (error + named_model) \<times> 's"
  addTaxonomy :: "taxonomy_contract \<Rightarrow> 's \<Rightarrow> (error + named_model) \<times> 's"
  addContentItem :: "add_content_item_data \<Rightarrow> 's \<Rightarrow> (error + named_model) \<times> 's"
  upsertLanguageVariant ::
    "string \<Rightarrow> string \<Rightarrow> json \<Rightarrow> 's \<Rightarrow> (error + language_variant_model) \<times> 's"
  publishLanguageVariant :: "string \<Rightarrow> string \<Rightarrow> 's \<Rightarrow> (error + unit) \<times> 's"
  changeWorkflowStepOfLanguageVariant ::
    "string \<Rightarrow> string \<Rightarrow> string \<Rightarrow> 's \<Rightarrow> (error + unit) \<times> 's"

record 's world =
  server :: 's
  calls :: "call list"
  events :: "event list"

type_synonym ('s, 'a) io = "'s world \<Rightarrow> (error + 'a) \<times> 's world"

definition returnIO :: "'a \<Rightarrow> ('s, 'a) io" where
  "returnIO x w = (Inr x, w)"

definition throwIO :: "error \<Rightarrow> ('s, 'a) io" where
  "throwIO e w = (Inl e, w)"

text \<open>Sequencing: an exception of the first part skips the rest; the calls made so
  far stay made.\<close>

definition bindIO :: "('s, 'a) io \<Rightarrow> ('a \<Rightarrow> ('s, 'b) io) \<Rightarrow> ('s, 'b) io" where
  "bindIO m f w = (case m w of (Inl e, w') \<Rightarrow> (Inl e, w') | (Inr x, w') \<Rightarrow> f x w')"

text \<open>One awaited client call: it is logged, and a rejection is rethrown
  (\<^verbatim>\<open>handleImportError\<close> logs and rethrows; calls without a \<^verbatim>\<open>catch\<close> propagate the
  rejection all the same).\<close>

definition request :: "call \<Rightarrow> ('s \<Rightarrow> (error + 'a) \<times> 's) \<Rightarrow> ('s, 'a) io" where
  "request c endpoint w =
     (case endpoint (server w) of
        (r, s') \<Rightarrow> (r, w\<lparr>server := s', calls := calls w @ [c]\<rparr>))"

definition emit :: "event \<Rightarrow> ('s, unit) io" where
  "emit e w = (Inr (), w\<lparr>events := events w @ [e]\<rparr>)"

definition processItem :: "config \<Rightarrow> string \<Rightarrow> action_type \<Rightarrow> event_data \<Rightarrow> ('s, unit) io" where
  "processItem cfg title type data =
     (if \<not> onImport cfg then returnIO () else emit (OnImport title type data))"

text \<open>A \<^verbatim>\<open>for (const x of xs)\<close> loop whose body pushes to \<^verbatim>\<open>importedItems\<close>: the body
  answers with the entries it pushed; an exception leaves the loop.\<close>

fun forEachAsync :: "('a \<Rightarrow> ('s, 'r list) io) \<Rightarrow> 'a list \<Rightarrow> ('s, 'r list) io" where
  "forEachAsync body [] w = (Inr [], w)"
| "forEachAsync body (x # xs) w =
     (case body x w of
        (Inl e, w') \<Rightarrow> (Inl e, w')
      | (Inr pushed, w') \<Rightarrow>
          (case forEachAsync body xs w' of
             (Inl e, w'') \<Rightarrow> (Inl e, w'')
           | (Inr rest, w'') \<Rightarrow> (Inr (pushed @ rest), w'')))"

text \<open>JavaScript truthiness of a \<^verbatim>\<open>string | undefined\<close>: the empty string is falsy.\<close>

definition truthy :: "string option \<Rightarrow> bool" where
  "truthy s = (case s of None \<Rightarrow> False | Some v \<Rightarrow> v \<noteq> [])"

section \<open>The service\<close>

definition defaultLanguageId :: string where
  "defaultLanguageId = ''00000000-0000-0000-0000-000000000000''"

definition publishedWorkflowStepName :: string where
  "publishedWorkflowStepName = ''Published''"

definition maxAllowedAssetSizeInBytes :: int where
  "maxAllowedAssetSizeInBytes = 100000000"

subsection \<open>Publishing and workflow steps\<close>

definition getPublishedWorkflowStep ::
  "workflow_step_contract list \<Rightarrow> workflow_step_contract option" where
  "getPublishedWorkflowStep steps = find (\<lambda>m. ws_name m = publishedWorkflowStepName) steps"

definition publishOne :: "config \<Rightarrow> 's client \<Rightarrow> language_variant_contract \<Rightarrow> ('s, unit list) io" where
  "publishOne cfg cl itemToPublish =
     (let itemCodename = ref_codename (lv_item itemToPublish);
          languageCodename = ref_codename (lv_language itemToPublish)
      in if \<not> truthy itemCodename then throwIO MissingItemCodename
         else if \<not> truthy languageCodename then throwIO MissingLanguageCodename
         else bindIO
           (request (PublishLanguageVariant (the itemCodename) (the languageCodename))
              (publishLanguageVariant cl (the itemCodename) (the languageCodename)))
           (\<lambda>response. bindIO
              (processItem cfg (the itemCodename @ '' ('' @ the languageCodename @ '')'')
                 APublish DataVoid)
              (\<lambda>_. returnIO [])))"

definition publishLanguageVariantsAsync ::
  "config \<Rightarrow> 's client \<Rightarrow> language_variant_contract list \<Rightarrow> workflow_step_contract list
     \<Rightarrow> ('s, unit) io" where
  "publishLanguageVariantsAsync cfg cl variants steps =
     (case getPublishedWorkflowStep steps of
        None \<Rightarrow> returnIO ()
      | Some publishedWorkflowStep \<Rightarrow>
          (let itemsToPublish =
                 filter (\<lambda>m. ref_id (lv_workflow_step m) = Some (ws_id publishedWorkflowStep))
                   variants
           in if itemsToPublish = [] then returnIO ()
              else bindIO (forEachAsync (publishOne cfg cl) itemsToPublish) (\<lambda>_. returnIO ())))"


definition moveOne ::
  "config \<Rightarrow> 's client \<Rightarrow> string \<Rightarrow> language_variant_contract \<Rightarrow> ('s, unit list) io" where
  "moveOne cfg cl workflowStepId item =
     (let itemCodename = ref_codename (lv_item item);
          languageCodename = ref_codename (lv_language item)
      in if \<not> truthy itemCodename then throwIO MissingItemCodename
         else if \<not> truthy languageCodename then throwIO MissingLanguageCodename
         else bindIO
           (request
              (ChangeWorkflowStepOfLanguageVariant (the itemCodename) (the languageCodename)
                 workflowStepId)
              (changeWorkflowStepOfLanguageVariant cl (the itemCodename) (the languageCodename)
                 workflowStepId))
           (\<lambda>response. bindIO
              (processItem cfg (the itemCodename @ '' ('' @ the languageCodename @ '')'')
                 AChangeWorkflowStep DataVoid)
              (\<lambda>_. returnIO [])))"

definition moveLanguageVariantsToCustomWorkflowStepAsync ::
  "config \<Rightarrow> 's client \<Rightarrow> string \<Rightarrow> language_variant_contract list \<Rightarrow> ('s, unit) io" where
  "moveLanguageVariantsToCustomWorkflowStepAsync cfg cl workflowStepId variants =
     bindIO (forEachAsync (moveOne cfg cl workflowStepId) variants) (\<lambda>_. returnIO ())"

subsection \<open>Helpers of \<^verbatim>\<open>../core\<close>\<close>

text \<open>
  \<^verbatim>\<open>translationHelper\<close> and \<^verbatim>\<open>idTranslateHelper\<close> are imported from \<^verbatim>\<open>../core\<close>; the
  service is modelled for any such helpers. They rewrite their first argument in place:
  the model takes the rewritten value as the helper's result. One field per call site,
  since the call sites differ in the type of the object they hand over.
\<close>

record translation_helper =
  externalIds_taxonomies :: "taxonomy_contract list \<Rightarrow> taxonomy_contract list"
  externalIds_contentTypeSnippets ::
    "content_type_snippet_contract list \<Rightarrow> content_type_snippet_contract list"
  externalIds_contentTypes :: "content_type_contract list \<Rightarrow> content_type_contract list"
  codenames_languages :: "language_contract list \<Rightarrow> import_data \<Rightarrow> language_contract list"
  codenames_assets :: "asset_contract list \<Rightarrow> import_data \<Rightarrow> asset_contract list"
  codenames_contentItems ::
    "content_item_contract list \<Rightarrow> import_data \<Rightarrow> content_item_contract list"
  codenames_languageVariants ::
    "language_variant_contract list \<Rightarrow> import_data \<Rightarrow> language_variant_contract list"
  codenames_workflowSteps ::
    "workflow_step_contract list \<Rightarrow> import_data \<Rightarrow> workflow_step_contract list"

record id_translate_helper =
  newIds_assetModel :: "add_asset_data \<Rightarrow> valid_result list \<Rightarrow> error + add_asset_data"
  newIds_languageVariant ::
    "language_variant_contract \<Rightarrow> valid_result list \<Rightarrow> error + language_variant_contract"

subsection \<open>Preprocessing\<close>

definition translateIds :: "translation_helper \<Rightarrow> import_source \<Rightarrow> import_source" where
  "translateIds th source =
     (let d0 = importData source;
          d1 = d0\<lparr>taxonomies := externalIds_taxonomies th (taxonomies d0)\<rparr>;
          d2 = d1\<lparr>contentTypeSnippets :=
                 externalIds_contentTypeSnippets th (contentTypeSnippets d1)\<rparr>;
          d3 = d2\<lparr>contentTypes := externalIds_contentTypes th (contentTypes d2)\<rparr>;
          d4 = d3\<lparr>languages := codenames_languages th (languages d3) d3\<rparr>;
          d5 = d4\<lparr>assets := codenames_assets th (assets d4) d4\<rparr>;
          d6 = d5\<lparr>contentItems := codenames_contentItems th (contentItems d5) d5\<rparr>;
          d7 = d6\<lparr>languageVariants :=
                 codenames_languageVariants th (languageVariants d6) d6\<rparr>;
          d8 = d7\<lparr>workflowSteps := codenames_workflowSteps th (workflowSteps d7) d7\<rparr>
      in source\<lparr>importData := d8\<rparr>)"

text \<open>
  One filtering loop of \<^verbatim>\<open>removeSkippedItemsFromImport\<close>:
  \<^verbatim>\<open>for (const item of xs) { if (!shouldImport(item)) xs' = xs'.filter(keep item) }\<close>.
  The \<^verbatim>\<open>for ... of\<close> walks the array the property held when the loop started; the
  assignments replace the property by new arrays. \<open>keep item m\<close> is the arrow function
  given to \<^verbatim>\<open>filter\<close>.
\<close>

definition skipLoop :: "('a \<Rightarrow> bool) \<Rightarrow> ('a \<Rightarrow> 'a \<Rightarrow> bool) \<Rightarrow> 'a list \<Rightarrow> 'a list" where
  "skipLoop shouldImport keep items =
     foldl (\<lambda>current item. if \<not> shouldImport item then filter (keep item) current else current)
       items items"

text \<open>\<^verbatim>\<open>this.config.process && this.config.process.kind\<close>\<close>

definition processPredicate ::
  "config \<Rightarrow> (process_config \<Rightarrow> ('a \<Rightarrow> bool) option) \<Rightarrow> ('a \<Rightarrow> bool) option" where
  "processPredicate cfg kind = (case process cfg of None \<Rightarrow> None | Some p \<Rightarrow> kind p)"

definition removeSkipped ::
  "config \<Rightarrow> (process_config \<Rightarrow> ('a \<Rightarrow> bool) option) \<Rightarrow> ('a \<Rightarrow> 'a \<Rightarrow> bool) \<Rightarrow> 'a list
     \<Rightarrow> 'a list" where
  "removeSkipped cfg kind keep items =
     (case processPredicate cfg kind of
        None \<Rightarrow> items
      | Some shouldImport \<Rightarrow> skipLoop shouldImport keep items)"

definition removeSkippedItemsFromImport :: "config \<Rightarrow> import_source \<Rightarrow> import_source" where
  "removeSkippedItemsFromImport cfg source =
     (let d = importData source;
          assets' = removeSkipped cfg process_asset
                      (\<lambda>item m. asset_id m \<noteq> asset_id item) (assets d);
          languages' = removeSkipped cfg process_language
                      (\<lambda>item m. language_id m \<noteq> language_id item) (languages d);
          assetFolders' = removeSkipped cfg process_assetFolder
                      (\<lambda>item m. folder_id m \<noteq> folder_id item) (assetFolders source);
          contentTypes' = removeSkipped cfg process_contentType
                      (\<lambda>item m. ct_id m \<noteq> ct_id item) (contentTypes d);
          contentItems' = removeSkipped cfg process_contentItem
                      (\<lambda>item m. ci_id m \<noteq> ci_id item) (contentItems d);
          contentTypeSnippets' = removeSkipped cfg process_contentTypeSnippet
                      (\<lambda>item m. cts_id m \<noteq> cts_id item) (contentTypeSnippets d);
          languageVariants' = removeSkipped cfg process_languageVariant
                      (\<lambda>item m. ref_id (lv_item m) \<noteq> ref_id (lv_item item)
                                \<and> ref_id (lv_language m) \<noteq> ref_id (lv_language item))
                      (languageVariants d);
          taxonomies' = removeSkipped cfg process_taxonomy
                      (\<lambda>item m. tx_id m \<noteq> tx_id item) (taxonomies d)
      in source\<lparr>importData :=
                  d\<lparr>assets := assets', languages := languages', contentTypes := contentTypes',
                    contentItems := contentItems', contentTypeSnippets := contentTypeSnippets',
                    languageVariants := languageVariants', taxonomies := taxonomies'\<rparr>,
                assetFolders := assetFolders'\<rparr>)"

subsection \<open>Languages\<close>

definition fixLanguageAsync ::
  "'s client \<Rightarrow> language_model list \<Rightarrow> language_contract \<Rightarrow> ('s, unit) io" where
  "fixLanguageAsync cl currentLanguages importLanguage =
     bindIO
       (case find (\<lambda>m. lm_codename m = language_codename importLanguage) currentLanguages of
          None \<Rightarrow> returnIO ()
        | Some existingLanguage \<Rightarrow>
            if \<not> lm_isActive existingLanguage
            then request
                   (ModifyLanguage (lm_codename existingLanguage) (ReplaceIsActive True))
                   (modifyLanguage cl (lm_codename existingLanguage) (ReplaceIsActive True))
            else returnIO ())
       (\<lambda>_. if language_is_default importLanguage
             then (case find (\<lambda>m. lm_id m = language_id importLanguage) currentLanguages of
                     None \<Rightarrow> throwIO (InvalidDefaultExistingLanguage (language_id importLanguage))
                   | Some defaultExistingLanguage \<Rightarrow>
                       if language_codename importLanguage \<noteq> lm_codename defaultExistingLanguage
                       then (if find (\<lambda>m. lm_codename m = language_codename importLanguage)
                                  currentLanguages = None
                             then request
                                    (ModifyLanguage (lm_codename defaultExistingLanguage)
                                       (ReplaceCodename (language_codename importLanguage)))
                                    (modifyLanguage cl (lm_codename defaultExistingLanguage)
                                       (ReplaceCodename (language_codename importLanguage)))
                             else returnIO ())
                       else returnIO ())
             else returnIO ())"

text \<open>\<open>Inr None\<close> is the answer \<^verbatim>\<open>'noImport'\<close>.\<close>

definition tryGetLanguage ::
  "language_model list \<Rightarrow> language_contract \<Rightarrow> error + add_language_data option" where
  "tryGetLanguage currentLanguages importLanguage =
     (case find (\<lambda>m. lm_codename m = language_codename importLanguage) currentLanguages of
        Some existingLanguage \<Rightarrow> Inr None
      | None \<Rightarrow>
          (case (if language_id importLanguage = defaultLanguageId
                 then (case find (\<lambda>m. lm_id m = defaultLanguageId) currentLanguages of
                         None \<Rightarrow> None
                       | Some defaultCurrentLanguage \<Rightarrow>
                           if lm_codename defaultCurrentLanguage \<noteq> language_codename importLanguage
                           then Some (DefaultLanguageMismatch (language_codename importLanguage)
                                        (lm_codename defaultCurrentLanguage))
                           else None)
                 else None) of
             Some e \<Rightarrow> Inl e
           | None \<Rightarrow>
               (case language_fallback_language importLanguage of
                  None \<Rightarrow> Inl TypeError
                | Some fallback \<Rightarrow>
                    if \<not> truthy (ref_codename fallback)
                    then Inl (LanguageUnsetCodename (language_name importLanguage))
                    else Inr (Some
                      \<lparr>al_codename = language_codename importLanguage,
                       al_name = language_name importLanguage,
                       al_external_id = language_external_id importLanguage,
                       al_fallback_language =
                         (if language_codename importLanguage = the (ref_codename fallback)
                          then \<lparr>ref_id = Some defaultLanguageId, ref_codename = None,
                                ref_external_id = None\<rparr>
                          else \<lparr>ref_id = None, ref_codename = ref_codename fallback,
                                ref_external_id = None\<rparr>),
                       al_is_active = language_is_active importLanguage\<rparr>))))"

type_synonym language_result = "(language_contract, language_model) import_item_result"

text \<open>The body of the loop of \<^verbatim>\<open>importLanguagesAsync\<close>: it answers with the value of
  \<^verbatim>\<open>currentLanguagesResponse\<close> after the iteration and the entries pushed.\<close>

definition importOneLanguage ::
  "config \<Rightarrow> 's client \<Rightarrow> language_model list \<Rightarrow> language_contract
     \<Rightarrow> ('s, language_model list \<times> language_result list) io" where
  "importOneLanguage cfg cl currentLanguages language =
     bindIO
       (if fixLanguages cfg
        then bindIO (fixLanguageAsync cl currentLanguages language)
               (\<lambda>_. request ListLanguages (listLanguages cl))
        else returnIO currentLanguages)
       (\<lambda>currentLanguages'.
          case tryGetLanguage currentLanguages' language of
            Inl e \<Rightarrow> throwIO e
          | Inr None \<Rightarrow> returnIO (currentLanguages', [])
          | Inr (Some processedLanguageData) \<Rightarrow>
              bindIO (request (AddLanguage processedLanguageData)
                        (addLanguage cl processedLanguageData))
                (\<lambda>response. bindIO
                   (processItem cfg (lm_name response) ALanguage (DataModel (MLanguage response)))
                   (\<lambda>_. returnIO (currentLanguages',
                      [\<lparr>imported = response, original = language,
                        importId = Some (lm_id response),
                        originalId = Some (language_id language)\<rparr>]))))"

fun importLanguagesLoop ::
  "config \<Rightarrow> 's client \<Rightarrow> language_model list \<Rightarrow> language_contract list
     \<Rightarrow> ('s, language_result list) io" where
  "importLanguagesLoop cfg cl currentLanguages [] w = (Inr [], w)"
| "importLanguagesLoop cfg cl currentLanguages (language # rest) w =
     (case importOneLanguage cfg cl currentLanguages language w of
        (Inl e, w') \<Rightarrow> (Inl e, w')
      | (Inr (currentLanguages', pushed), w') \<Rightarrow>
          (case importLanguagesLoop cfg cl currentLanguages' rest w' of
             (Inl e, w'') \<Rightarrow> (Inl e, w'')
           | (Inr others, w'') \<Rightarrow> (Inr (pushed @ others), w'')))"

definition importLanguagesAsync ::
  "config \<Rightarrow> 's client \<Rightarrow> language_contract list \<Rightarrow> ('s, language_result list) io" where
  "importLanguagesAsync cfg cl langs =
     bindIO (request ListLanguages (listLanguages cl))
       (\<lambda>currentLanguages. importLanguagesLoop cfg cl currentLanguages langs)"

subsection \<open>Assets\<close>

type_synonym asset_result = "(asset_contract, asset_model) import_item_result"

definition getAddAssetModel ::
  "id_translate_helper \<Rightarrow> asset_contract \<Rightarrow> string \<Rightarrow> valid_result list
     \<Rightarrow> error + add_asset_data" where
  "getAddAssetModel ith assetContract binaryFileId currentItems =
     newIds_assetModel ith
       \<lparr>aa_descriptions = asset_descriptions assetContract,
        aa_file_reference =
          \<lparr>fr_id = binaryFileId, fr_type = fr_type (asset_file_reference assetContract)\<rparr>,
        aa_external_id = asset_external_id assetContract,
        aa_folder = asset_folder assetContract,
        aa_title = asset_title assetContract\<rparr>
       currentItems"

text \<open>
  The body of the loop of \<^verbatim>\<open>importAssetsAsync\<close>. The check
  \<^verbatim>\<open>if (!uploadedBinaryFile)\<close> after the upload cannot fire: the promise either
  resolves with a response or \<^verbatim>\<open>handleImportError\<close> rethrows. The entry keeps the
  asset contract as the loop read it.
\<close>

definition importOneAsset ::
  "config \<Rightarrow> id_translate_helper \<Rightarrow> 's client \<Rightarrow> binary_file list \<Rightarrow> valid_result list
     \<Rightarrow> asset_contract \<Rightarrow> ('s, asset_result list) io" where
  "importOneAsset cfg ith cl binFiles currentItems asset =
     (case find (\<lambda>m. asset_id (bf_asset m) = asset_id asset) binFiles of
        None \<Rightarrow> throwIO (MissingBinaryFile (asset_id asset))
      | Some binaryFile \<Rightarrow>
          bindIO
            (if asset_size (bf_asset binaryFile) \<ge> maxAllowedAssetSizeInBytes
             then bindIO
                    (if onUnsupportedBinaryFile cfg
                     then emit (OnUnsupportedBinaryFile binaryFile) else returnIO ())
                    (\<lambda>_. returnIO [])
             else returnIO (bf_binaryData binaryFile))
            (\<lambda>binaryDataToUpload.
               bindIO
                 (request
                    (UploadBinaryFile
                       \<lparr>up_binaryData = binaryDataToUpload, up_contentType = asset_type asset,
                        up_filename = asset_file_name asset\<rparr>)
                    (uploadBinaryFile cl
                       \<lparr>up_binaryData = binaryDataToUpload, up_contentType = asset_type asset,
                        up_filename = asset_file_name asset\<rparr>))
                 (\<lambda>uploadedBinaryFileId.
                    case getAddAssetModel ith asset uploadedBinaryFileId currentItems of
                      Inl e \<Rightarrow> throwIO e
                    | Inr assetData \<Rightarrow>
                        bindIO (request (AddAsset assetData) (addAsset cl assetData))
                          (\<lambda>response. bindIO
                             (processItem cfg (am_fileName response) AAsset
                                (DataModel (MAsset response)))
                             (\<lambda>_. returnIO
                                [\<lparr>imported = response, original = asset,
                                  importId = Some (am_id response),
                                  originalId = Some (asset_id asset)\<rparr>])))))"

definition importAssetsAsync ::
  "config \<Rightarrow> id_translate_helper \<Rightarrow> 's client \<Rightarrow> asset_contract list \<Rightarrow> binary_file list
     \<Rightarrow> valid_result list \<Rightarrow> ('s, asset_result list) io" where
  "importAssetsAsync cfg ith cl assetList binFiles currentItems =
     forEachAsync (importOneAsset cfg ith cl binFiles currentItems) assetList"

subsection \<open>Asset folders\<close>

type_synonym folder_result = "(asset_folder_contract, asset_folder_model) import_item_result"

fun setExternalIdForFolders :: "asset_folder_contract list \<Rightarrow> asset_folder_contract list" where
  "setExternalIdForFolders [] = []"
| "setExternalIdForFolders (AssetFolderContract i n e sub # rest) =
     AssetFolderContract i n (Some i)
       (if sub \<noteq> [] then setExternalIdForFolders sub else sub)
     # setExternalIdForFolders rest"

fun flattenAssetFolderContracts :: "asset_folder_contract list \<Rightarrow> asset_folder_contract list" where
  "flattenAssetFolderContracts [] = []"
| "flattenAssetFolderContracts (AssetFolderContract i n e sub # rest) =
     AssetFolderContract i n e sub
     # (if sub \<noteq> [] then flattenAssetFolderContracts sub else [])
     @ flattenAssetFolderContracts rest"

fun mapAssetFolder :: "asset_folder_contract \<Rightarrow> add_folder_data" where
  "mapAssetFolder (AssetFolderContract i n e sub) = AddFolderData n e (map mapAssetFolder sub)"

fun flattenAssetFolders ::
  "asset_folder_model list \<Rightarrow> asset_folder_contract list \<Rightarrow> error + folder_result list" where
  "flattenAssetFolders [] originalItems = Inr []"
| "flattenAssetFolders (AssetFolder i n x sub # rest) originalItems =
     (case find (\<lambda>m. folder_external_id m = x) originalItems of
        None \<Rightarrow> Inl (OriginalFolderNotFound x n)
      | Some originalFolder \<Rightarrow>
          (case (if sub \<noteq> [] then flattenAssetFolders sub originalItems else Inr []) of
             Inl e \<Rightarrow> Inl e
           | Inr below \<Rightarrow>
               (case flattenAssetFolders rest originalItems of
                  Inl e \<Rightarrow> Inl e
                | Inr others \<Rightarrow>
                    Inr (\<lparr>imported = AssetFolder i n x sub, original = originalFolder,
                          importId = Some i, originalId = Some (folder_id originalFolder)\<rparr>
                         # below @ others))))"

text \<open>An exception inside the \<^verbatim>\<open>then\<close> callback reaches \<^verbatim>\<open>handleImportError\<close>, which
  rethrows it.\<close>

definition importAssetFoldersAsync ::
  "config \<Rightarrow> 's client \<Rightarrow> asset_folder_contract list \<Rightarrow> ('s, folder_result list) io" where
  "importAssetFoldersAsync cfg cl folders0 =
     (let folders = setExternalIdForFolders folders0;
          assetFoldersToAdd = map mapAssetFolder folders
      in bindIO (request (AddAssetFolders assetFoldersToAdd) (addAssetFolders cl assetFoldersToAdd))
           (\<lambda>response.
              case flattenAssetFolders response (flattenAssetFolderContracts folders) of
                Inl e \<Rightarrow> throwIO e
              | Inr importedFlattenedFolders \<Rightarrow>
                  forEachAsync
                    (\<lambda>flattenedFolder. bindIO
                       (processItem cfg (afm_name (imported flattenedFolder)) AAssetFolder
                          (DataModel (MAssetFolder (imported flattenedFolder))))
                       (\<lambda>_. returnIO [flattenedFolder]))
                    importedFlattenedFolders))"

subsection \<open>Taxonomies, snippets, content types, content items\<close>

type_synonym taxonomy_result = "(taxonomy_contract, named_model) import_item_result"
type_synonym snippet_result = "(content_type_snippet_contract, named_model) import_item_result"
type_synonym type_result = "(content_type_contract, named_model) import_item_result"
type_synonym item_result = "(content_item_contract, named_model) import_item_result"

definition importTaxonomiesAsync ::
  "config \<Rightarrow> 's client \<Rightarrow> taxonomy_contract list \<Rightarrow> ('s, taxonomy_result list) io" where
  "importTaxonomiesAsync cfg cl =
     forEachAsync (\<lambda>taxonomy.
       bindIO (request (AddTaxonomy taxonomy) (addTaxonomy cl taxonomy))
         (\<lambda>response. bindIO
            (processItem cfg (model_name response) ATaxonomy (DataModel (MTaxonomy response)))
            (\<lambda>_. returnIO
               [\<lparr>imported = response, original = taxonomy,
                 importId = Some (model_id response), originalId = Some (tx_id taxonomy)\<rparr>])))"

definition importContentTypeSnippetsAsync ::
  "config \<Rightarrow> 's client \<Rightarrow> content_type_snippet_contract list \<Rightarrow> ('s, snippet_result list) io" where
  "importContentTypeSnippetsAsync cfg cl =
     forEachAsync (\<lambda>contentTypeSnippet.
       bindIO
         (request
            (AddContentTypeSnippet
               \<lparr>as_elements = cts_elements contentTypeSnippet,
                as_name = cts_name contentTypeSnippet,
                as_codename = cts_codename contentTypeSnippet,
                as_external_id = cts_external_id contentTypeSnippet\<rparr>)
            (addContentTypeSnippet cl
               \<lparr>as_elements = cts_elements contentTypeSnippet,
                as_name = cts_name contentTypeSnippet,
                as_codename = cts_codename contentTypeSnippet,
                as_external_id = cts_external_id contentTypeSnippet\<rparr>))
         (\<lambda>response. bindIO
            (processItem cfg (model_name response) AContentTypeSnippet
               (DataModel (MContentTypeSnippet response)))
            (\<lambda>_. returnIO
               [\<lparr>imported = response, original = contentTypeSnippet,
                 importId = Some (model_id response),
                 originalId = Some (cts_id contentTypeSnippet)\<rparr>])))"

definition importContentTypesAsync ::
  "config \<Rightarrow> 's client \<Rightarrow> content_type_contract list \<Rightarrow> ('s, type_result list) io" where
  "importContentTypesAsync cfg cl =
     forEachAsync (\<lambda>contentType.
       bindIO (request (AddContentType contentType) (addContentType cl contentType))
         (\<lambda>response. bindIO
            (processItem cfg (model_name response) AContentType
               (DataModel (MContentType response)))
            (\<lambda>_. returnIO
               [\<lparr>imported = response, original = contentType,
                 importId = Some (model_id response), originalId = Some (ct_id contentType)\<rparr>])))"

definition importContentItemAsync ::
  "config \<Rightarrow> 's client \<Rightarrow> content_item_contract list \<Rightarrow> ('s, item_result list) io" where
  "importContentItemAsync cfg cl =
     forEachAsync (\<lambda>contentItem.
       (let typeCodename = ref_codename (ci_type contentItem)
        in if \<not> truthy typeCodename
           then throwIO (ContentItemUnsetTypeCodename (ci_codename contentItem))
           else bindIO
             (request
                (AddContentItem
                   \<lparr>ai_name = ci_name contentItem, ai_type_codename = the typeCodename,
                    ai_codename = ci_codename contentItem,
                    ai_external_id = ci_external_id contentItem\<rparr>)
                (addContentItem cl
                   \<lparr>ai_name = ci_name contentItem, ai_type_codename = the typeCodename,
                    ai_codename = ci_codename contentItem,
                    ai_external_id = ci_external_id contentItem\<rparr>))
             (\<lambda>response. bindIO
                (processItem cfg (model_name response) AContentItem
                   (DataModel (MContentItem response)))
                (\<lambda>_. returnIO
                   [\<lparr>imported = response, original = contentItem,
                     importId = Some (model_id response),
                     originalId = Some (ci_id contentItem)\<rparr>]))))"

subsection \<open>Language variants\<close>

type_synonym variant_result =
  "(language_variant_contract, language_variant_model) import_item_result"

text \<open>
  The body of the loop of \<^verbatim>\<open>importLanguageVariantsAsync\<close>. The two codenames are read
  before the helper rewrites the variant; everything after the helper call reads the
  rewritten variant (the same object in the source).
\<close>

definition importOneLanguageVariant ::
  "config \<Rightarrow> id_translate_helper \<Rightarrow> 's client \<Rightarrow> valid_result list
     \<Rightarrow> language_variant_contract \<Rightarrow> ('s, variant_result list) io" where
  "importOneLanguageVariant cfg ith cl currentItems languageVariant =
     (let itemCodename = ref_codename (lv_item languageVariant);
          languageCodename = ref_codename (lv_language languageVariant)
      in if \<not> truthy itemCodename then throwIO MissingItemCodename
         else if \<not> truthy languageCodename then throwIO MissingLanguageCodename
         else (case newIds_languageVariant ith languageVariant currentItems of
                 Inl e \<Rightarrow> throwIO e
               | Inr rewritten \<Rightarrow>
                   bindIO
                     (request
                        (UpsertLanguageVariant (the itemCodename) (the languageCodename)
                           (lv_elements rewritten))
                        (upsertLanguageVariant cl (the itemCodename) (the languageCodename)
                           (lv_elements rewritten)))
                     (\<lambda>response. bindIO
                        (processItem cfg
                           (the itemCodename @ '' ('' @ the languageCodename @ '')'')
                           ALanguageVariant (DataModel (MLanguageVariant response)))
                        (\<lambda>_. returnIO
                           [\<lparr>imported = response, original = rewritten,
                             importId = ref_id (lvm_item response),
                             originalId = ref_id (lv_item rewritten)\<rparr>]))))"

definition importLanguageVariantsAsync ::
  "config \<Rightarrow> id_translate_helper \<Rightarrow> 's client \<Rightarrow> language_variant_contract list
     \<Rightarrow> valid_result list \<Rightarrow> ('s, variant_result list) io" where
  "importLanguageVariantsAsync cfg ith cl variants currentItems =
     forEachAsync (importOneLanguageVariant cfg ith cl currentItems) variants"

subsection \<open>The orchestrator\<close>

text \<open>
  Each block of \<^verbatim>\<open>importAsync\<close> is a stage: it takes \<^verbatim>\<open>importedItems\<close> as it stands
  and answers with \<^verbatim>\<open>importedItems\<close> after the block.
\<close>

definition stageAssetFolders ::
  "config \<Rightarrow> 's client \<Rightarrow> import_source \<Rightarrow> valid_result list \<Rightarrow> ('s, valid_result list) io" where
  "stageAssetFolders cfg cl sourceData importedItems =
     (if assetFolders sourceData \<noteq> []
      then bindIO (importAssetFoldersAsync cfg cl (assetFolders sourceData))
             (\<lambda>importedAssetFolders.
                returnIO (importedItems @ map (widen OAssetFolder MAssetFolder) importedAssetFolders))
      else returnIO importedItems)"

definition stageLanguages ::
  "config \<Rightarrow> 's client \<Rightarrow> import_source \<Rightarrow> valid_result list \<Rightarrow> ('s, valid_result list) io" where
  "stageLanguages cfg cl sourceData importedItems =
     (if languages (importData sourceData) \<noteq> []
      then bindIO (importLanguagesAsync cfg cl (languages (importData sourceData)))
             (\<lambda>importedLanguages.
                returnIO (importedItems @ map (widen OLanguage MLanguage) importedLanguages))
      else returnIO importedItems)"

definition stageTaxonomies ::
  "config \<Rightarrow> 's client \<Rightarrow> import_source \<Rightarrow> valid_result list \<Rightarrow> ('s, valid_result list) io" where
  "stageTaxonomies cfg cl sourceData importedItems =
     (if taxonomies (importData sourceData) \<noteq> []
      then bindIO (importTaxonomiesAsync cfg cl (taxonomies (importData sourceData)))
             (\<lambda>importedTaxonomies.
                returnIO (importedItems @ map (widen OTaxonomy MTaxonomy) importedTaxonomies))
      else returnIO importedItems)"

definition stageContentTypeSnippets ::
  "config \<Rightarrow> 's client \<Rightarrow> import_source \<Rightarrow> valid_result list \<Rightarrow> ('s, valid_result list) io" where
  "stageContentTypeSnippets cfg cl sourceData importedItems =
     (if contentTypeSnippets (importData sourceData) \<noteq> []
      then bindIO (importContentTypeSnippetsAsync cfg cl (contentTypeSnippets (importData sourceData)))
             (\<lambda>_. returnIO importedItems)
      else returnIO importedItems)"

definition stageContentTypes ::
  "config \<Rightarrow> 's client \<Rightarrow> import_source \<Rightarrow> valid_result list \<Rightarrow> ('s, valid_result list) io" where
  "stageContentTypes cfg cl sourceData importedItems =
     (if contentTypes (importData sourceData) \<noteq> []
      then bindIO (importContentTypesAsync cfg cl (contentTypes (importData sourceData)))
             (\<lambda>_. returnIO importedItems)
      else returnIO importedItems)"

definition stageAssets ::
  "config \<Rightarrow> id_translate_helper \<Rightarrow> 's client \<Rightarrow> import_source \<Rightarrow> valid_result list
     \<Rightarrow> ('s, valid_result list) io" where
  "stageAssets cfg ith cl sourceData importedItems =
     (if assets (importData sourceData) \<noteq> []
      then bindIO (importAssetsAsync cfg ith cl (assets (importData sourceData))
                     (binaryFiles sourceData) importedItems)
             (\<lambda>importedAssets.
                returnIO (importedItems @ map (widen OAsset MAsset) importedAssets))
      else returnIO importedItems)"

definition stageContentItems ::
  "config \<Rightarrow> 's client \<Rightarrow> import_source \<Rightarrow> valid_result list \<Rightarrow> ('s, valid_result list) io" where
  "stageContentItems cfg cl sourceData importedItems =
     (if contentItems (importData sourceData) \<noteq> []
      then bindIO (importContentItemAsync cfg cl (contentItems (importData sourceData)))
             (\<lambda>importedContentItems.
                returnIO (importedItems @ map (widen OContentItem MContentItem) importedContentItems))
      else returnIO importedItems)"

text \<open>
  The last block tests \<^verbatim>\<open>if (sourceData.importData.languageVariants)\<close>, the array
  itself, which is truthy also when it is empty: the block always runs. The publish
  and the move pass read the variants after the import loop rewrote them, which are
  the \<open>original\<close> components of its entries.
\<close>

definition stageLanguageVariants ::
  "config \<Rightarrow> id_translate_helper \<Rightarrow> 's client \<Rightarrow> import_source \<Rightarrow> valid_result list
     \<Rightarrow> ('s, valid_result list) io" where
  "stageLanguageVariants cfg ith cl sourceData importedItems =
     bindIO (importLanguageVariantsAsync cfg ith cl (languageVariants (importData sourceData))
               importedItems)
       (\<lambda>importedLanguageVariants.
          bindIO
            (if enablePublish cfg
             then publishLanguageVariantsAsync cfg cl (map original importedLanguageVariants)
                    (workflowSteps (importData sourceData))
             else returnIO ())
            (\<lambda>_. bindIO
               (if truthy (workflowIdForImportedItems cfg)
                then moveLanguageVariantsToCustomWorkflowStepAsync cfg cl
                       (the (workflowIdForImportedItems cfg))
                       (map original importedLanguageVariants)
                else returnIO ())
               (\<lambda>_. returnIO
                  (importedItems
                   @ map (widen OLanguageVariant MLanguageVariant) importedLanguageVariants))))"

text \<open>The blocks of \<^verbatim>\<open>importAsync\<close> after the preprocessing, in the order of the
  source (\<^verbatim>\<open>// import order matters\<close>), starting from an empty \<^verbatim>\<open>importedItems\<close>.\<close>

definition runStages ::
  "config \<Rightarrow> id_translate_helper \<Rightarrow> 's client \<Rightarrow> import_source \<Rightarrow> ('s, valid_result list) io" where
  "runStages cfg ith cl sourceData =
     bindIO (stageAssetFolders cfg cl sourceData [])
       (\<lambda>items1. bindIO (stageLanguages cfg cl sourceData items1)
       (\<lambda>items2. bindIO (stageTaxonomies cfg cl sourceData items2)
       (\<lambda>items3. bindIO (stageContentTypeSnippets cfg cl sourceData items3)
       (\<lambda>items4. bindIO (stageContentTypes cfg cl sourceData items4)
       (\<lambda>items5. bindIO (stageAssets cfg ith cl sourceData items5)
       (\<lambda>items6. bindIO (stageContentItems cfg cl sourceData items6)
       (\<lambda>items7. stageLanguageVariants cfg ith cl sourceData items7)))))))"

text \<open>\<^verbatim>\<open>importAsync\<close>: \<^verbatim>\<open>this.translateIds(sourceData)\<close>, then
  \<^verbatim>\<open>this.removeSkippedItemsFromImport(sourceData)\<close>, both rewriting \<^verbatim>\<open>sourceData\<close> in
  place, then the stages.\<close>

definition importAsync ::
  "config \<Rightarrow> translation_helper \<Rightarrow> id_translate_helper \<Rightarrow> 's client \<Rightarrow> import_source
     \<Rightarrow> ('s, valid_result list) io" where
  "importAsync cfg th ith cl sourceData0 =
     (let sourceData1 = translateIds th sourceData0;
          sourceData = removeSkippedItemsFromImport cfg sourceData1
      in runStages cfg ith cl sourceData)"

definition importFromSourceAsync ::
  "config \<Rightarrow> translation_helper \<Rightarrow> id_translate_helper \<Rightarrow> 's client \<Rightarrow> import_source
     \<Rightarrow> ('s, valid_result list) io" where
  "importFromSourceAsync = importAsync"

section \<open>Vocabulary of the properties\<close>

text \<open>A variant can be published or moved when both codenames are truthy; the call
  the publish pass then issues for it.\<close>

definition publishable :: "language_variant_contract \<Rightarrow> bool" where
  "publishable v = (truthy (ref_codename (lv_item v)) \<and> truthy (ref_codename (lv_language v)))"

definition publishCallOf :: "language_variant_contract \<Rightarrow> call" where
  "publishCallOf v =
     PublishLanguageVariant (the (ref_codename (lv_item v))) (the (ref_codename (lv_language v)))"


text \<open>
  Modelled from the spec: \<^verbatim>\<open>translationHelper\<close> of \<^verbatim>\<open>../core\<close> is not part of the sources
  at hand. The specification has it replace a raw id reference by the codename of the
  entity referenced, looked up among all entities of the import, and leave the reference
  unresolved when the entity is not there. This instance does so for the type reference
  of content items and is the identity elsewhere.
\<close>

definition typeCodenameHelper :: translation_helper where
  "typeCodenameHelper =
     \<lparr>externalIds_taxonomies = (\<lambda>xs. xs),
      externalIds_contentTypeSnippets = (\<lambda>xs. xs),
      externalIds_contentTypes = (\<lambda>xs. xs),
      codenames_languages = (\<lambda>xs d. xs),
      codenames_assets = (\<lambda>xs d. xs),
      codenames_contentItems =
        (\<lambda>xs d. map (\<lambda>i. i\<lparr>ci_type := (ci_type i)\<lparr>ref_codename :=
                   map_option ct_codename
                     (find (\<lambda>t. Some (ct_id t) = ref_id (ci_type i)) (contentTypes d))\<rparr>\<rparr>) xs),
      codenames_languageVariants = (\<lambda>xs d. xs),
      codenames_workflowSteps = (\<lambda>xs d. xs)\<rparr>"





text \<open>The binary file the asset loop picks for an asset, the size test at the ceiling of
  100,000,000 bytes, the upload request of an asset, and the uploads and the
  unsupported-file notifications found in a log.\<close>

definition binaryFileOf :: "binary_file list \<Rightarrow> asset_contract \<Rightarrow> binary_file option" where
  "binaryFileOf binFiles a = find (\<lambda>m. asset_id (bf_asset m) = asset_id a) binFiles"

definition oversized :: "binary_file \<Rightarrow> bool" where
  "oversized b = (asset_size (bf_asset b) \<ge> 100000000)"

definition uploadOf :: "binary_file list \<Rightarrow> asset_contract \<Rightarrow> upload_data" where
  "uploadOf binFiles a =
     \<lparr>up_binaryData = (if oversized (the (binaryFileOf binFiles a)) then []
                        else bf_binaryData (the (binaryFileOf binFiles a))),
      up_contentType = asset_type a, up_filename = asset_file_name a\<rparr>"

fun uploads :: "call list \<Rightarrow> upload_data list" where
  "uploads [] = []"
| "uploads (UploadBinaryFile d # cs) = d # uploads cs"
| "uploads (c # cs) = uploads cs"

fun createdAssets :: "call list \<Rightarrow> add_asset_data list" where
  "createdAssets [] = []"
| "createdAssets (AddAsset d # cs) = d # createdAssets cs"
| "createdAssets (c # cs) = createdAssets cs"

fun unsupportedFiles :: "event list \<Rightarrow> binary_file list" where
  "unsupportedFiles [] = []"
| "unsupportedFiles (OnUnsupportedBinaryFile b # es) = b # unsupportedFiles es"
| "unsupportedFiles (e # es) = unsupportedFiles es"

text \<open>The target answers the requests \<open>qs\<close> one after the other with \<open>ms\<close>, each from the
  project state the answer before left, starting in \<open>s\<close> and ending in \<open>s'\<close>.\<close>

fun answers :: "('q \<Rightarrow> 's \<Rightarrow> (error + 'm) \<times> 's) \<Rightarrow> 's \<Rightarrow> 'q list \<Rightarrow> 'm list \<Rightarrow> 's \<Rightarrow> bool" where
  "answers endpoint s [] [] s' = (s' = s)"
| "answers endpoint s (q # qs) (m # ms) s' =
     (case endpoint q s of
        (Inl e, s1) \<Rightarrow> False
      | (Inr m', s1) \<Rightarrow> m' = m \<and> answers endpoint s1 qs ms s')"
| "answers endpoint s [] (m # ms) s' = False"
| "answers endpoint s (q # qs) [] s' = False"

text \<open>The request that creates an asset: its metadata and a reference to the uploaded file
  \<open>fileId\<close> of the type of its own file reference. The target creates the assets \<open>as\<close> one
  after the other: for each it answers the upload, then the request that creates the asset
  (after the id helper went over it) with a model; \<open>created\<close> holds the requests sent and
  the models answered. The calls made for an asset, and the entry returned for it.\<close>

definition assetRequestFor :: "asset_contract \<Rightarrow> string \<Rightarrow> add_asset_data" where
  "assetRequestFor a fileId =
     \<lparr>aa_descriptions = asset_descriptions a,
      aa_file_reference = \<lparr>fr_id = fileId, fr_type = fr_type (asset_file_reference a)\<rparr>,
      aa_external_id = asset_external_id a,
      aa_folder = asset_folder a,
      aa_title = asset_title a\<rparr>"

fun assetsCreated ::
  "'s client \<Rightarrow> id_translate_helper \<Rightarrow> valid_result list \<Rightarrow> binary_file list \<Rightarrow> 's
     \<Rightarrow> asset_contract list \<Rightarrow> (add_asset_data \<times> asset_model) list \<Rightarrow> 's \<Rightarrow> bool" where
  "assetsCreated cl ith ledger binFiles s [] [] s' = (s' = s)"
| "assetsCreated cl ith ledger binFiles s (a # as) ((q, m) # rest) s' =
     (case uploadBinaryFile cl (uploadOf binFiles a) s of
        (Inl e, s1) \<Rightarrow> False
      | (Inr fileId, s1) \<Rightarrow>
          newIds_assetModel ith (assetRequestFor a fileId) ledger = Inr q
          \<and> (case addAsset cl q s1 of
                (Inl e, s2) \<Rightarrow> False
              | (Inr m', s2) \<Rightarrow> m' = m \<and> assetsCreated cl ith ledger binFiles s2 as rest s'))"
| "assetsCreated cl ith ledger binFiles s [] (c # rest) s' = False"
| "assetsCreated cl ith ledger binFiles s (a # as) [] s' = False"

definition assetCalls :: "binary_file list \<Rightarrow> asset_contract \<times> add_asset_data \<times> asset_model \<Rightarrow> call list" where
  "assetCalls binFiles = (\<lambda>(a, q, m). [UploadBinaryFile (uploadOf binFiles a), AddAsset q])"

definition assetResult :: "asset_contract \<times> add_asset_data \<times> asset_model \<Rightarrow> asset_result" where
  "assetResult = (\<lambda>(a, q, m).
     \<lparr>imported = m, original = a, importId = Some (am_id m), originalId = Some (asset_id a)\<rparr>)"

text \<open>The nodes of a request tree and of a response tree in pre-order.\<close>

fun flattenFolderData :: "add_folder_data list \<Rightarrow> add_folder_data list" where
  "flattenFolderData [] = []"
| "flattenFolderData (AddFolderData n e sub # rest) =
     AddFolderData n e sub # flattenFolderData sub @ flattenFolderData rest"

fun flattenFolderModels :: "asset_folder_model list \<Rightarrow> asset_folder_model list" where
  "flattenFolderModels [] = []"
| "flattenFolderModels (AssetFolder i n x sub # rest) =
     AssetFolder i n x sub # flattenFolderModels sub @ flattenFolderModels rest"

text \<open>
  Modelled from the spec: the ledger lookup of \<^verbatim>\<open>idTranslateHelper\<close> (\<^verbatim>\<open>../core\<close>, not part
  of the sources at hand). The specification (section 4.2) has \<open>lookup\<close> answer the
  \<open>importedId\<close> recorded for an original id, or not-found; the ledger is the list of
  import results the service hands to the helper, searched by original id.
\<close>

definition lookupImportId :: "valid_result list \<Rightarrow> string \<Rightarrow> string option" where
  "lookupImportId ledger i =
     (case find (\<lambda>r. originalId r = Some i) ledger of None \<Rightarrow> None | Some r \<Rightarrow> importId r)"

text \<open>
  Modelled from the spec: \<^verbatim>\<open>idTranslateHelper.replaceIdReferencesWithNewId\<close> of \<^verbatim>\<open>../core\<close>
  is not part of the sources at hand. The specification (section 4.1,
  \<open>resolveToTargetId(value, ledger)\<close>) has it replace every original-id reference in a
  value, at any depth, by the \<open>importedId\<close> the ledger holds for that original id,
  recursing into arrays and nested objects alike, and fail fatally on a reference whose
  original id is not in the ledger. A reference by id is a property named \<open>id\<close> that
  holds a string.
\<close>

fun resolveToTargetId :: "valid_result list \<Rightarrow> json \<Rightarrow> error + json"
  and resolveAll :: "valid_result list \<Rightarrow> json list \<Rightarrow> error + json list"
  and resolveFields :: "valid_result list \<Rightarrow> (string \<times> json) list \<Rightarrow> error + (string \<times> json) list"
  where
  "resolveToTargetId ledger (JArr xs) =
     (case resolveAll ledger xs of Inl e \<Rightarrow> Inl e | Inr ys \<Rightarrow> Inr (JArr ys))"
| "resolveToTargetId ledger (JObj fs) =
     (case resolveFields ledger fs of Inl e \<Rightarrow> Inl e | Inr gs \<Rightarrow> Inr (JObj gs))"
| "resolveToTargetId ledger JNull = Inr JNull"
| "resolveToTargetId ledger (JBool b) = Inr (JBool b)"
| "resolveToTargetId ledger (JNum n) = Inr (JNum n)"
| "resolveToTargetId ledger (JStr s) = Inr (JStr s)"
| "resolveAll ledger [] = Inr []"
| "resolveAll ledger (x # xs) =
     (case resolveToTargetId ledger x of
        Inl e \<Rightarrow> Inl e
      | Inr y \<Rightarrow> (case resolveAll ledger xs of Inl e \<Rightarrow> Inl e | Inr ys \<Rightarrow> Inr (y # ys)))"
| "resolveFields ledger [] = Inr []"
| "resolveFields ledger ((k, JStr s) # fs) =
     (case (if k = ''id''
            then (case lookupImportId ledger s of
                    None \<Rightarrow> Inl (HelperError s)
                  | Some new \<Rightarrow> Inr (JStr new))
            else Inr (JStr s)) of
        Inl e \<Rightarrow> Inl e
      | Inr v \<Rightarrow>
          (case resolveFields ledger fs of Inl e \<Rightarrow> Inl e | Inr gs \<Rightarrow> Inr ((k, v) # gs)))"
| "resolveFields ledger ((k, v) # fs) =
     (case resolveToTargetId ledger v of
        Inl e \<Rightarrow> Inl e
      | Inr v' \<Rightarrow>
          (case resolveFields ledger fs of Inl e \<Rightarrow> Inl e | Inr gs \<Rightarrow> Inr ((k, v') # gs)))"

text \<open>
  Modelled from the spec: the two uses of \<^verbatim>\<open>replaceIdReferencesWithNewId\<close> in the
  service. The specification (section 4.3) has the references inside the element payload
  of a language variant resolved against the entities imported before, and (section 4.4)
  the folder of an asset depend on the folders imported before.
\<close>

definition specIdTranslateHelper :: id_translate_helper where
  "specIdTranslateHelper =
     \<lparr>newIds_assetModel =
        (\<lambda>m items. case resolveToTargetId items (aa_folder m) of
                      Inl e \<Rightarrow> Inl e
                    | Inr folder \<Rightarrow> Inr (m\<lparr>aa_folder := folder\<rparr>)),
      newIds_languageVariant =
        (\<lambda>v items. case resolveToTargetId items (lv_elements v) of
                      Inl e \<Rightarrow> Inl e
                    | Inr els \<Rightarrow> Inr (v\<lparr>lv_elements := els\<rparr>))\<rparr>"

text \<open>The references by id of a value, in the order of the walk, and the upsert calls
  of a log.\<close>

fun idReferences :: "json \<Rightarrow> string list"
  and idReferencesAll :: "json list \<Rightarrow> string list"
  and idReferencesFields :: "(string \<times> json) list \<Rightarrow> string list"
  where
  "idReferences (JArr xs) = idReferencesAll xs"
| "idReferences (JObj fs) = idReferencesFields fs"
| "idReferences JNull = []"
| "idReferences (JBool b) = []"
| "idReferences (JNum n) = []"
| "idReferences (JStr s) = []"
| "idReferencesAll [] = []"
| "idReferencesAll (x # xs) = idReferences x @ idReferencesAll xs"
| "idReferencesFields [] = []"
| "idReferencesFields ((k, JStr s) # fs) = (if k = ''id'' then [s] else []) @ idReferencesFields fs"
| "idReferencesFields ((k, v) # fs) = idReferences v @ idReferencesFields fs"

fun upserts :: "call list \<Rightarrow> (string \<times> string \<times> json) list" where
  "upserts [] = []"
| "upserts (UpsertLanguageVariant i l p # cs) = (i, l, p) # upserts cs"
| "upserts (c # cs) = upserts cs"

definition resolvedElements :: "valid_result list \<Rightarrow> language_variant_contract \<Rightarrow> json" where
  "resolvedElements ledger v =
     (case resolveToTargetId ledger (lv_elements v) of Inl e \<Rightarrow> JNull | Inr p \<Rightarrow> p)"

definition upsertOf ::
  "valid_result list \<Rightarrow> language_variant_contract \<Rightarrow> string \<times> string \<times> json" where
  "upsertOf ledger v =
     (the (ref_codename (lv_item v)), the (ref_codename (lv_language v)),
      resolvedElements ledger v)"

definition resolvable :: "valid_result list \<Rightarrow> json \<Rightarrow> bool" where
  "resolvable ledger v = list_all (\<lambda>i. lookupImportId ledger i \<noteq> None) (idReferences v)"

text \<open>
  The stages of the orchestrator, the stage each client call belongs to, the kind of a
  result entry (the stage that pushed it), and the input collection of each stage. The
  publish pass and the workflow-step move read the language variants.
\<close>

datatype stage =
    SAssetFolders | SLanguages | STaxonomies | SContentTypeSnippets | SContentTypes
  | SAssets | SContentItems | SLanguageVariants | SPublish | SMove

fun stageRank :: "stage \<Rightarrow> nat" where
  "stageRank SAssetFolders = 0"
| "stageRank SLanguages = 1"
| "stageRank STaxonomies = 2"
| "stageRank SContentTypeSnippets = 3"
| "stageRank SContentTypes = 4"
| "stageRank SAssets = 5"
| "stageRank SContentItems = 6"
| "stageRank SLanguageVariants = 7"
| "stageRank SPublish = 8"
| "stageRank SMove = 9"

fun stageOf :: "call \<Rightarrow> stage" where
  "stageOf ListLanguages = SLanguages"
| "stageOf (ModifyLanguage codename patch) = SLanguages"
| "stageOf (AddLanguage d) = SLanguages"
| "stageOf (UploadBinaryFile d) = SAssets"
| "stageOf (AddAsset d) = SAssets"
| "stageOf (AddAssetFolders fs) = SAssetFolders"
| "stageOf (AddContentType d) = SContentTypes"
| "stageOf (AddContentTypeSnippet d) = SContentTypeSnippets"
| "stageOf (AddTaxonomy d) = STaxonomies"
| "stageOf (AddContentItem d) = SContentItems"
| "stageOf (UpsertLanguageVariant i l p) = SLanguageVariants"
| "stageOf (PublishLanguageVariant i l) = SPublish"
| "stageOf (ChangeWorkflowStepOfLanguageVariant i l s) = SMove"

fun kindOf :: "valid_import_contract \<Rightarrow> stage" where
  "kindOf (OAssetFolder x) = SAssetFolders"
| "kindOf (OLanguage x) = SLanguages"
| "kindOf (OTaxonomy x) = STaxonomies"
| "kindOf (OContentTypeSnippet x) = SContentTypeSnippets"
| "kindOf (OContentType x) = SContentTypes"
| "kindOf (OAsset x) = SAssets"
| "kindOf (OContentItem x) = SContentItems"
| "kindOf (OLanguageVariant x) = SLanguageVariants"

fun stageInputEmpty :: "import_source \<Rightarrow> stage \<Rightarrow> bool" where
  "stageInputEmpty src SAssetFolders = (assetFolders src = [])"
| "stageInputEmpty src SLanguages = (languages (importData src) = [])"
| "stageInputEmpty src STaxonomies = (taxonomies (importData src) = [])"
| "stageInputEmpty src SContentTypeSnippets = (contentTypeSnippets (importData src) = [])"
| "stageInputEmpty src SContentTypes = (contentTypes (importData src) = [])"
| "stageInputEmpty src SAssets = (assets (importData src) = [])"
| "stageInputEmpty src SContentItems = (contentItems (importData src) = [])"
| "stageInputEmpty src SLanguageVariants = (languageVariants (importData src) = [])"
| "stageInputEmpty src SPublish = (languageVariants (importData src) = [])"
| "stageInputEmpty src SMove = (languageVariants (importData src) = [])"

text \<open>A stage is active when its input is not empty and, for the two optional passes,
  the configuration asks for it.\<close>

definition stageActive :: "config \<Rightarrow> import_source \<Rightarrow> stage \<Rightarrow> bool" where
  "stageActive cfg src k =
     (\<not> stageInputEmpty src k
      \<and> (k \<noteq> SPublish \<or> enablePublish cfg)
      \<and> (k \<noteq> SMove \<or> truthy (workflowIdForImportedItems cfg)))"


text \<open>What a computation adds to the log of calls: only calls that satisfy \<open>P\<close>,
  whatever its outcome; and at least one call when it returns normally.\<close>

definition emitsOnly :: "(call \<Rightarrow> bool) \<Rightarrow> ('s, 'a) io \<Rightarrow> bool" where
  "emitsOnly P m = (\<forall>w. \<exists>cs. calls (snd (m w)) = calls w @ cs \<and> list_all P cs)"

definition calling :: "('s, 'a) io \<Rightarrow> bool" where
  "calling m = (\<forall>w x w'. m w = (Inr x, w') \<longrightarrow> length (calls w) < length (calls w'))"

text \<open>What the stages from rank \<open>k\<close> on add to the log: calls in stage order, each of
  an active stage of rank at least \<open>k\<close>; and on a normal return, a call of every
  importing stage from \<open>k\<close> on whose input is not empty.\<close>

definition runsFrom :: "config \<Rightarrow> import_source \<Rightarrow> nat \<Rightarrow> ('s, 'a) io \<Rightarrow> bool" where
  "runsFrom cfg src k m =
     (\<forall>w. \<exists>cs. calls (snd (m w)) = calls w @ cs
        \<and> sorted (map (\<lambda>c. stageRank (stageOf c)) cs)
        \<and> list_all (\<lambda>c. k \<le> stageRank (stageOf c) \<and> stageActive cfg src (stageOf c)) cs
        \<and> ((\<exists>x. fst (m w) = Inr x) \<longrightarrow>
             list_all (\<lambda>j. stageInputEmpty src j \<or> (\<exists>c\<in>set cs. stageOf c = j))
               (filter (\<lambda>j. k \<le> stageRank j)
                  [SAssetFolders, SLanguages, STaxonomies, SContentTypeSnippets, SContentTypes,
                   SAssets, SContentItems, SLanguageVariants])))"


text \<open>
  The requests the importers send for a language, a snippet and a content item; the
  language variant as the id helper rewrote it and the upsert sent for it; the
  \<^verbatim>\<open>AddLanguage\<close> requests of a log.
\<close>

fun addedLanguages :: "call list \<Rightarrow> add_language_data list" where
  "addedLanguages [] = []"
| "addedLanguages (AddLanguage d # cs) = d # addedLanguages cs"
| "addedLanguages (c # cs) = addedLanguages cs"

definition addLanguageRequestOf :: "language_contract \<Rightarrow> add_language_data" where
  "addLanguageRequestOf l =
     \<lparr>al_codename = language_codename l,
      al_name = language_name l,
      al_external_id = language_external_id l,
      al_fallback_language =
        (if language_codename l = the (ref_codename (the (language_fallback_language l)))
         then \<lparr>ref_id = Some ''00000000-0000-0000-0000-000000000000'', ref_codename = None,
               ref_external_id = None\<rparr>
         else \<lparr>ref_id = None,
               ref_codename = ref_codename (the (language_fallback_language l)),
               ref_external_id = None\<rparr>),
      al_is_active = language_is_active l\<rparr>"

definition snippetRequestOf :: "content_type_snippet_contract \<Rightarrow> add_snippet_data" where
  "snippetRequestOf x =
     \<lparr>as_elements = cts_elements x, as_name = cts_name x, as_codename = cts_codename x,
      as_external_id = cts_external_id x\<rparr>"

definition itemRequestOf :: "content_item_contract \<Rightarrow> add_content_item_data" where
  "itemRequestOf x =
     \<lparr>ai_name = ci_name x, ai_type_codename = the (ref_codename (ci_type x)),
      ai_codename = ci_codename x, ai_external_id = ci_external_id x\<rparr>"

definition rewrittenVariant ::
  "id_translate_helper \<Rightarrow> valid_result list \<Rightarrow> language_variant_contract
     \<Rightarrow> language_variant_contract" where
  "rewrittenVariant ith ledger v =
     (case newIds_languageVariant ith v ledger of Inl e \<Rightarrow> v | Inr rewritten \<Rightarrow> rewritten)"

definition upsertVariant ::
  "'s client \<Rightarrow> id_translate_helper \<Rightarrow> valid_result list \<Rightarrow> language_variant_contract
     \<Rightarrow> 's \<Rightarrow> (error + language_variant_model) \<times> 's" where
  "upsertVariant cl ith ledger v =
     upsertLanguageVariant cl (the (ref_codename (lv_item v))) (the (ref_codename (lv_language v)))
       (lv_elements (rewrittenVariant ith ledger v))"

text \<open>
  The entries of the returned list, kind by kind: the model the target answered, the
  original entity, the id of the model and the id of the original. The entry of a
  response folder takes as original the first original folder of its external id; the
  entry of a language variant takes the rewritten variant.
\<close>

definition folderEntry :: "asset_folder_contract \<Rightarrow> asset_folder_model \<Rightarrow> valid_result" where
  "folderEntry c m =
     \<lparr>imported = MAssetFolder m, original = OAssetFolder c,
      importId = Some (afm_id m), originalId = Some (folder_id c)\<rparr>"

definition folderEntries ::
  "asset_folder_contract list \<Rightarrow> asset_folder_model list \<Rightarrow> valid_result list" where
  "folderEntries originals response =
     map (\<lambda>m. folderEntry
                (the (find (\<lambda>c. folder_external_id c = afm_externalId m) originals)) m)
       (flattenFolderModels response)"

definition languageEntry :: "language_contract \<times> language_model \<Rightarrow> valid_result" where
  "languageEntry = (\<lambda>(c, m).
     \<lparr>imported = MLanguage m, original = OLanguage c,
      importId = Some (lm_id m), originalId = Some (language_id c)\<rparr>)"

definition taxonomyEntry :: "taxonomy_contract \<times> named_model \<Rightarrow> valid_result" where
  "taxonomyEntry = (\<lambda>(c, m).
     \<lparr>imported = MTaxonomy m, original = OTaxonomy c,
      importId = Some (model_id m), originalId = Some (tx_id c)\<rparr>)"

definition assetEntry :: "asset_contract \<times> add_asset_data \<times> asset_model \<Rightarrow> valid_result" where
  "assetEntry = (\<lambda>(c, q, m).
     \<lparr>imported = MAsset m, original = OAsset c,
      importId = Some (am_id m), originalId = Some (asset_id c)\<rparr>)"

definition contentItemEntry :: "content_item_contract \<times> named_model \<Rightarrow> valid_result" where
  "contentItemEntry = (\<lambda>(c, m).
     \<lparr>imported = MContentItem m, original = OContentItem c,
      importId = Some (model_id m), originalId = Some (ci_id c)\<rparr>)"

definition variantEntry ::
  "id_translate_helper \<Rightarrow> valid_result list
     \<Rightarrow> language_variant_contract \<times> language_variant_model \<Rightarrow> valid_result" where
  "variantEntry ith ledger = (\<lambda>(c, m).
     \<lparr>imported = MLanguageVariant m, original = OLanguageVariant (rewrittenVariant ith ledger c),
      importId = ref_id (lvm_item m),
      originalId = ref_id (lv_item (rewrittenVariant ith ledger c))\<rparr>)"

section \<open>A concrete target project and concrete inputs\<close>

text \<open>A small client for evaluating the service: the project state counts the
  entities created so far, and every new entity gets an identifier made from that
  count. Asset folders are echoed with their external ids.\<close>

definition freshId :: "nat \<Rightarrow> string" where
  "freshId n = ''new-'' @ replicate n (CHR ''i'')"

fun echoFolder :: "add_folder_data \<Rightarrow> asset_folder_model" where
  "echoFolder (AddFolderData n e sub) = AssetFolder (''new-'' @ n) n e (map echoFolder sub)"

definition demoTargetLanguages :: "language_model list" where
  "demoTargetLanguages =
     [\<lparr>lm_id = defaultLanguageId, lm_name = ''English'', lm_codename = ''en-GB'',
       lm_isActive = True\<rparr>]"

definition demoClient :: "nat client" where
  "demoClient =
     \<lparr>listLanguages = (\<lambda>s. (Inr demoTargetLanguages, s)),
      modifyLanguage = (\<lambda>codename patch s. (Inr (), s)),
      addLanguage = (\<lambda>d s. (Inr \<lparr>lm_id = freshId s, lm_name = al_name d,
                                  lm_codename = al_codename d, lm_isActive = al_is_active d\<rparr>,
                             Suc s)),
      uploadBinaryFile = (\<lambda>d s. (Inr (freshId s), Suc s)),
      addAsset = (\<lambda>d s. (Inr \<lparr>am_id = freshId s, am_fileName = ''file''\<rparr>, Suc s)),
      addAssetFolders = (\<lambda>fs s. (Inr (map echoFolder fs), s)),
      addContentType = (\<lambda>d s. (Inr \<lparr>model_id = freshId s, model_name = ct_name d\<rparr>, Suc s)),
      addContentTypeSnippet =
        (\<lambda>d s. (Inr \<lparr>model_id = freshId s, model_name = as_name d\<rparr>, Suc s)),
      addTaxonomy = (\<lambda>d s. (Inr \<lparr>model_id = freshId s, model_name = tx_name d\<rparr>, Suc s)),
      addContentItem = (\<lambda>d s. (Inr \<lparr>model_id = freshId s, model_name = ai_name d\<rparr>, Suc s)),
      upsertLanguageVariant =
        (\<lambda>itemCodename languageCodename elements s.
           (Inr \<lparr>lvm_item = \<lparr>ref_id = Some (freshId s), ref_codename = Some itemCodename,
                               ref_external_id = None\<rparr>,
                  lvm_language = \<lparr>ref_id = None, ref_codename = Some languageCodename,
                                   ref_external_id = None\<rparr>\<rparr>, Suc s)),
      publishLanguageVariant = (\<lambda>itemCodename languageCodename s. (Inr (), s)),
      changeWorkflowStepOfLanguageVariant =
        (\<lambda>itemCodename languageCodename stepId s. (Inr (), s))\<rparr>"

definition demoWorld :: "nat world" where
  "demoWorld = \<lparr>server = 0, calls = [], events = []\<rparr>"

definition demoConfig :: config where
  "demoConfig =
     \<lparr>enablePublish = True, workflowIdForImportedItems = Some ''step-review'',
      fixLanguages = False, process = None, onImport = True, onUnsupportedBinaryFile = True\<rparr>"

text \<open>References as the export writes them: by id, and by id with the codename the
  translation helper added.\<close>

definition byCodename :: "string \<Rightarrow> string \<Rightarrow> reference" where
  "byCodename i c = \<lparr>ref_id = Some i, ref_codename = Some c, ref_external_id = None\<rparr>"

definition byId :: "string \<Rightarrow> reference" where
  "byId i = \<lparr>ref_id = Some i, ref_codename = None, ref_external_id = None\<rparr>"

text \<open>Two workflow steps and three language variants: one published, one in draft, one
  published without an item codename.\<close>

definition demoSteps :: "workflow_step_contract list" where
  "demoSteps = [\<lparr>ws_id = ''s1'', ws_name = ''Draft''\<rparr>, \<lparr>ws_id = ''s2'', ws_name = ''Published''\<rparr>]"

definition demoVariantHome :: language_variant_contract where
  "demoVariantHome =
     \<lparr>lv_item = byCodename ''i1'' ''home'', lv_language = byCodename ''l1'' ''en'',
      lv_elements = JArr [], lv_workflow_step = byId ''s2''\<rparr>"

definition demoVariantAbout :: language_variant_contract where
  "demoVariantAbout =
     \<lparr>lv_item = byCodename ''i2'' ''about'', lv_language = byCodename ''l1'' ''en'',
      lv_elements = JArr [], lv_workflow_step = byId ''s1''\<rparr>"

definition demoVariantNoCodename :: language_variant_contract where
  "demoVariantNoCodename =
     \<lparr>lv_item = byId ''i3'', lv_language = byCodename ''l1'' ''en'',
      lv_elements = JArr [], lv_workflow_step = byId ''s2''\<rparr>"

text \<open>A content type, a content item of that type, and a configuration that rejects every
  content type.\<close>

definition demoArticleType :: content_type_contract where
  "demoArticleType =
     \<lparr>ct_id = ''t1'', ct_name = ''Article'', ct_codename = ''article'', ct_external_id = None,
      ct_elements = JArr []\<rparr>"

definition demoItemHome :: content_item_contract where
  "demoItemHome =
     \<lparr>ci_id = ''i1'', ci_name = ''Home'', ci_codename = ''home'', ci_external_id = None,
      ci_type = byId ''t1''\<rparr>"

definition emptyImportData :: import_data where
  "emptyImportData =
     \<lparr>languages = [], taxonomies = [], contentTypeSnippets = [], contentTypes = [],
      assets = [], contentItems = [], languageVariants = [], workflowSteps = []\<rparr>"

definition noProcess :: process_config where
  "noProcess =
     \<lparr>process_asset = None, process_language = None, process_assetFolder = None,
      process_contentType = None, process_contentItem = None,
      process_contentTypeSnippet = None, process_languageVariant = None,
      process_taxonomy = None\<rparr>"

definition demoTypedSource :: import_source where
  "demoTypedSource =
     \<lparr>importData = emptyImportData\<lparr>contentTypes := [demoArticleType],
                                     contentItems := [demoItemHome]\<rparr>,
      assetFolders = [], binaryFiles = []\<rparr>"

definition skipTypesConfig :: config where
  "skipTypesConfig =
     demoConfig\<lparr>process := Some (noProcess\<lparr>process_contentType := Some (\<lambda>t. False)\<rparr>)\<rparr>"

text \<open>Four language variants (two items in two languages) and a configuration that rejects
  only the variant of item \<open>A\<close> in language \<open>en\<close>.\<close>

definition refVariant :: "string \<Rightarrow> string \<Rightarrow> language_variant_contract" where
  "refVariant i l =
     \<lparr>lv_item = byId i, lv_language = byId l, lv_elements = JNull, lv_workflow_step = byId ''s1''\<rparr>"

definition skipOneVariantConfig :: config where
  "skipOneVariantConfig =
     demoConfig\<lparr>process := Some (noProcess\<lparr>process_languageVariant :=
       Some (\<lambda>v. \<not> (ref_id (lv_item v) = Some ''A'' \<and> ref_id (lv_language v) = Some ''en''))\<rparr>)\<rparr>"

definition demoVariantSource :: import_source where
  "demoVariantSource =
     \<lparr>importData = emptyImportData\<lparr>languageVariants :=
        [refVariant ''A'' ''en'', refVariant ''B'' ''en'', refVariant ''A'' ''de'',
         refVariant ''B'' ''de'']\<rparr>,
      assetFolders = [], binaryFiles = []\<rparr>"

text \<open>An id helper that leaves every reference as it is, and two assets with their binary
  files: one small, one at the size ceiling.\<close>

definition keepIds :: id_translate_helper where
  "keepIds = \<lparr>newIds_assetModel = (\<lambda>m items. Inr m), newIds_languageVariant = (\<lambda>v items. Inr v)\<rparr>"

definition demoAsset :: "string \<Rightarrow> int \<Rightarrow> asset_contract" where
  "demoAsset i n =
     \<lparr>asset_id = i, asset_file_name = i @ ''.bin'', asset_title = None, asset_size = n,
      asset_type = ''application/octet-stream'',
      asset_file_reference = \<lparr>fr_id = ''f-'' @ i, fr_type = ''internal''\<rparr>,
      asset_descriptions = JArr [], asset_external_id = None, asset_folder = JNull\<rparr>"

definition demoBinaryFiles :: "binary_file list" where
  "demoBinaryFiles =
     [\<lparr>bf_asset = demoAsset ''small'' 3, bf_binaryData = [4, 5, 6]\<rparr>,
      \<lparr>bf_asset = demoAsset ''huge'' 100000000, bf_binaryData = [7, 7]\<rparr>]"

text \<open>A folder tree of depth three, a client that answers with a folder nobody submitted,
  and a client that answers with the submitted top-level folders in reverse order.\<close>

definition demoFolders :: "asset_folder_contract list" where
  "demoFolders =
     [AssetFolderContract ''f1'' ''images'' None
        [AssetFolderContract ''f2'' ''icons'' None
           [AssetFolderContract ''f3'' ''small'' None []]],
      AssetFolderContract ''f4'' ''videos'' None []]"

definition strayFolderClient :: "nat client" where
  "strayFolderClient =
     demoClient\<lparr>addAssetFolders :=
       (\<lambda>fs s. (Inr [AssetFolder ''n9'' ''legacy'' (Some ''f9'') []], s))\<rparr>"

definition reorderingClient :: "nat client" where
  "reorderingClient =
     demoClient\<lparr>addAssetFolders := (\<lambda>fs s. (Inr (rev (map echoFolder fs)), s))\<rparr>"

text \<open>The results of an asset and of a content item imported before, and a language variant
  whose elements link both inside a list.\<close>

definition demoLedger :: "valid_result list" where
  "demoLedger =
     [\<lparr>imported = MAsset \<lparr>am_id = ''new-a1'', am_fileName = ''a1.bin''\<rparr>,
       original = OAsset (demoAsset ''a1'' 3),
       importId = Some ''new-a1'', originalId = Some ''a1''\<rparr>,
      \<lparr>imported = MContentItem \<lparr>model_id = ''new-i1'', model_name = ''Home''\<rparr>,
       original = OContentItem demoItemHome,
       importId = Some ''new-i1'', originalId = Some ''i1''\<rparr>]"

definition demoVariantLinked :: language_variant_contract where
  "demoVariantLinked =
     \<lparr>lv_item = byCodename ''i2'' ''about'', lv_language = byCodename ''l1'' ''en'',
      lv_elements =
        JArr [JObj [(''element'', JObj [(''codename'', JStr ''related'')]),
                    (''value'', JArr [JObj [(''id'', JStr ''i1'')],
                                      JObj [(''id'', JStr ''a1'')]])]],
      lv_workflow_step = byId ''s1''\<rparr>"

text \<open>A translation helper that leaves every reference as it is.\<close>

definition keepReferences :: translation_helper where
  "keepReferences =
     \<lparr>externalIds_taxonomies = (\<lambda>xs. xs),
      externalIds_contentTypeSnippets = (\<lambda>xs. xs),
      externalIds_contentTypes = (\<lambda>xs. xs),
      codenames_languages = (\<lambda>xs d. xs),
      codenames_assets = (\<lambda>xs d. xs),
      codenames_contentItems = (\<lambda>xs d. xs),
      codenames_languageVariants = (\<lambda>xs d. xs),
      codenames_workflowSteps = (\<lambda>xs d. xs)\<rparr>"

text \<open>The default language with a codename other than the target's, a second language, and a
  source with asset folders and that default language.\<close>

definition demoDefaultLanguage :: language_contract where
  "demoDefaultLanguage =
     \<lparr>language_id = defaultLanguageId, language_name = ''English (US)'',
      language_codename = ''en-US'', language_external_id = None, language_is_active = True,
      language_is_default = True,
      language_fallback_language = Some (byCodename defaultLanguageId ''en-US'')\<rparr>"

definition demoGerman :: language_contract where
  "demoGerman =
     \<lparr>language_id = ''l-de'', language_name = ''German'', language_codename = ''de'',
      language_external_id = None, language_is_active = True, language_is_default = False,
      language_fallback_language = Some (byCodename defaultLanguageId ''en-GB'')\<rparr>"

definition mismatchSource :: import_source where
  "mismatchSource =
     \<lparr>importData = emptyImportData\<lparr>languages := [demoDefaultLanguage]\<rparr>,
      assetFolders = demoFolders, binaryFiles = []\<rparr>"

definition demoSnippet :: content_type_snippet_contract where
  "demoSnippet =
     \<lparr>cts_id = ''sn1'', cts_name = ''Metadata'', cts_codename = ''metadata'',
      cts_external_id = None, cts_elements = JArr []\<rparr>"

text \<open>A source with every collection filled except the taxonomies.\<close>

definition demoFullSource :: import_source where
  "demoFullSource =
     \<lparr>importData =
        \<lparr>languages = [demoGerman], taxonomies = [], contentTypeSnippets = [demoSnippet],
         contentTypes = [demoArticleType], assets = [demoAsset ''small'' 3],
         contentItems = [demoItemHome\<lparr>ci_type := byCodename ''t1'' ''article''\<rparr>],
         languageVariants = [demoVariantHome], workflowSteps = demoSteps\<rparr>,
      assetFolders = demoFolders, binaryFiles = demoBinaryFiles\<rparr>"

text \<open>The same source without its binary files.\<close>

definition demoSourceNoFiles :: import_source where
  "demoSourceNoFiles = demoFullSource\<lparr>binaryFiles := []\<rparr>"

section \<open>Properties\<close>

subsection \<open>Unfolding the plumbing\<close>

lemmas demo_defs = demoClient_def demoWorld_def demoConfig_def byCodename_def byId_def
  demoSteps_def demoVariantHome_def demoVariantAbout_def demoVariantNoCodename_def
  freshId_def demoTargetLanguages_def

lemmas io_defs = returnIO_def throwIO_def bindIO_def request_def emit_def processItem_def
  truthy_def Let_def

subsection \<open>The publish pass\<close>

lemma request_calls: "calls (snd (request c ep w)) = calls w @ [c]"
  by (simp add: request_def split: prod.splits)

lemma processItem_eq: "\<exists>w'. processItem cfg t a d w = (Inr (), w') \<and> calls w' = calls w \<and> server w' = server w"
  by (simp add: processItem_def returnIO_def emit_def)

lemma publishOne_cases:
  assumes "publishOne cfg cl v w = (r, w')"
  shows "(\<not> publishable v \<and> (\<exists>e. r = Inl e) \<and> calls w' = calls w)
       \<or> (publishable v \<and> calls w' = calls w @ [publishCallOf v])"
  using assms
  by (auto simp: publishOne_def publishable_def publishCallOf_def Let_def throwIO_def bindIO_def
      request_def processItem_def returnIO_def emit_def split: if_splits prod.splits sum.splits)

lemma publish_loop:
  assumes "forEachAsync (publishOne cfg cl) xs w = (r, w')"
  shows "\<exists>n\<le>length xs. calls w' = calls w @ map publishCallOf (take n xs)
          \<and> ((\<exists>u. r = Inr u) \<longrightarrow> n = length xs)
          \<and> ((\<exists>v\<in>set xs. \<not> publishable v) \<longrightarrow> (\<exists>e. r = Inl e))"
  using assms
proof (induction xs arbitrary: w r w')
  case Nil
  then show ?case by auto
next
  case (Cons x xs)
  obtain r1 w1 where b: "publishOne cfg cl x w = (r1, w1)" by (cases "publishOne cfg cl x w")
  show ?case
  proof (cases r1)
    case (Inl e)
    with Cons.prems b have rw: "r = Inl e" "w' = w1" by auto
    from publishOne_cases[OF b] show ?thesis
    proof
      assume "\<not> publishable x \<and> (\<exists>e. r1 = Inl e) \<and> calls w1 = calls w"
      then show ?thesis using rw by (intro exI[of _ 0]) auto
    next
      assume "publishable x \<and> calls w1 = calls w @ [publishCallOf x]"
      then show ?thesis using rw by (intro exI[of _ 1]) auto
    qed
  next
    case (Inr p)
    obtain r2 w2 where l: "forEachAsync (publishOne cfg cl) xs w1 = (r2, w2)"
      by (cases "forEachAsync (publishOne cfg cl) xs w1")
    from Cons.IH[OF l] obtain n where n: "n \<le> length xs"
      "calls w2 = calls w1 @ map publishCallOf (take n xs)"
      "(\<exists>u. r2 = Inr u) \<longrightarrow> n = length xs"
      "(\<exists>v\<in>set xs. \<not> publishable v) \<longrightarrow> (\<exists>e. r2 = Inl e)" by blast
    from publishOne_cases[OF b] Inr have px: "publishable x" "calls w1 = calls w @ [publishCallOf x]"
      by auto
    from Cons.prems b Inr l have rw: "w' = w2" "(\<exists>u. r = Inr u) = (\<exists>u. r2 = Inr u)" "(\<exists>e. r = Inl e) = (\<exists>e. r2 = Inl e)"
      by (auto split: sum.splits)
    show ?thesis using n px rw by (intro exI[of _ "Suc n"]) auto
  qed
qed

text \<open>
  C10: in the publish pass, when no workflow step is named \<open>Published\<close> the pass
  returns without a publish call and without an error. Otherwise, with \<open>step\<close> the
  first step of that name, the pass issues one publish call for each variant whose
  workflow step id is the id of \<open>step\<close>, in order, and no other call: all of them when
  it returns normally, those of a starting segment when it throws. It throws when one of
  these variants lacks an item codename or a language codename.
\<close>

theorem publish_pass:
  "((\<forall>s\<in>set steps. ws_name s \<noteq> ''Published'') \<longrightarrow>
       publishLanguageVariantsAsync cfg cl variants steps w = (Inr (), w))
   \<and> (\<forall>step r w'. getPublishedWorkflowStep steps = Some step
         \<and> publishLanguageVariantsAsync cfg cl variants steps w = (r, w') \<longrightarrow>
       (\<exists>n \<le> length (filter (\<lambda>m. ref_id (lv_workflow_step m) = Some (ws_id step)) variants).
          calls w' = calls w @ map publishCallOf
             (take n (filter (\<lambda>m. ref_id (lv_workflow_step m) = Some (ws_id step)) variants))
        \<and> (r = Inr () \<longrightarrow>
             n = length (filter (\<lambda>m. ref_id (lv_workflow_step m) = Some (ws_id step)) variants))
        \<and> ((\<exists>v\<in>set variants. ref_id (lv_workflow_step v) = Some (ws_id step) \<and> \<not> publishable v)
             \<longrightarrow> (\<exists>e. r = Inl e))))"
proof (intro conjI allI impI)
  assume "\<forall>s\<in>set steps. ws_name s \<noteq> ''Published''"
  then have "getPublishedWorkflowStep steps = None"
    by (simp add: getPublishedWorkflowStep_def publishedWorkflowStepName_def find_None_iff)
  then show "publishLanguageVariantsAsync cfg cl variants steps w = (Inr (), w)"
    by (simp add: publishLanguageVariantsAsync_def returnIO_def)
next
  fix step r w'
  assume a: "getPublishedWorkflowStep steps = Some step
         \<and> publishLanguageVariantsAsync cfg cl variants steps w = (r, w')"
  let ?xs = "filter (\<lambda>m. ref_id (lv_workflow_step m) = Some (ws_id step)) variants"
  obtain r0 w0 where l: "forEachAsync (publishOne cfg cl) ?xs w = (r0, w0)"
    by (cases "forEachAsync (publishOne cfg cl) ?xs w")
  from a l have rw: "w' = w0" "(r = Inr ()) = (\<exists>u. r0 = Inr u)" "(\<exists>e. r = Inl e) = (\<exists>e. r0 = Inl e)"
    by (auto simp: publishLanguageVariantsAsync_def Let_def returnIO_def bindIO_def
        split: if_splits sum.splits)
  from publish_loop[OF l] rw
  show "\<exists>n \<le> length ?xs. calls w' = calls w @ map publishCallOf (take n ?xs)
        \<and> (r = Inr () \<longrightarrow> n = length ?xs)
        \<and> ((\<exists>v\<in>set variants. ref_id (lv_workflow_step v) = Some (ws_id step) \<and> \<not> publishable v)
             \<longrightarrow> (\<exists>e. r = Inl e))"
    by auto
qed

text \<open>The three cases at concrete inputs: no published step; one variant to publish out
  of two; a variant to publish without an item codename.\<close>

theorem publish_pass_witness:
  "getPublishedWorkflowStep [\<lparr>ws_id = ''s1'', ws_name = ''Draft''\<rparr>] = None
   \<and> publishLanguageVariantsAsync demoConfig demoClient [demoVariantHome, demoVariantAbout]
        [\<lparr>ws_id = ''s1'', ws_name = ''Draft''\<rparr>] demoWorld = (Inr (), demoWorld)
   \<and> getPublishedWorkflowStep demoSteps = Some \<lparr>ws_id = ''s2'', ws_name = ''Published''\<rparr>
   \<and> fst (publishLanguageVariantsAsync demoConfig demoClient [demoVariantHome, demoVariantAbout]
        demoSteps demoWorld) = Inr ()
   \<and> calls (snd (publishLanguageVariantsAsync demoConfig demoClient
        [demoVariantHome, demoVariantAbout] demoSteps demoWorld))
       = [PublishLanguageVariant ''home'' ''en'']
   \<and> \<not> publishable demoVariantNoCodename
   \<and> (\<exists>e. fst (publishLanguageVariantsAsync demoConfig demoClient
        [demoVariantHome, demoVariantNoCodename] demoSteps demoWorld) = Inl e)"
proof -
  let ?draft = "[\<lparr>ws_id = ''s1'', ws_name = ''Draft''\<rparr>]"
  let ?pub = "\<lparr>ws_id = ''s2'', ws_name = ''Published''\<rparr>"
  have h1: "\<forall>s\<in>set ?draft. ws_name s \<noteq> ''Published''" by simp
  have h2: "getPublishedWorkflowStep demoSteps = Some ?pub"
    by (simp add: getPublishedWorkflowStep_def publishedWorkflowStepName_def demoSteps_def)
  have h3: "fst (publishLanguageVariantsAsync demoConfig demoClient
        [demoVariantHome, demoVariantAbout] demoSteps demoWorld) = Inr ()"
    by (simp add: publishLanguageVariantsAsync_def getPublishedWorkflowStep_def publishedWorkflowStepName_def publishOne_def demo_defs io_defs)
  have h4: "\<not> publishable demoVariantNoCodename"
    by (simp add: publishable_def demo_defs io_defs)
  have f: "filter (\<lambda>m. ref_id (lv_workflow_step m) = Some (ws_id ?pub))
        [demoVariantHome, demoVariantAbout] = [demoVariantHome]"
    by (simp add: demo_defs)
  note a = publish_pass[of ?draft demoConfig demoClient "[demoVariantHome, demoVariantAbout]" demoWorld]
  note b = publish_pass[of demoSteps demoConfig demoClient "[demoVariantHome, demoVariantAbout]" demoWorld,
      THEN conjunct2, rule_format, of ?pub "Inr ()"
        "snd (publishLanguageVariantsAsync demoConfig demoClient
        [demoVariantHome, demoVariantAbout] demoSteps demoWorld)"]
  note c = publish_pass[of demoSteps demoConfig demoClient "[demoVariantHome, demoVariantNoCodename]" demoWorld,
      THEN conjunct2, rule_format, of ?pub
       "fst (publishLanguageVariantsAsync demoConfig demoClient
        [demoVariantHome, demoVariantNoCodename] demoSteps demoWorld)"
        "snd (publishLanguageVariantsAsync demoConfig demoClient
        [demoVariantHome, demoVariantNoCodename] demoSteps demoWorld)"]
  have g1: "publishLanguageVariantsAsync demoConfig demoClient [demoVariantHome, demoVariantAbout]
        ?draft demoWorld = (Inr (), demoWorld)" using a h1 by blast
  have g2: "calls (snd (publishLanguageVariantsAsync demoConfig demoClient
        [demoVariantHome, demoVariantAbout] demoSteps demoWorld))
       = [PublishLanguageVariant ''home'' ''en'']"
    using b h2 h3 unfolding f
    by (auto simp: prod_eq_iff publishCallOf_def demoVariantHome_def byCodename_def demoWorld_def)
  have g3: "\<exists>e. fst (publishLanguageVariantsAsync demoConfig demoClient
        [demoVariantHome, demoVariantNoCodename] demoSteps demoWorld) = Inl e"
    using c h2 h4 by (auto simp: demoVariantNoCodename_def byId_def)
  have h0: "getPublishedWorkflowStep ?draft = None"
    by (simp add: getPublishedWorkflowStep_def publishedWorkflowStepName_def)
  show ?thesis using h0 h2 h3 h4 g1 g2 g3 by blast
qed

subsection \<open>Unfolding the concrete inputs\<close>

lemmas source_defs = emptyImportData_def noProcess_def demoTypedSource_def skipTypesConfig_def
  demoArticleType_def demoItemHome_def typeCodenameHelper_def refVariant_def
  skipOneVariantConfig_def demoVariantSource_def

lemmas filter_defs = removeSkippedItemsFromImport_def removeSkipped_def processPredicate_def
  skipLoop_def translateIds_def

subsection \<open>Preprocessing\<close>

text \<open>A loop that removes by id keeps exactly the accepted entities when the ids of the
  collection are distinct; every loop leaves a subsequence of its collection.\<close>

lemma skipLoop_foldl:
  "foldl (\<lambda>current item. if \<not> p item then filter (keep item) current else current) acc ys
     = filter (\<lambda>m. \<forall>item\<in>set ys. \<not> p item \<longrightarrow> keep item m) acc"
proof (induction ys arbitrary: acc)
  case Nil
  then show ?case by simp
next
  case (Cons y ys)
  show ?case by (simp add: Cons.IH)
qed

lemma skipLoop_by_key:
  "skipLoop p (\<lambda>item m. k m \<noteq> k item) xs
     = filter (\<lambda>m. \<forall>item\<in>set xs. \<not> p item \<longrightarrow> k m \<noteq> k item) xs"
  by (simp add: skipLoop_def skipLoop_foldl)

lemma skipLoop_distinct_keys:
  assumes "distinct (map k xs)"
  shows "skipLoop p (\<lambda>item m. k m \<noteq> k item) xs = filter p xs"
proof -
  have "inj_on k (set xs)" using assms by (simp add: distinct_map)
  then have "\<And>m. m \<in> set xs \<Longrightarrow> (\<forall>item\<in>set xs. \<not> p item \<longrightarrow> k m \<noteq> k item) = p m"
    by (auto dest: inj_onD)
  then show ?thesis unfolding skipLoop_by_key by (auto intro: filter_cong)
qed

text \<open>With a predicate for content items only and distinct content-item ids, the
  filtering step keeps exactly the accepted content items and changes nothing else.\<close>

lemma contentItem_filter_only:
  assumes "process cfg = Some (noProcess\<lparr>process_contentItem := Some p\<rparr>)"
    and "distinct (map ci_id (contentItems (importData source)))"
  shows "removeSkippedItemsFromImport cfg source
           = source\<lparr>importData := (importData source)\<lparr>contentItems :=
               filter p (contentItems (importData source))\<rparr>\<rparr>"
  using assms
  by (simp add: removeSkippedItemsFromImport_def removeSkipped_def processPredicate_def
      noProcess_def skipLoop_distinct_keys Let_def)












text \<open>
  C4 at a concrete input: four variants, the predicate rejects only the variant of item
  \<open>A\<close> in language \<open>en\<close>. The loop for language variants keeps a variant only when both
  its item id and its language id differ from those of the rejected one, so it also
  removes the accepted variants of item \<open>A\<close> and of language \<open>en\<close>.
\<close>

theorem variant_filter_removes_accepted_variants:
  "languageVariants (importData (removeSkippedItemsFromImport skipOneVariantConfig demoVariantSource))
     = [refVariant ''B'' ''de'']
   \<and> filter (\<lambda>v. \<not> (ref_id (lv_item v) = Some ''A'' \<and> ref_id (lv_language v) = Some ''en''))
        (languageVariants (importData demoVariantSource))
     = [refVariant ''B'' ''en'', refVariant ''A'' ''de'', refVariant ''B'' ''de'']"
  by (simp add: filter_defs source_defs demo_defs Let_def)

subsection \<open>Loops\<close>

lemma forEachAsync_append:
  "forEachAsync body (xs @ ys) w =
     (case forEachAsync body xs w of
        (Inl e, w') \<Rightarrow> (Inl e, w')
      | (Inr r, w') \<Rightarrow>
          (case forEachAsync body ys w' of
             (Inl e, w'') \<Rightarrow> (Inl e, w'')
           | (Inr r', w'') \<Rightarrow> (Inr (r @ r'), w'')))"
  by (induction xs arbitrary: w) (auto split: prod.splits sum.splits)

lemma forEachAsync_Cons_Inr:
  assumes "forEachAsync body (x # xs) w = (Inr rs, w')"
  obtains r w1 rest where "body x w = (Inr r, w1)" "forEachAsync body xs w1 = (Inr rest, w')"
    "rs = r @ rest"
  using assms by (auto split: prod.splits sum.splits)

subsection \<open>Assets\<close>

lemma uploads_append: "uploads (cs @ ds) = uploads cs @ uploads ds"
  by (induction cs rule: uploads.induct) auto

lemma createdAssets_append: "createdAssets (cs @ ds) = createdAssets cs @ createdAssets ds"
  by (induction cs rule: createdAssets.induct) auto

lemma unsupportedFiles_append:
  "unsupportedFiles (es @ fs) = unsupportedFiles es @ unsupportedFiles fs"
  by (induction es rule: unsupportedFiles.induct) auto

lemma importOneAsset_missing:
  "binaryFileOf binFiles a = None \<Longrightarrow>
     importOneAsset cfg ith cl binFiles cur a w = (Inl (MissingBinaryFile (asset_id a)), w)"
  by (simp add: importOneAsset_def binaryFileOf_def throwIO_def)

lemma importOneAsset_Inr:
  assumes "importOneAsset cfg ith cl binFiles cur a w = (Inr r, w1)"
  shows "\<exists>b resp. binaryFileOf binFiles a = Some b
           \<and> r = [\<lparr>imported = resp, original = a, importId = Some (am_id resp),
                    originalId = Some (asset_id a)\<rparr>]
           \<and> uploads (calls w1) = uploads (calls w) @ [uploadOf binFiles a]
           \<and> length (createdAssets (calls w1)) = Suc (length (createdAssets (calls w)))
           \<and> unsupportedFiles (events w1) = unsupportedFiles (events w)
                @ (if oversized b \<and> onUnsupportedBinaryFile cfg then [b] else [])"
proof (cases "binaryFileOf binFiles a")
  case None
  with assms show ?thesis by (simp add: importOneAsset_missing)
next
  case (Some b)
  then have f: "find (\<lambda>m. asset_id (bf_asset m) = asset_id a) binFiles = Some b"
    by (simp add: binaryFileOf_def)
  show ?thesis using assms Some unfolding importOneAsset_def f
    by (auto simp: io_defs uploadOf_def oversized_def maxAllowedAssetSizeInBytes_def
        uploads_append createdAssets_append unsupportedFiles_append
        split: if_splits prod.splits sum.splits)
qed

lemma importAssets_Inr:
  assumes "forEachAsync (importOneAsset cfg ith cl binFiles cur) xs w = (Inr rs, w')"
  shows "(\<forall>a\<in>set xs. binaryFileOf binFiles a \<noteq> None)
       \<and> map original rs = xs
       \<and> map originalId rs = map (\<lambda>a. Some (asset_id a)) xs
       \<and> (\<forall>r\<in>set rs. importId r = Some (am_id (imported r)))
       \<and> uploads (calls w') = uploads (calls w) @ map (uploadOf binFiles) xs
       \<and> length (createdAssets (calls w')) = length (createdAssets (calls w)) + length xs
       \<and> unsupportedFiles (events w') = unsupportedFiles (events w)
            @ (if onUnsupportedBinaryFile cfg
               then filter oversized (map (\<lambda>a. the (binaryFileOf binFiles a)) xs) else [])"
  using assms
proof (induction xs arbitrary: w rs)
  case Nil
  then show ?case by simp
next
  case (Cons a xs)
  from Cons.prems obtain r w1 rest where
    b: "importOneAsset cfg ith cl binFiles cur a w = (Inr r, w1)"
    and l: "forEachAsync (importOneAsset cfg ith cl binFiles cur) xs w1 = (Inr rest, w')"
    and rs: "rs = r @ rest"
    by (rule forEachAsync_Cons_Inr)
  from importOneAsset_Inr[OF b] obtain bf resp where one:
    "binaryFileOf binFiles a = Some bf"
    "r = [\<lparr>imported = resp, original = a, importId = Some (am_id resp),
           originalId = Some (asset_id a)\<rparr>]"
    "uploads (calls w1) = uploads (calls w) @ [uploadOf binFiles a]"
    "length (createdAssets (calls w1)) = Suc (length (createdAssets (calls w)))"
    "unsupportedFiles (events w1) = unsupportedFiles (events w)
                @ (if oversized bf \<and> onUnsupportedBinaryFile cfg then [bf] else [])"
    by blast
  note ih = Cons.IH[OF l]
  show ?case using ih one rs by simp
qed

lemma importOneAsset_step:
  assumes "importOneAsset cfg ith cl binFiles cur a w = (Inr r, w1)"
  shows "\<exists>fileId s1 q m.
           uploadBinaryFile cl (uploadOf binFiles a) (server w) = (Inr fileId, s1)
           \<and> newIds_assetModel ith (assetRequestFor a fileId) cur = Inr q
           \<and> addAsset cl q s1 = (Inr m, server w1)
           \<and> r = [assetResult (a, q, m)]
           \<and> calls w1 = calls w @ assetCalls binFiles (a, q, m)"
proof (cases "binaryFileOf binFiles a")
  case None
  with assms show ?thesis by (simp add: importOneAsset_missing)
next
  case (Some b)
  then have f: "find (\<lambda>m. asset_id (bf_asset m) = asset_id a) binFiles = Some b"
    by (simp add: binaryFileOf_def)
  show ?thesis using assms Some unfolding importOneAsset_def f
    by (auto simp: io_defs uploadOf_def oversized_def maxAllowedAssetSizeInBytes_def
        getAddAssetModel_def assetRequestFor_def assetCalls_def assetResult_def
        split: if_splits prod.splits sum.splits)
qed

lemma importAssets_created:
  assumes "forEachAsync (importOneAsset cfg ith cl binFiles cur) xs w = (Inr rs, w')"
  shows "\<exists>created. assetsCreated cl ith cur binFiles (server w) xs created (server w')
           \<and> rs = map assetResult (zip xs created)
           \<and> calls w' = calls w @ concat (map (assetCalls binFiles) (zip xs created))"
  using assms
proof (induction xs arbitrary: w rs)
  case Nil
  then show ?case by (auto intro: exI[of _ "[]"])
next
  case (Cons a xs)
  from Cons.prems obtain r w1 rest where
    b: "importOneAsset cfg ith cl binFiles cur a w = (Inr r, w1)"
    and l: "forEachAsync (importOneAsset cfg ith cl binFiles cur) xs w1 = (Inr rest, w')"
    and rs: "rs = r @ rest"
    by (rule forEachAsync_Cons_Inr)
  from importOneAsset_step[OF b] obtain fileId s1 q m where one:
    "uploadBinaryFile cl (uploadOf binFiles a) (server w) = (Inr fileId, s1)"
    "newIds_assetModel ith (assetRequestFor a fileId) cur = Inr q"
    "addAsset cl q s1 = (Inr m, server w1)"
    "r = [assetResult (a, q, m)]"
    "calls w1 = calls w @ assetCalls binFiles (a, q, m)"
    by blast
  from Cons.IH[OF l] obtain created where ih:
    "assetsCreated cl ith cur binFiles (server w1) xs created (server w')"
    "rest = map assetResult (zip xs created)"
    "calls w' = calls w1 @ concat (map (assetCalls binFiles) (zip xs created))"
    by blast
  show ?case
    by (rule exI[of _ "(q, m) # created"]) (simp add: one ih rs)
qed

text \<open>
  C7: when the asset loop returns normally, every asset had a binary file; the uploads
  issued are, asset by asset, the payload of its binary file when the file is below
  100,000,000 bytes and the empty payload when it is at or above; the unsupported-file
  callback, when configured, fired once for each asset with a file at or above the ceiling
  and for no other; and every asset, oversized or not, was created: right after its upload
  the target was asked to add the asset with its metadata and a reference to the file the
  upload answered with, and the entry returned for the asset holds the asset, its id, the
  model the target answered with and the id of that model.
\<close>

theorem oversized_assets_are_created_without_payload:
  assumes "importAssetsAsync cfg ith cl assetList binFiles currentItems w = (Inr results, w')"
  shows "(\<forall>a\<in>set assetList. binaryFileOf binFiles a \<noteq> None)
       \<and> map original results = assetList
       \<and> map originalId results = map (\<lambda>a. Some (asset_id a)) assetList
       \<and> (\<forall>r\<in>set results. importId r = Some (am_id (imported r)))
       \<and> uploads (calls w') = uploads (calls w) @ map (uploadOf binFiles) assetList
       \<and> length (createdAssets (calls w')) = length (createdAssets (calls w)) + length assetList
       \<and> unsupportedFiles (events w') = unsupportedFiles (events w)
            @ (if onUnsupportedBinaryFile cfg
               then filter oversized (map (\<lambda>a. the (binaryFileOf binFiles a)) assetList)
               else [])
       \<and> (\<exists>created.
            assetsCreated cl ith currentItems binFiles (server w) assetList created (server w')
            \<and> results = map assetResult (zip assetList created)
            \<and> calls w' = calls w @ concat (map (assetCalls binFiles) (zip assetList created)))"
  using assms importAssets_Inr[of cfg ith cl binFiles currentItems assetList w results w']
    importAssets_created[of cfg ith cl binFiles currentItems assetList w results w']
  unfolding importAssetsAsync_def by simp

lemma importAssets_missing:
  assumes "binaryFileOf binFiles a = None"
  shows "importAssetsAsync cfg ith cl (before @ a # later) binFiles currentItems w =
           (case importAssetsAsync cfg ith cl before binFiles currentItems w of
              (Inl e, w') \<Rightarrow> (Inl e, w')
            | (Inr entries, w') \<Rightarrow> (Inl (MissingBinaryFile (asset_id a)), w'))"
  unfolding importAssetsAsync_def forEachAsync_append
  by (simp add: importOneAsset_missing[OF assms] split: prod.splits sum.splits)

lemma bindIO_fails_left: "\<exists>e. fst (m w) = Inl e \<Longrightarrow> \<exists>e. fst (bindIO m f w) = Inl e"
  by (auto simp: bindIO_def split: prod.splits sum.splits)

lemma bindIO_fails_right:
  "(\<And>x v. \<exists>e. fst (f x v) = Inl e) \<Longrightarrow> \<exists>e. fst (bindIO m f w) = Inl e"
  by (auto simp: bindIO_def split: prod.splits sum.splits)

lemma stageAssets_fails:
  assumes "a \<in> set (assets (importData source))"
    and "binaryFileOf (binaryFiles source) a = None"
  shows "\<exists>e. fst (stageAssets cfg ith cl source items w) = Inl e"
proof -
  from assms(1) obtain before later where s: "assets (importData source) = before @ a # later"
    by (auto dest: split_list)
  have "\<exists>e. fst (importAssetsAsync cfg ith cl (before @ a # later) (binaryFiles source) items w)
           = Inl e"
    unfolding importAssets_missing[OF assms(2)] by (auto split: prod.splits sum.splits)
  then show ?thesis unfolding stageAssets_def s by (auto intro: bindIO_fails_left)
qed

text \<open>
  C8: an asset without a binary file of its id stops the asset loop with a fatal error
  before any call for it: the loop ends in the world the assets before it left, with
  their error if one of them failed and with the missing-file error otherwise, and
  returns no entries.
\<close>

theorem missing_binary_file_is_fatal:
  "(binaryFileOf binFiles a = None \<longrightarrow>
      importAssetsAsync cfg ith cl (before @ a # later) binFiles currentItems w =
        (case importAssetsAsync cfg ith cl before binFiles currentItems w of
           (Inl e, w') \<Rightarrow> (Inl e, w')
         | (Inr entries, w') \<Rightarrow> (Inl (MissingBinaryFile (asset_id a)), w')))
   \<and> (a \<in> set (assets (importData source)) \<and> binaryFileOf (binaryFiles source) a = None \<longrightarrow>
        (\<exists>e. fst (runStages cfg ith cl source w) = Inl e))"
proof (intro conjI impI)
  assume "binaryFileOf binFiles a = None"
  then show "importAssetsAsync cfg ith cl (before @ a # later) binFiles currentItems w =
        (case importAssetsAsync cfg ith cl before binFiles currentItems w of
           (Inl e, w') \<Rightarrow> (Inl e, w')
         | (Inr entries, w') \<Rightarrow> (Inl (MissingBinaryFile (asset_id a)), w'))"
    by (rule importAssets_missing)
next
  assume a: "a \<in> set (assets (importData source)) \<and> binaryFileOf (binaryFiles source) a = None"
  have "\<And>items v. \<exists>e. fst (stageAssets cfg ith cl source items v) = Inl e"
    using a stageAssets_fails by blast
  then show "\<exists>e. fst (runStages cfg ith cl source w) = Inl e"
    unfolding runStages_def
    by (intro bindIO_fails_right bindIO_fails_left)
qed

theorem missing_binary_file_is_fatal_witness:
  "binaryFileOf demoBinaryFiles (demoAsset ''ghost'' 1) = None
   \<and> fst (importAssetsAsync demoConfig keepIds demoClient
        ([demoAsset ''small'' 3] @ demoAsset ''ghost'' 1 # [demoAsset ''huge'' 100000000])
        demoBinaryFiles [] demoWorld) = Inl (MissingBinaryFile ''ghost'')
   \<and> uploads (calls (snd (importAssetsAsync demoConfig keepIds demoClient
        ([demoAsset ''small'' 3] @ demoAsset ''ghost'' 1 # [demoAsset ''huge'' 100000000])
        demoBinaryFiles [] demoWorld)))
       = [\<lparr>up_binaryData = [4, 5, 6], up_contentType = ''application/octet-stream'',
           up_filename = ''small.bin''\<rparr>]
   \<and> demoAsset ''small'' 3 \<in> set (assets (importData demoSourceNoFiles))
   \<and> binaryFileOf (binaryFiles demoSourceNoFiles) (demoAsset ''small'' 3) = None
   \<and> (\<exists>e. fst (runStages demoConfig keepIds demoClient demoSourceNoFiles demoWorld) = Inl e)"
proof -
  have h: "binaryFileOf demoBinaryFiles (demoAsset ''ghost'' 1) = None"
    by (simp add: binaryFileOf_def demoBinaryFiles_def demoAsset_def)
  have run: "importAssetsAsync demoConfig keepIds demoClient [demoAsset ''small'' 3]
          demoBinaryFiles [] demoWorld
        = (Inr [\<lparr>imported = \<lparr>am_id = ''new-i'', am_fileName = ''file''\<rparr>,
                  original = demoAsset ''small'' 3, importId = Some ''new-i'',
                  originalId = Some ''small''\<rparr>],
           \<lparr>server = 2,
            calls = [UploadBinaryFile \<lparr>up_binaryData = [4, 5, 6],
                        up_contentType = ''application/octet-stream'',
                        up_filename = ''small.bin''\<rparr>,
                     AddAsset \<lparr>aa_descriptions = JArr [],
                        aa_file_reference = \<lparr>fr_id = ''new-'', fr_type = ''internal''\<rparr>,
                        aa_external_id = None, aa_folder = JNull, aa_title = None\<rparr>],
            events = [OnImport ''file'' AAsset
                        (DataModel (MAsset \<lparr>am_id = ''new-i'', am_fileName = ''file''\<rparr>))]\<rparr>)"
    by (simp add: importAssetsAsync_def importOneAsset_def getAddAssetModel_def keepIds_def
        maxAllowedAssetSizeInBytes_def demoBinaryFiles_def demoAsset_def demo_defs io_defs)
  note t = missing_binary_file_is_fatal[of demoBinaryFiles "demoAsset ''ghost'' 1" demoConfig
      keepIds demoClient "[demoAsset ''small'' 3]" "[demoAsset ''huge'' 100000000]" "[]"
      demoWorld]
  note u = missing_binary_file_is_fatal[where a="demoAsset ''small'' 3"
      and source=demoSourceNoFiles and cfg=demoConfig and ith=keepIds and cl=demoClient
      and w=demoWorld, THEN conjunct2]
  from t h run
  have "importAssetsAsync demoConfig keepIds demoClient
        ([demoAsset ''small'' 3] @ demoAsset ''ghost'' 1 # [demoAsset ''huge'' 100000000])
        demoBinaryFiles [] demoWorld
      = (Inl (MissingBinaryFile (asset_id (demoAsset ''ghost'' 1))),
         snd (importAssetsAsync demoConfig keepIds demoClient [demoAsset ''small'' 3]
          demoBinaryFiles [] demoWorld))"
    by simp
  then have g1: "fst (importAssetsAsync demoConfig keepIds demoClient
        ([demoAsset ''small'' 3] @ demoAsset ''ghost'' 1 # [demoAsset ''huge'' 100000000])
        demoBinaryFiles [] demoWorld) = Inl (MissingBinaryFile ''ghost'')"
    and g2: "uploads (calls (snd (importAssetsAsync demoConfig keepIds demoClient
        ([demoAsset ''small'' 3] @ demoAsset ''ghost'' 1 # [demoAsset ''huge'' 100000000])
        demoBinaryFiles [] demoWorld)))
       = [\<lparr>up_binaryData = [4, 5, 6], up_contentType = ''application/octet-stream'',
           up_filename = ''small.bin''\<rparr>]"
    by (simp_all add: run) (simp add: demoAsset_def)
  have m1: "demoAsset ''small'' 3 \<in> set (assets (importData demoSourceNoFiles))"
    by (simp add: demoSourceNoFiles_def demoFullSource_def)
  have m2: "binaryFileOf (binaryFiles demoSourceNoFiles) (demoAsset ''small'' 3) = None"
    by (simp add: demoSourceNoFiles_def binaryFileOf_def)
  from u m1 m2
  have g3: "\<exists>e. fst (runStages demoConfig keepIds demoClient demoSourceNoFiles demoWorld) = Inl e"
    by blast
  show ?thesis using h g1 g2 m1 m2 g3 by blast
qed

lemma assetsCreated_Nil_iff:
  "assetsCreated cl ith ledger binFiles s [] created s' = (created = [] \<and> s' = s)"
  by (cases created) auto

lemma assetsCreated_Cons_iff:
  "assetsCreated cl ith ledger binFiles s (a # as) created s' =
     (\<exists>fileId s1 q m s2 rest.
        created = (q, m) # rest
        \<and> uploadBinaryFile cl (uploadOf binFiles a) s = (Inr fileId, s1)
        \<and> newIds_assetModel ith (assetRequestFor a fileId) ledger = Inr q
        \<and> addAsset cl q s1 = (Inr m, s2)
        \<and> assetsCreated cl ith ledger binFiles s2 as rest s')"
  by (cases created) (auto split: prod.splits sum.splits)

text \<open>Two assets, the second at the ceiling: the payloads uploaded, the notification, and
  the requests, the models and the ids of the two assets created.\<close>

theorem oversized_assets_are_created_without_payload_witness:
  "(\<exists>r. fst (importAssetsAsync demoConfig keepIds demoClient
        [demoAsset ''small'' 3, demoAsset ''huge'' 100000000] demoBinaryFiles [] demoWorld) = Inr r)
   \<and> uploads (calls (snd (importAssetsAsync demoConfig keepIds demoClient
        [demoAsset ''small'' 3, demoAsset ''huge'' 100000000] demoBinaryFiles [] demoWorld)))
       = [\<lparr>up_binaryData = [4, 5, 6], up_contentType = ''application/octet-stream'',
           up_filename = ''small.bin''\<rparr>,
          \<lparr>up_binaryData = [], up_contentType = ''application/octet-stream'',
           up_filename = ''huge.bin''\<rparr>]
   \<and> unsupportedFiles (events (snd (importAssetsAsync demoConfig keepIds demoClient
        [demoAsset ''small'' 3, demoAsset ''huge'' 100000000] demoBinaryFiles [] demoWorld)))
       = [\<lparr>bf_asset = demoAsset ''huge'' 100000000, bf_binaryData = [7, 7]\<rparr>]
   \<and> map originalId (projr (fst (importAssetsAsync demoConfig keepIds demoClient
        [demoAsset ''small'' 3, demoAsset ''huge'' 100000000] demoBinaryFiles [] demoWorld)))
       = [Some ''small'', Some ''huge'']
   \<and> map importId (projr (fst (importAssetsAsync demoConfig keepIds demoClient
        [demoAsset ''small'' 3, demoAsset ''huge'' 100000000] demoBinaryFiles [] demoWorld)))
       = [Some ''new-i'', Some ''new-iii'']
   \<and> map imported (projr (fst (importAssetsAsync demoConfig keepIds demoClient
        [demoAsset ''small'' 3, demoAsset ''huge'' 100000000] demoBinaryFiles [] demoWorld)))
       = [\<lparr>am_id = ''new-i'', am_fileName = ''file''\<rparr>,
          \<lparr>am_id = ''new-iii'', am_fileName = ''file''\<rparr>]
   \<and> createdAssets (calls (snd (importAssetsAsync demoConfig keepIds demoClient
        [demoAsset ''small'' 3, demoAsset ''huge'' 100000000] demoBinaryFiles [] demoWorld)))
       = [\<lparr>aa_descriptions = JArr [],
           aa_file_reference = \<lparr>fr_id = ''new-'', fr_type = ''internal''\<rparr>,
           aa_external_id = None, aa_folder = JNull, aa_title = None\<rparr>,
          \<lparr>aa_descriptions = JArr [],
           aa_file_reference = \<lparr>fr_id = ''new-ii'', fr_type = ''internal''\<rparr>,
           aa_external_id = None, aa_folder = JNull, aa_title = None\<rparr>]"
proof -
  let ?run = "importAssetsAsync demoConfig keepIds demoClient
        [demoAsset ''small'' 3, demoAsset ''huge'' 100000000] demoBinaryFiles [] demoWorld"
  have ok: "\<exists>r. fst ?run = Inr r"
    by (simp add: importAssetsAsync_def importOneAsset_def getAddAssetModel_def keepIds_def
        maxAllowedAssetSizeInBytes_def demoBinaryFiles_def demoAsset_def demo_defs io_defs)
  then have run: "?run = (Inr (projr (fst ?run)), snd ?run)"
    by (metis prod.collapse sum.sel(2))
  have b1: "binaryFileOf demoBinaryFiles (demoAsset ''small'' 3)
      = Some \<lparr>bf_asset = demoAsset ''small'' 3, bf_binaryData = [4, 5, 6]\<rparr>"
    by (simp add: binaryFileOf_def demoBinaryFiles_def demoAsset_def)
  have b2: "binaryFileOf demoBinaryFiles (demoAsset ''huge'' 100000000)
      = Some \<lparr>bf_asset = demoAsset ''huge'' 100000000, bf_binaryData = [7, 7]\<rparr>"
    by (simp add: binaryFileOf_def demoBinaryFiles_def demoAsset_def)
  have o1: "\<not> oversized \<lparr>bf_asset = demoAsset ''small'' 3, bf_binaryData = [4, 5, 6]\<rparr>"
    by (simp add: oversized_def demoAsset_def)
  have o2: "oversized \<lparr>bf_asset = demoAsset ''huge'' 100000000, bf_binaryData = [7, 7]\<rparr>"
    by (simp add: oversized_def demoAsset_def)
  have c: "onUnsupportedBinaryFile demoConfig" "calls demoWorld = []" "events demoWorld = []"
    "server demoWorld = 0"
    by (simp_all add: demoConfig_def demoWorld_def)
  have u1: "uploadOf demoBinaryFiles (demoAsset ''small'' 3)
      = \<lparr>up_binaryData = [4, 5, 6], up_contentType = ''application/octet-stream'',
           up_filename = ''small.bin''\<rparr>"
    by (simp add: uploadOf_def oversized_def binaryFileOf_def demoBinaryFiles_def demoAsset_def)
  have u2: "uploadOf demoBinaryFiles (demoAsset ''huge'' 100000000)
      = \<lparr>up_binaryData = [], up_contentType = ''application/octet-stream'',
           up_filename = ''huge.bin''\<rparr>"
    by (simp add: uploadOf_def oversized_def binaryFileOf_def demoBinaryFiles_def demoAsset_def)
  have i: "asset_id (demoAsset ''small'' 3) = ''small''"
    "asset_id (demoAsset ''huge'' 100000000) = ''huge''"
    by (simp_all add: demoAsset_def)
  have q: "\<And>n f. assetRequestFor (demoAsset n 3) f
      = \<lparr>aa_descriptions = JArr [],
           aa_file_reference = \<lparr>fr_id = f, fr_type = ''internal''\<rparr>,
           aa_external_id = None, aa_folder = JNull, aa_title = None\<rparr>"
    "\<And>n f. assetRequestFor (demoAsset n 100000000) f
      = \<lparr>aa_descriptions = JArr [],
           aa_file_reference = \<lparr>fr_id = f, fr_type = ''internal''\<rparr>,
           aa_external_id = None, aa_folder = JNull, aa_title = None\<rparr>"
    by (simp_all add: assetRequestFor_def demoAsset_def)
  note t = oversized_assets_are_created_without_payload[OF run]
  from t obtain created where cr:
    "assetsCreated demoClient keepIds [] demoBinaryFiles (server demoWorld)
       [demoAsset ''small'' 3, demoAsset ''huge'' 100000000] created (server (snd ?run))"
    "projr (fst ?run)
       = map assetResult (zip [demoAsset ''small'' 3, demoAsset ''huge'' 100000000] created)"
    "calls (snd ?run) = calls demoWorld
       @ concat (map (assetCalls demoBinaryFiles)
           (zip [demoAsset ''small'' 3, demoAsset ''huge'' 100000000] created))"
    by (elim conjE exE)
  from cr(1) have created: "created =
      [(\<lparr>aa_descriptions = JArr [],
           aa_file_reference = \<lparr>fr_id = ''new-'', fr_type = ''internal''\<rparr>,
           aa_external_id = None, aa_folder = JNull, aa_title = None\<rparr>,
        \<lparr>am_id = ''new-i'', am_fileName = ''file''\<rparr>),
       (\<lparr>aa_descriptions = JArr [],
           aa_file_reference = \<lparr>fr_id = ''new-ii'', fr_type = ''internal''\<rparr>,
           aa_external_id = None, aa_folder = JNull, aa_title = None\<rparr>,
        \<lparr>am_id = ''new-iii'', am_fileName = ''file''\<rparr>)]"
    by (auto simp: assetsCreated_Cons_iff assetsCreated_Nil_iff demoClient_def keepIds_def
        freshId_def c q)
  have g5: "map importId (projr (fst ?run)) = [Some ''new-i'', Some ''new-iii'']"
    unfolding cr(2) created by (simp add: assetResult_def)
  have g6: "map imported (projr (fst ?run))
       = [\<lparr>am_id = ''new-i'', am_fileName = ''file''\<rparr>,
          \<lparr>am_id = ''new-iii'', am_fileName = ''file''\<rparr>]"
    unfolding cr(2) created by (simp add: assetResult_def)
  have g7: "createdAssets (calls (snd ?run))
       = [\<lparr>aa_descriptions = JArr [],
           aa_file_reference = \<lparr>fr_id = ''new-'', fr_type = ''internal''\<rparr>,
           aa_external_id = None, aa_folder = JNull, aa_title = None\<rparr>,
          \<lparr>aa_descriptions = JArr [],
           aa_file_reference = \<lparr>fr_id = ''new-ii'', fr_type = ''internal''\<rparr>,
           aa_external_id = None, aa_folder = JNull, aa_title = None\<rparr>]"
    unfolding cr(3) created by (simp add: assetCalls_def c)
  from t ok have "uploads (calls (snd ?run))
       = [\<lparr>up_binaryData = [4, 5, 6], up_contentType = ''application/octet-stream'',
           up_filename = ''small.bin''\<rparr>,
          \<lparr>up_binaryData = [], up_contentType = ''application/octet-stream'',
           up_filename = ''huge.bin''\<rparr>]
   \<and> unsupportedFiles (events (snd ?run))
       = [\<lparr>bf_asset = demoAsset ''huge'' 100000000, bf_binaryData = [7, 7]\<rparr>]
   \<and> map originalId (projr (fst ?run)) = [Some ''small'', Some ''huge'']"
    by (simp add: b1 b2 o1 o2 c u1 u2 i)
  with ok g5 g6 g7 show ?thesis by simp
qed

subsection \<open>Asset folders\<close>

lemma bindIO_Inr: "m w = (Inr x, w') \<Longrightarrow> bindIO m f w = f x w'"
  by (simp add: bindIO_def)

lemma bindIO_Inl: "m w = (Inl e, w') \<Longrightarrow> bindIO m f w = (Inl e, w')"
  by (simp add: bindIO_def)

lemma setExternalIdForFolders_Cons:
  "setExternalIdForFolders (AssetFolderContract i n e sub # rest) =
     AssetFolderContract i n (Some i) (setExternalIdForFolders sub) # setExternalIdForFolders rest"
  by (cases sub) auto

lemma flattenAssetFolderContracts_Cons:
  "flattenAssetFolderContracts (AssetFolderContract i n e sub # rest) =
     AssetFolderContract i n e sub # flattenAssetFolderContracts sub
       @ flattenAssetFolderContracts rest"
  by (cases sub) auto

lemma flattenAssetFolders_Cons:
  "flattenAssetFolders (AssetFolder i n x sub # rest) originalItems =
     (case find (\<lambda>m. folder_external_id m = x) originalItems of
        None \<Rightarrow> Inl (OriginalFolderNotFound x n)
      | Some originalFolder \<Rightarrow>
          (case flattenAssetFolders sub originalItems of
             Inl e \<Rightarrow> Inl e
           | Inr below \<Rightarrow>
               (case flattenAssetFolders rest originalItems of
                  Inl e \<Rightarrow> Inl e
                | Inr others \<Rightarrow>
                    Inr (\<lparr>imported = AssetFolder i n x sub, original = originalFolder,
                          importId = Some i, originalId = Some (folder_id originalFolder)\<rparr>
                         # below @ others))))"
  by (cases sub) (auto split: option.splits sum.splits)

lemma folders_induct [case_names Nil Cons]:
  assumes "P []"
    and "\<And>i n e sub rest. P sub \<Longrightarrow> P rest \<Longrightarrow> P (AssetFolderContract i n e sub # rest)"
  shows "P fs"
proof (induction fs rule: setExternalIdForFolders.induct)
  case 1
  show ?case by (rule assms(1))
next
  case (2 i n e sub rest)
  have "P sub" by (cases "sub = []") (simp_all add: assms(1) "2.IH"(1))
  then show ?case using "2.IH"(2) by (rule assms(2))
qed

lemma some_ids:
  assumes "map folder_id xs = map folder_id ys"
  shows "map (\<lambda>f. Some (folder_id f)) xs = map (\<lambda>f. Some (folder_id f)) ys"
  using arg_cong[OF assms, of "map Some"] by (simp add: comp_def)

lemma flattenAssetFolderContracts_append:
  "flattenAssetFolderContracts (xs @ ys)
     = flattenAssetFolderContracts xs @ flattenAssetFolderContracts ys"
  by (induction xs rule: folders_induct)
     (simp_all add: flattenAssetFolderContracts_Cons del: flattenAssetFolderContracts.simps(2))

lemma external_ids_set:
  "f \<in> set (flattenAssetFolderContracts (setExternalIdForFolders fs))
     \<Longrightarrow> folder_external_id f = Some (folder_id f)"
  by (induction fs arbitrary: f rule: folders_induct)
     (auto simp: setExternalIdForFolders_Cons flattenAssetFolderContracts_Cons
        simp del: setExternalIdForFolders.simps(2) flattenAssetFolderContracts.simps(2))

lemma folder_ids_kept:
  "map folder_id (flattenAssetFolderContracts (setExternalIdForFolders fs))
     = map folder_id (flattenAssetFolderContracts fs)"
  by (induction fs rule: folders_induct)
     (auto simp: setExternalIdForFolders_Cons flattenAssetFolderContracts_Cons
        simp del: setExternalIdForFolders.simps(2) flattenAssetFolderContracts.simps(2))

lemma request_external_ids:
  "map af_external_id (flattenFolderData (map mapAssetFolder fs))
     = map folder_external_id (flattenAssetFolderContracts fs)"
  by (induction fs rule: folders_induct)
     (auto simp: flattenAssetFolderContracts_Cons simp del: flattenAssetFolderContracts.simps(2))

lemma find_distinct_key:
  assumes "distinct (map k xs)" and "x \<in> set xs"
  shows "find (\<lambda>m. k m = k x) xs = Some x"
  using assms
proof (induction xs)
  case Nil
  then show ?case by simp
next
  case (Cons y ys)
  then show ?case by (cases "y = x") (auto simp: image_iff)
qed

lemma flatten_unmatched:
  assumes "r \<in> set (flattenFolderModels resp)"
    and "afm_externalId r \<notin> folder_external_id ` set originalItems"
  shows "\<exists>e. flattenAssetFolders resp originalItems = Inl e"
  using assms
proof (induction resp rule: flattenFolderModels.induct)
  case 1
  then show ?case by simp
next
  case (2 i n x sub rest)
  show ?case
  proof (cases "find (\<lambda>m. folder_external_id m = x) originalItems")
    case None
    then show ?thesis unfolding flattenAssetFolders_Cons by simp
  next
    case (Some c)
    then have "r \<noteq> AssetFolder i n x sub"
      using "2.prems"(2) by (auto simp: find_Some_iff image_iff)
    with "2.prems"(1) have "r \<in> set (flattenFolderModels sub) \<or> r \<in> set (flattenFolderModels rest)"
      by auto
    then show ?thesis
      unfolding flattenAssetFolders_Cons
      using "2.IH" "2.prems"(2) by (auto split: option.splits sum.splits)
  qed
qed

lemma notify_folders:
  "\<exists>w'. forEachAsync
           (\<lambda>flattenedFolder. bindIO
              (processItem cfg (afm_name (imported flattenedFolder)) AAssetFolder
                 (DataModel (MAssetFolder (imported flattenedFolder))))
              (\<lambda>_. returnIO [flattenedFolder])) xs w = (Inr xs, w')
        \<and> calls w' = calls w \<and> server w' = server w"
proof (induction xs arbitrary: w)
  case Nil
  then show ?case by simp
next
  case (Cons x xs)
  obtain w1 where w1: "processItem cfg (afm_name (imported x)) AAssetFolder
      (DataModel (MAssetFolder (imported x))) w = (Inr (), w1)" "calls w1 = calls w"
      "server w1 = server w"
    using processItem_eq by blast
  from Cons.IH[of w1] w1 show ?case by (auto simp: bindIO_def returnIO_def)
qed

lemma flatten_entries:
  "flattenAssetFolders resp originalItems = Inr entries \<Longrightarrow>
     map imported entries = flattenFolderModels resp
     \<and> (\<forall>e\<in>set entries.
           find (\<lambda>m. folder_external_id m = afm_externalId (imported e)) originalItems
             = Some (original e)
           \<and> importId e = Some (afm_id (imported e))
           \<and> originalId e = Some (folder_id (original e)))"
proof (induction resp arbitrary: entries rule: flattenFolderModels.induct)
  case 1
  then show ?case by simp
next
  case (2 i n x sub rest)
  from "2.prems" show ?case
    unfolding flattenAssetFolders_Cons
    by (auto split: option.splits sum.splits dest!: "2.IH")
qed

lemma flatten_matched:
  assumes "\<forall>r\<in>set (flattenFolderModels resp).
             afm_externalId r \<in> folder_external_id ` set originalItems"
  shows "\<exists>entries. flattenAssetFolders resp originalItems = Inr entries"
  using assms
proof (induction resp rule: flattenFolderModels.induct)
  case 1
  then show ?case by simp
next
  case (2 i n x sub rest)
  from "2.prems" have "x \<in> folder_external_id ` set originalItems" by simp
  then obtain c where c: "find (\<lambda>m. folder_external_id m = x) originalItems = Some c"
    by (cases "find (\<lambda>m. folder_external_id m = x) originalItems")
       (auto simp: find_None_iff)
  from "2.prems" "2.IH" obtain below others where
    "flattenAssetFolders sub originalItems = Inr below"
    "flattenAssetFolders rest originalItems = Inr others"
    by auto
  then show ?case unfolding flattenAssetFolders_Cons c by simp
qed

lemma importAssetFoldersAsync_answer:
  assumes "addAssetFolders cl (map mapAssetFolder (setExternalIdForFolders fs)) (server w)
             = (Inr resp, s')"
  shows "fst (importAssetFoldersAsync cfg cl fs w)
           = flattenAssetFolders resp (flattenAssetFolderContracts (setExternalIdForFolders fs))"
proof -
  obtain w1 where w1: "request (AddAssetFolders (map mapAssetFolder (setExternalIdForFolders fs)))
      (addAssetFolders cl (map mapAssetFolder (setExternalIdForFolders fs))) w = (Inr resp, w1)"
    using assms by (simp add: request_def)
  show ?thesis
  proof (cases "flattenAssetFolders resp (flattenAssetFolderContracts (setExternalIdForFolders fs))")
    case (Inl e)
    show ?thesis
      unfolding importAssetFoldersAsync_def Let_def bindIO_Inr[where m="request (AddAssetFolders (map mapAssetFolder (setExternalIdForFolders fs)))
      (addAssetFolders cl (map mapAssetFolder (setExternalIdForFolders fs)))" and w=w, OF w1]
      by (simp add: Inl throwIO_def)
  next
    case (Inr entries)
    show ?thesis
      unfolding importAssetFoldersAsync_def Let_def bindIO_Inr[where m="request (AddAssetFolders (map mapAssetFolder (setExternalIdForFolders fs)))
      (addAssetFolders cl (map mapAssetFolder (setExternalIdForFolders fs)))" and w=w, OF w1]
      using notify_folders[of cfg entries w1] by (auto simp: Inr)
  qed
qed

lemma originals_distinct:
  assumes "distinct (map folder_id (flattenAssetFolderContracts fs))"
  shows "distinct (map folder_external_id
           (flattenAssetFolderContracts (setExternalIdForFolders fs)))"
proof -
  let ?orig = "flattenAssetFolderContracts (setExternalIdForFolders fs)"
  have e: "map folder_external_id ?orig = map (\<lambda>f. Some (folder_id f)) ?orig"
    by (simp add: external_ids_set)
  have "distinct (map folder_id ?orig)" using assms by (simp add: folder_ids_kept)
  then have "distinct (map (\<lambda>f. Some (folder_id f)) ?orig)"
    by (simp add: distinct_map inj_on_def)
  then show ?thesis by (simp only: e)
qed

lemma one_entry_per_original:
  assumes d: "distinct (map k originalItems)"
    and r: "distinct (map x models)"
    and s: "x ` set models = k ` set originalItems"
    and m: "map imported entries = models"
    and e: "\<forall>e\<in>set entries. original e \<in> set originalItems \<and> k (original e) = x (imported e)"
  shows "distinct (map original entries) \<and> set (map original entries) = set originalItems
       \<and> length entries = length originalItems"
proof -
  have km: "map (\<lambda>e. k (original e)) entries = map x models"
    using e m by (auto simp: map_eq_conv[symmetric] comp_def)
  then have "distinct (map k (map original entries))" using r by (simp add: comp_def)
  then have d1: "distinct (map original entries)" unfolding distinct_map[of k] by simp
  have inj: "inj_on k (set originalItems)" using d by (simp add: distinct_map)
  have sub: "set (map original entries) \<subseteq> set originalItems" using e by auto
  have sup: "set originalItems \<subseteq> set (map original entries)"
  proof
    fix c assume c: "c \<in> set originalItems"
    then have "k c \<in> x ` set models" using s by auto
    then have "k c \<in> set (map (\<lambda>e. k (original e)) entries)" unfolding km by simp
    then obtain en where en: "en \<in> set entries" "k (original en) = k c" by auto
    with e have "original en \<in> set originalItems" by simp
    with inj c en(2) have "original en = c" by (auto dest: inj_onD)
    with en(1) show "c \<in> set (map original entries)" by auto
  qed
  have eq: "set (map original entries) = set originalItems" using sub sup by (rule equalityI)
  have "distinct originalItems" using d by (simp add: distinct_map)
  with d1 eq have "length (map original entries) = length originalItems"
    by (metis distinct_card)
  with d1 eq show ?thesis by simp
qed

text \<open>
  C6: for every asset-folder tree, (1) after \<^verbatim>\<open>setExternalIdForFolders\<close> every node,
  at any depth, carries its own id as external id, and the submitted tree carries these
  external ids node by node; (2) whatever the shape and the order of the response, when
  each of its folders carries the external id of an original node, the importer returns one
  entry per response folder, in the pre-order of the response, and every entry pairs the
  response folder and its new id with an original node of the same external id and its id
  (which is that external id); when moreover the ids of the tree are distinct and the
  external ids of the response are distinct and are exactly those of the original nodes,
  the entries hold every original node exactly once; (3) a response folder whose external
  id is the external id of no original node makes the importer throw.
\<close>

theorem asset_folder_round_trip:
  "(\<forall>f\<in>set (flattenAssetFolderContracts (setExternalIdForFolders fs)).
       folder_external_id f = Some (folder_id f))
   \<and> map af_external_id (flattenFolderData (map mapAssetFolder (setExternalIdForFolders fs)))
       = map (\<lambda>f. Some (folder_id f)) (flattenAssetFolderContracts fs)
   \<and> (addAssetFolders cl (map mapAssetFolder (setExternalIdForFolders fs)) (server w)
            = (Inr resp, s')
        \<and> (\<forall>r\<in>set (flattenFolderModels resp).
              afm_externalId r \<in> folder_external_id `
                 set (flattenAssetFolderContracts (setExternalIdForFolders fs)))
      \<longrightarrow> (\<exists>entries. fst (importAssetFoldersAsync cfg cl fs w) = Inr entries
             \<and> map imported entries = flattenFolderModels resp
             \<and> (\<forall>e\<in>set entries.
                   original e \<in> set (flattenAssetFolderContracts (setExternalIdForFolders fs))
                   \<and> folder_external_id (original e) = afm_externalId (imported e)
                   \<and> originalId e = Some (folder_id (original e))
                   \<and> originalId e = afm_externalId (imported e)
                   \<and> importId e = Some (afm_id (imported e)))
             \<and> (distinct (map folder_id (flattenAssetFolderContracts fs))
                  \<and> distinct (map afm_externalId (flattenFolderModels resp))
                  \<and> afm_externalId ` set (flattenFolderModels resp)
                      = folder_external_id `
                          set (flattenAssetFolderContracts (setExternalIdForFolders fs))
                \<longrightarrow> distinct (map original entries)
                    \<and> set (map original entries)
                        = set (flattenAssetFolderContracts (setExternalIdForFolders fs))
                    \<and> length entries = length (flattenAssetFolderContracts fs))))
   \<and> (addAssetFolders cl (map mapAssetFolder (setExternalIdForFolders fs)) (server w)
            = (Inr resp, s')
        \<and> (\<exists>r\<in>set (flattenFolderModels resp).
              afm_externalId r \<notin> folder_external_id `
                 set (flattenAssetFolderContracts (setExternalIdForFolders fs)))
      \<longrightarrow> (\<exists>e. fst (importAssetFoldersAsync cfg cl fs w) = Inl e))"
proof (intro conjI)
  show "\<forall>f\<in>set (flattenAssetFolderContracts (setExternalIdForFolders fs)).
       folder_external_id f = Some (folder_id f)"
    by (simp add: external_ids_set)
next
  have "map folder_external_id (flattenAssetFolderContracts (setExternalIdForFolders fs))
      = map (\<lambda>f. Some (folder_id f)) (flattenAssetFolderContracts (setExternalIdForFolders fs))"
    by (simp add: external_ids_set)
  also have "\<dots> = map (\<lambda>f. Some (folder_id f)) (flattenAssetFolderContracts fs)"
    by (rule some_ids[OF folder_ids_kept])
  finally show "map af_external_id (flattenFolderData (map mapAssetFolder (setExternalIdForFolders fs)))
       = map (\<lambda>f. Some (folder_id f)) (flattenAssetFolderContracts fs)"
    by (simp add: request_external_ids)
next
  let ?orig = "flattenAssetFolderContracts (setExternalIdForFolders fs)"
  show "addAssetFolders cl (map mapAssetFolder (setExternalIdForFolders fs)) (server w)
            = (Inr resp, s')
        \<and> (\<forall>r\<in>set (flattenFolderModels resp).
              afm_externalId r \<in> folder_external_id ` set ?orig)
      \<longrightarrow> (\<exists>entries. fst (importAssetFoldersAsync cfg cl fs w) = Inr entries
             \<and> map imported entries = flattenFolderModels resp
             \<and> (\<forall>e\<in>set entries.
                   original e \<in> set ?orig
                   \<and> folder_external_id (original e) = afm_externalId (imported e)
                   \<and> originalId e = Some (folder_id (original e))
                   \<and> originalId e = afm_externalId (imported e)
                   \<and> importId e = Some (afm_id (imported e)))
             \<and> (distinct (map folder_id (flattenAssetFolderContracts fs))
                  \<and> distinct (map afm_externalId (flattenFolderModels resp))
                  \<and> afm_externalId ` set (flattenFolderModels resp)
                      = folder_external_id ` set ?orig
                \<longrightarrow> distinct (map original entries)
                    \<and> set (map original entries) = set ?orig
                    \<and> length entries = length (flattenAssetFolderContracts fs)))"
  proof
    assume a: "addAssetFolders cl (map mapAssetFolder (setExternalIdForFolders fs)) (server w)
            = (Inr resp, s')
        \<and> (\<forall>r\<in>set (flattenFolderModels resp).
              afm_externalId r \<in> folder_external_id ` set ?orig)"
    then obtain entries where f: "flattenAssetFolders resp ?orig = Inr entries"
      using flatten_matched by blast
    from a have run: "fst (importAssetFoldersAsync cfg cl fs w) = Inr entries"
      by (simp add: importAssetFoldersAsync_answer f)
    note en = flatten_entries[OF f]
    have per: "\<forall>e\<in>set entries.
                   original e \<in> set ?orig
                   \<and> folder_external_id (original e) = afm_externalId (imported e)
                   \<and> originalId e = Some (folder_id (original e))
                   \<and> originalId e = afm_externalId (imported e)
                   \<and> importId e = Some (afm_id (imported e))"
    proof
      fix e assume e: "e \<in> set entries"
      with en have fnd: "find (\<lambda>m. folder_external_id m = afm_externalId (imported e)) ?orig
             = Some (original e)"
        and ids: "importId e = Some (afm_id (imported e))"
          "originalId e = Some (folder_id (original e))"
        by auto
      from fnd have mem: "original e \<in> set ?orig"
        and x: "folder_external_id (original e) = afm_externalId (imported e)"
        by (auto simp: find_Some_iff)
      from mem have "folder_external_id (original e) = Some (folder_id (original e))"
        by (rule external_ids_set)
      with mem x ids show "original e \<in> set ?orig
                   \<and> folder_external_id (original e) = afm_externalId (imported e)
                   \<and> originalId e = Some (folder_id (original e))
                   \<and> originalId e = afm_externalId (imported e)
                   \<and> importId e = Some (afm_id (imported e))"
        by simp
    qed
    have one: "distinct (map folder_id (flattenAssetFolderContracts fs))
                  \<and> distinct (map afm_externalId (flattenFolderModels resp))
                  \<and> afm_externalId ` set (flattenFolderModels resp)
                      = folder_external_id ` set ?orig
                \<longrightarrow> distinct (map original entries)
                    \<and> set (map original entries) = set ?orig
                    \<and> length entries = length (flattenAssetFolderContracts fs)"
    proof
      assume h: "distinct (map folder_id (flattenAssetFolderContracts fs))
                  \<and> distinct (map afm_externalId (flattenFolderModels resp))
                  \<and> afm_externalId ` set (flattenFolderModels resp)
                      = folder_external_id ` set ?orig"
      have l: "length ?orig = length (flattenAssetFolderContracts fs)"
        using arg_cong[OF folder_ids_kept[of fs], of length] by simp
      from h have d: "distinct (map folder_external_id ?orig)" by (simp add: originals_distinct)
      from one_entry_per_original[OF d _ _ conjunct1[OF en], of afm_externalId] h per
      show "distinct (map original entries)
                    \<and> set (map original entries) = set ?orig
                    \<and> length entries = length (flattenAssetFolderContracts fs)"
        by (simp add: l)
    qed
    from run en per one
    show "\<exists>entries. fst (importAssetFoldersAsync cfg cl fs w) = Inr entries
             \<and> map imported entries = flattenFolderModels resp
             \<and> (\<forall>e\<in>set entries.
                   original e \<in> set ?orig
                   \<and> folder_external_id (original e) = afm_externalId (imported e)
                   \<and> originalId e = Some (folder_id (original e))
                   \<and> originalId e = afm_externalId (imported e)
                   \<and> importId e = Some (afm_id (imported e)))
             \<and> (distinct (map folder_id (flattenAssetFolderContracts fs))
                  \<and> distinct (map afm_externalId (flattenFolderModels resp))
                  \<and> afm_externalId ` set (flattenFolderModels resp)
                      = folder_external_id ` set ?orig
                \<longrightarrow> distinct (map original entries)
                    \<and> set (map original entries) = set ?orig
                    \<and> length entries = length (flattenAssetFolderContracts fs))"
      by blast
  qed
next
  let ?orig = "flattenAssetFolderContracts (setExternalIdForFolders fs)"
  show "addAssetFolders cl (map mapAssetFolder (setExternalIdForFolders fs)) (server w)
            = (Inr resp, s')
        \<and> (\<exists>r\<in>set (flattenFolderModels resp).
              afm_externalId r \<notin> folder_external_id ` set ?orig)
      \<longrightarrow> (\<exists>e. fst (importAssetFoldersAsync cfg cl fs w) = Inl e)"
  proof
    assume a: "addAssetFolders cl (map mapAssetFolder (setExternalIdForFolders fs)) (server w)
            = (Inr resp, s')
        \<and> (\<exists>r\<in>set (flattenFolderModels resp).
              afm_externalId r \<notin> folder_external_id ` set ?orig)"
    then obtain e where e: "flattenAssetFolders resp ?orig = Inl e"
      using flatten_unmatched by blast
    from a show "\<exists>e. fst (importAssetFoldersAsync cfg cl fs w) = Inl e"
      by (simp add: importAssetFoldersAsync_answer e)
  qed
qed

text \<open>A response that lists the top-level folders in reverse order: the entries follow the
  response and pair each new id with the original id of the same external id, not with the
  original at the same position; and a response with a folder nobody submitted.\<close>

theorem asset_folder_round_trip_witness:
  "map afm_externalId (flattenFolderModels
        (rev (map echoFolder (map mapAssetFolder (setExternalIdForFolders demoFolders)))))
       = [Some ''f4'', Some ''f1'', Some ''f2'', Some ''f3'']
   \<and> map originalId (projr (fst (importAssetFoldersAsync demoConfig reorderingClient demoFolders
          demoWorld)))
       = [Some ''f4'', Some ''f1'', Some ''f2'', Some ''f3'']
   \<and> map importId (projr (fst (importAssetFoldersAsync demoConfig reorderingClient demoFolders
          demoWorld)))
       = [Some ''new-videos'', Some ''new-images'', Some ''new-icons'', Some ''new-small'']
   \<and> distinct (map original (projr (fst (importAssetFoldersAsync demoConfig reorderingClient
          demoFolders demoWorld))))
   \<and> length (projr (fst (importAssetFoldersAsync demoConfig reorderingClient demoFolders
          demoWorld))) = 4
   \<and> (\<exists>e. fst (importAssetFoldersAsync demoConfig strayFolderClient demoFolders demoWorld)
          = Inl e)"
proof -
  let ?req = "map mapAssetFolder (setExternalIdForFolders demoFolders)"
  let ?resp = "rev (map echoFolder ?req)"
  let ?stray = "[AssetFolder ''n9'' ''legacy'' (Some ''f9'') []]"
  have x: "map afm_externalId (flattenFolderModels ?resp)
       = [Some ''f4'', Some ''f1'', Some ''f2'', Some ''f3'']"
    by (simp add: demoFolders_def)
  have n: "map (\<lambda>m. Some (afm_id m)) (flattenFolderModels ?resp)
       = [Some ''new-videos'', Some ''new-images'', Some ''new-icons'', Some ''new-small'']"
    by (simp add: demoFolders_def)
  have h1: "distinct (map folder_id (flattenAssetFolderContracts demoFolders))"
    by (simp add: demoFolders_def)
  have h2: "addAssetFolders reorderingClient ?req (server demoWorld) = (Inr ?resp, 0)"
    by (simp add: reorderingClient_def demoClient_def demoWorld_def)
  have h3: "\<forall>r\<in>set (flattenFolderModels ?resp).
              afm_externalId r \<in> folder_external_id `
                 set (flattenAssetFolderContracts (setExternalIdForFolders demoFolders))"
    by (simp add: demoFolders_def)
  have h4: "distinct (map afm_externalId (flattenFolderModels ?resp))"
    unfolding x by simp
  have h5: "afm_externalId ` set (flattenFolderModels ?resp)
      = folder_external_id `
          set (flattenAssetFolderContracts (setExternalIdForFolders demoFolders))"
    by (simp add: demoFolders_def) blast
  have h6: "addAssetFolders strayFolderClient ?req (server demoWorld) = (Inr ?stray, 0)"
    by (simp add: strayFolderClient_def demoClient_def demoWorld_def)
  have h7: "\<exists>r\<in>set (flattenFolderModels ?stray).
              afm_externalId r \<notin> folder_external_id `
                 set (flattenAssetFolderContracts (setExternalIdForFolders demoFolders))"
    by (simp add: demoFolders_def)
  note t = asset_folder_round_trip[of demoFolders reorderingClient demoWorld ?resp 0 demoConfig]
  note u = asset_folder_round_trip[of demoFolders strayFolderClient demoWorld ?stray 0 demoConfig]
  note t3 = t[THEN conjunct2, THEN conjunct2, THEN conjunct1, THEN mp, OF conjI[OF h2 h3]]
  from t3 obtain entries where en:
    "fst (importAssetFoldersAsync demoConfig reorderingClient demoFolders demoWorld) = Inr entries"
    "map imported entries = flattenFolderModels ?resp"
    "\<forall>e\<in>set entries.
        original e \<in> set (flattenAssetFolderContracts (setExternalIdForFolders demoFolders))
        \<and> folder_external_id (original e) = afm_externalId (imported e)
        \<and> originalId e = Some (folder_id (original e))
        \<and> originalId e = afm_externalId (imported e)
        \<and> importId e = Some (afm_id (imported e))"
    and one: "distinct (map folder_id (flattenAssetFolderContracts demoFolders))
        \<and> distinct (map afm_externalId (flattenFolderModels ?resp))
        \<and> afm_externalId ` set (flattenFolderModels ?resp)
            = folder_external_id `
                set (flattenAssetFolderContracts (setExternalIdForFolders demoFolders))
      \<longrightarrow> distinct (map original entries)
          \<and> set (map original entries)
              = set (flattenAssetFolderContracts (setExternalIdForFolders demoFolders))
          \<and> length entries = length (flattenAssetFolderContracts demoFolders)"
    by (elim exE conjE)
  from one[THEN mp, OF conjI[OF h1 conjI[OF h4 h5]]]
  have d: "distinct (map original entries)"
    and l: "length entries = length (flattenAssetFolderContracts demoFolders)"
    by simp_all
  have "map originalId entries = map afm_externalId (map imported entries)"
    using en(3) by auto
  then have g1: "map originalId entries = [Some ''f4'', Some ''f1'', Some ''f2'', Some ''f3'']"
    unfolding en(2) x .
  have "map importId entries = map (\<lambda>m. Some (afm_id m)) (map imported entries)"
    using en(3) by auto
  then have g2: "map importId entries
       = [Some ''new-videos'', Some ''new-images'', Some ''new-icons'', Some ''new-small'']"
    unfolding en(2) n .
  have g3: "length entries = 4" unfolding l by (simp add: demoFolders_def)
  from u h6 h7
  have g4: "\<exists>e. fst (importAssetFoldersAsync demoConfig strayFolderClient demoFolders demoWorld)
          = Inl e"
    by blast
  show ?thesis unfolding en(1) sum.sel using x g1 g2 g3 g4 d by blast
qed

subsection \<open>Resolving references to new ids\<close>

lemma forEachAsync_prefix:
  assumes body: "\<And>x w r w1. body x w = (r, w1) \<Longrightarrow>
      ((\<exists>e. r = Inl e) \<and> proj w1 = proj w) \<or> (ok x \<and> proj w1 = proj w @ [g x])"
    and run: "forEachAsync body xs w = (r, w')"
  shows "\<exists>n\<le>length xs. proj w' = proj w @ map g (take n xs)
          \<and> ((\<exists>u. r = Inr u) \<longrightarrow> n = length xs)
          \<and> list_all ok (take n xs)
          \<and> (\<not> list_all ok xs \<longrightarrow> (\<exists>e. r = Inl e))"
  using run
proof (induction xs arbitrary: w r w')
  case Nil
  then show ?case by auto
next
  case (Cons x xs)
  obtain r1 w1 where b: "body x w = (r1, w1)" by (cases "body x w")
  show ?case
  proof (cases r1)
    case (Inl e)
    with Cons.prems b have rw: "r = Inl e" "w' = w1" by auto
    from body[OF b] show ?thesis
    proof
      assume "(\<exists>e. r1 = Inl e) \<and> proj w1 = proj w"
      then show ?thesis using rw by (intro exI[of _ 0]) auto
    next
      assume "ok x \<and> proj w1 = proj w @ [g x]"
      then show ?thesis using rw by (intro exI[of _ 1]) auto
    qed
  next
    case (Inr p)
    obtain r2 w2 where l: "forEachAsync body xs w1 = (r2, w2)"
      by (cases "forEachAsync body xs w1")
    from Cons.IH[OF l] obtain n where n: "n \<le> length xs"
      "proj w2 = proj w1 @ map g (take n xs)"
      "(\<exists>u. r2 = Inr u) \<longrightarrow> n = length xs"
      "list_all ok (take n xs)"
      "\<not> list_all ok xs \<longrightarrow> (\<exists>e. r2 = Inl e)" by blast
    from body[OF b] Inr have px: "ok x" "proj w1 = proj w @ [g x]" by auto
    from Cons.prems b Inr l have rw: "w' = w2" "(\<exists>u. r = Inr u) = (\<exists>u. r2 = Inr u)"
      "(\<exists>e. r = Inl e) = (\<exists>e. r2 = Inl e)"
      by (auto split: sum.splits)
    show ?thesis using n px rw by (intro exI[of _ "Suc n"]) auto
  qed
qed

lemma upserts_append: "upserts (cs @ ds) = upserts cs @ upserts ds"
  by (induction cs rule: upserts.induct) auto

lemma resolve_references:
  shows "resolveToTargetId ledger v = Inr p \<Longrightarrow>
      idReferences p = map (\<lambda>i. the (lookupImportId ledger i)) (idReferences v)
      \<and> list_all (\<lambda>i. lookupImportId ledger i \<noteq> None) (idReferences v)"
    and "resolveAll ledger xs = Inr ys \<Longrightarrow>
      idReferencesAll ys = map (\<lambda>i. the (lookupImportId ledger i)) (idReferencesAll xs)
      \<and> list_all (\<lambda>i. lookupImportId ledger i \<noteq> None) (idReferencesAll xs)"
    and "resolveFields ledger fs = Inr gs \<Longrightarrow>
      idReferencesFields gs = map (\<lambda>i. the (lookupImportId ledger i)) (idReferencesFields fs)
      \<and> list_all (\<lambda>i. lookupImportId ledger i \<noteq> None) (idReferencesFields fs)"
  by (induction ledger v and ledger xs and ledger fs arbitrary: p and ys and gs
      rule: resolveToTargetId_resolveAll_resolveFields.induct)
     (auto split: sum.splits option.splits if_splits)

lemma resolve_total:
  shows "list_all (\<lambda>i. lookupImportId ledger i \<noteq> None) (idReferences v) \<Longrightarrow>
      \<exists>p. resolveToTargetId ledger v = Inr p"
    and "list_all (\<lambda>i. lookupImportId ledger i \<noteq> None) (idReferencesAll xs) \<Longrightarrow>
      \<exists>ys. resolveAll ledger xs = Inr ys"
    and "list_all (\<lambda>i. lookupImportId ledger i \<noteq> None) (idReferencesFields fs) \<Longrightarrow>
      \<exists>gs. resolveFields ledger fs = Inr gs"
  by (induction ledger v and ledger xs and ledger fs
      rule: resolveToTargetId_resolveAll_resolveFields.induct)
     (auto split: sum.splits option.splits if_splits)

lemma lookup_entry:
  assumes "distinct (map originalId ledger)" and "e \<in> set ledger" and "originalId e = Some i"
  shows "lookupImportId ledger i = importId e"
proof -
  have "find (\<lambda>r. originalId r = originalId e) ledger = Some e"
    using assms(1,2) by (rule find_distinct_key)
  then show ?thesis by (simp add: lookupImportId_def assms(3))
qed

lemma importOneLanguageVariant_cases:
  assumes "importOneLanguageVariant cfg specIdTranslateHelper cl ledger v w = (r, w1)"
  shows "((\<exists>e. r = Inl e) \<and> upserts (calls w1) = upserts (calls w))
       \<or> ((publishable v \<and> resolvable ledger (lv_elements v))
            \<and> upserts (calls w1) = upserts (calls w) @ [upsertOf ledger v])"
proof (cases "resolveToTargetId ledger (lv_elements v)")
  case (Inl e)
  with assms show ?thesis
    by (auto simp: importOneLanguageVariant_def specIdTranslateHelper_def Let_def throwIO_def
        split: if_splits)
next
  case (Inr p)
  then have "resolvable ledger (lv_elements v)"
    using resolve_references(1)[of ledger "lv_elements v" p] by (simp add: resolvable_def)
  with assms Inr show ?thesis
    by (auto simp: importOneLanguageVariant_def specIdTranslateHelper_def publishable_def
        upsertOf_def resolvedElements_def io_defs upserts_append
        split: if_splits prod.splits sum.splits)
qed

text \<open>
  C2, spec-modelled helper: (1) whatever the outcome of the variant loop, the upsert
  calls it issued are those of a starting segment of the variants (of all of them when
  it returns normally), each for a variant with both codenames set and each carrying the
  element payload of its variant as the helper resolved it against the results imported
  so far; (2) in a resolved payload every reference by id, at any depth in arrays and
  objects, is the \<open>importId\<close> the results hold for the original id that stood there;
  (3) with distinct original ids in the results, that is the \<open>importId\<close> of the entry
  of the referenced content item or asset; (4) the helper resolves every payload whose
  references are all among the results.
\<close>

theorem variant_references_resolved:
  "(importLanguageVariantsAsync cfg specIdTranslateHelper cl variants currentItems w = (r, w')
      \<longrightarrow> (\<exists>n\<le>length variants.
             upserts (calls w') = upserts (calls w) @ map (upsertOf currentItems) (take n variants)
             \<and> ((\<exists>entries. r = Inr entries) \<longrightarrow> n = length variants)
             \<and> list_all (\<lambda>v. publishable v \<and> resolvable currentItems (lv_elements v))
                 (take n variants)))
   \<and> (resolvable currentItems (lv_elements v) \<longrightarrow>
        resolveToTargetId currentItems (lv_elements v) = Inr (resolvedElements currentItems v)
        \<and> idReferences (resolvedElements currentItems v)
            = map (\<lambda>i. the (lookupImportId currentItems i)) (idReferences (lv_elements v)))
   \<and> (distinct (map originalId currentItems) \<and> e \<in> set currentItems \<and> originalId e = Some i
        \<longrightarrow> lookupImportId currentItems i = importId e)"
proof (intro conjI impI)
  assume run: "importLanguageVariantsAsync cfg specIdTranslateHelper cl variants currentItems w
      = (r, w')"
  have "\<exists>n\<le>length variants.
             upserts (calls w') = upserts (calls w) @ map (upsertOf currentItems) (take n variants)
             \<and> ((\<exists>entries. r = Inr entries) \<longrightarrow> n = length variants)
             \<and> list_all (\<lambda>v. publishable v \<and> resolvable currentItems (lv_elements v))
                 (take n variants)
             \<and> (\<not> list_all (\<lambda>v. publishable v \<and> resolvable currentItems (lv_elements v))
                    variants \<longrightarrow> (\<exists>e. r = Inl e))"
  proof (rule forEachAsync_prefix[where proj="\<lambda>w. upserts (calls w)"
      and ok="\<lambda>v. publishable v \<and> resolvable currentItems (lv_elements v)"
      and g="upsertOf currentItems"])
    show "forEachAsync (importOneLanguageVariant cfg specIdTranslateHelper cl currentItems)
        variants w = (r, w')"
      using run by (simp add: importLanguageVariantsAsync_def)
  next
    fix x v r1 w1
    assume "importOneLanguageVariant cfg specIdTranslateHelper cl currentItems x v = (r1, w1)"
    then show "((\<exists>e. r1 = Inl e) \<and> upserts (calls w1) = upserts (calls v))
       \<or> ((publishable x \<and> resolvable currentItems (lv_elements x))
            \<and> upserts (calls w1) = upserts (calls v) @ [upsertOf currentItems x])"
      by (rule importOneLanguageVariant_cases)
  qed
  then show "\<exists>n\<le>length variants.
             upserts (calls w') = upserts (calls w) @ map (upsertOf currentItems) (take n variants)
             \<and> ((\<exists>entries. r = Inr entries) \<longrightarrow> n = length variants)
             \<and> list_all (\<lambda>v. publishable v \<and> resolvable currentItems (lv_elements v))
                 (take n variants)"
    by blast
next
  assume a: "resolvable currentItems (lv_elements v)"
  then obtain p where p: "resolveToTargetId currentItems (lv_elements v) = Inr p"
    using resolve_total(1)[of currentItems "lv_elements v"] by (auto simp: resolvable_def)
  then show "resolveToTargetId currentItems (lv_elements v) = Inr (resolvedElements currentItems v)"
    by (simp add: resolvedElements_def)
  from p resolve_references(1)[of currentItems "lv_elements v" p]
  show "idReferences (resolvedElements currentItems v)
            = map (\<lambda>i. the (lookupImportId currentItems i)) (idReferences (lv_elements v))"
    by (simp add: resolvedElements_def)
next
  assume "distinct (map originalId currentItems) \<and> e \<in> set currentItems \<and> originalId e = Some i"
  then show "lookupImportId currentItems i = importId e" by (simp add: lookup_entry)
qed


theorem variant_references_resolved_witness:
  "distinct (map originalId demoLedger)
   \<and> resolvable demoLedger (lv_elements demoVariantLinked)
   \<and> upserts (calls (snd (importLanguageVariantsAsync demoConfig specIdTranslateHelper demoClient
        [demoVariantLinked] demoLedger demoWorld)))
       = [(''about'', ''en'',
           JArr [JObj [(''element'', JObj [(''codename'', JStr ''related'')]),
                       (''value'', JArr [JObj [(''id'', JStr ''new-i1'')],
                                         JObj [(''id'', JStr ''new-a1'')]])]])]
   \<and> idReferences (resolvedElements demoLedger demoVariantLinked) = [''new-i1'', ''new-a1'']
   \<and> lookupImportId demoLedger ''i1'' = Some ''new-i1''"
proof -
  let ?run = "importLanguageVariantsAsync demoConfig specIdTranslateHelper demoClient
        [demoVariantLinked] demoLedger demoWorld"
  let ?item = "\<lparr>imported = MContentItem \<lparr>model_id = ''new-i1'', model_name = ''Home''\<rparr>,
       original = OContentItem demoItemHome,
       importId = Some ''new-i1'', originalId = Some ''i1''\<rparr>"
  note t = variant_references_resolved[of demoConfig demoClient "[demoVariantLinked]" demoLedger
      demoWorld "fst ?run" "snd ?run" demoVariantLinked ?item "''i1''"]
  have h1: "distinct (map originalId demoLedger)" by (simp add: demoLedger_def)
  have l: "lookupImportId demoLedger ''i1'' = Some ''new-i1''"
      "lookupImportId demoLedger ''a1'' = Some ''new-a1''"
    by (simp_all add: lookupImportId_def demoLedger_def)
  have refs: "idReferences (lv_elements demoVariantLinked) = [''i1'', ''a1'']"
    by (simp add: demoVariantLinked_def)
  have h2: "resolvable demoLedger (lv_elements demoVariantLinked)"
    by (simp add: resolvable_def refs l)
  have res: "resolvedElements demoLedger demoVariantLinked
      = JArr [JObj [(''element'', JObj [(''codename'', JStr ''related'')]),
                       (''value'', JArr [JObj [(''id'', JStr ''new-i1'')],
                                         JObj [(''id'', JStr ''new-a1'')]])]]"
    by (simp add: resolvedElements_def demoVariantLinked_def l)
  have ok: "\<exists>entries. fst ?run = Inr entries"
    by (simp add: importLanguageVariantsAsync_def importOneLanguageVariant_def
        specIdTranslateHelper_def demoVariantLinked_def l demo_defs io_defs)
  from t ok obtain n where n: "n \<le> length [demoVariantLinked]"
    "upserts (calls (snd ?run)) = upserts (calls demoWorld)
        @ map (upsertOf demoLedger) (take n [demoVariantLinked])"
    "n = length [demoVariantLinked]"
    by auto
  have g1: "upserts (calls (snd ?run))
       = [(''about'', ''en'',
           JArr [JObj [(''element'', JObj [(''codename'', JStr ''related'')]),
                       (''value'', JArr [JObj [(''id'', JStr ''new-i1'')],
                                         JObj [(''id'', JStr ''new-a1'')]])]])]"
    unfolding n(2) n(3) by (simp add: upsertOf_def res) (simp add: demoVariantLinked_def demo_defs)
  from t h2 have g2: "idReferences (resolvedElements demoLedger demoVariantLinked)
      = map (\<lambda>i. the (lookupImportId demoLedger i)) (idReferences (lv_elements demoVariantLinked))"
    by blast
  have m: "?item \<in> set demoLedger" "originalId ?item = Some ''i1''"
    by (simp_all add: demoLedger_def)
  from t h1 m have g3: "lookupImportId demoLedger ''i1'' = importId ?item" by blast
  show ?thesis using h1 h2 g1 g2 g3 by (simp add: refs l)
qed

subsection \<open>The calls of a computation\<close>

lemma emitsOnly_returnIO: "emitsOnly P (returnIO x)"
  by (simp add: emitsOnly_def returnIO_def)

lemma emitsOnly_throwIO: "emitsOnly P (throwIO e)"
  by (simp add: emitsOnly_def throwIO_def)

lemma emitsOnly_processItem: "emitsOnly P (processItem cfg t a d)"
  by (simp add: emitsOnly_def processItem_def returnIO_def emit_def)

lemma emitsOnly_emit: "emitsOnly P (emit e)"
  by (simp add: emitsOnly_def emit_def)

lemma emitsOnly_request: "P c \<Longrightarrow> emitsOnly P (request c ep)"
  by (simp add: emitsOnly_def request_def split: prod.splits)

lemma emitsOnly_bindIO:
  assumes "emitsOnly P m" and "\<And>x. emitsOnly P (f x)"
  shows "emitsOnly P (bindIO m f)"
  unfolding emitsOnly_def
proof
  fix w
  obtain r w1 where m: "m w = (r, w1)" by (cases "m w")
  from assms(1) m obtain cs1 where cs1: "calls w1 = calls w @ cs1" "list_all P cs1"
    unfolding emitsOnly_def by (metis snd_conv)
  show "\<exists>cs. calls (snd (bindIO m f w)) = calls w @ cs \<and> list_all P cs"
  proof (cases r)
    case (Inl e)
    then show ?thesis using m cs1 by (simp add: bindIO_def)
  next
    case (Inr x)
    from assms(2)[of x] obtain cs2 where "calls (snd (f x w1)) = calls w1 @ cs2" "list_all P cs2"
      unfolding emitsOnly_def by blast
    then show ?thesis using m cs1 Inr by (intro exI[of _ "cs1 @ cs2"]) (simp add: bindIO_def)
  qed
qed

lemma emitsOnly_forEachAsync:
  assumes "\<And>x. emitsOnly P (body x)"
  shows "emitsOnly P (forEachAsync body xs)"
  unfolding emitsOnly_def
proof
  fix w
  show "\<exists>cs. calls (snd (forEachAsync body xs w)) = calls w @ cs \<and> list_all P cs"
  proof (induction xs arbitrary: w)
    case Nil
    then show ?case by simp
  next
    case (Cons x xs)
    obtain r w1 where b: "body x w = (r, w1)" by (cases "body x w")
    from assms[of x] b obtain cs1 where cs1: "calls w1 = calls w @ cs1" "list_all P cs1"
      unfolding emitsOnly_def by (metis snd_conv)
    from Cons.IH[of w1] obtain cs2 where
      cs2: "calls (snd (forEachAsync body xs w1)) = calls w1 @ cs2" "list_all P cs2"
      by blast
    show ?case
    proof (cases r)
      case (Inl e)
      then show ?thesis using b cs1 by simp
    next
      case (Inr p)
      then show ?thesis using b cs1 cs2
        by (intro exI[of _ "cs1 @ cs2"]) (auto split: prod.splits sum.splits)
    qed
  qed
qed

lemma emitsOnly_mono: "emitsOnly P m \<Longrightarrow> (\<And>c. P c \<Longrightarrow> Q c) \<Longrightarrow> emitsOnly Q m"
  unfolding emitsOnly_def list_all_iff by blast

lemma emitsOnly_grows: "emitsOnly P m \<Longrightarrow> length (calls w) \<le> length (calls (snd (m w)))"
  unfolding emitsOnly_def by (metis le_add1 length_append)

lemmas emitsOnly_intros = emitsOnly_returnIO emitsOnly_throwIO emitsOnly_processItem
  emitsOnly_emit emitsOnly_request emitsOnly_bindIO emitsOnly_forEachAsync

lemma calling_request: "calling (request c ep)"
  by (auto simp: calling_def request_def split: prod.splits)

lemma calling_bindIO_left:
  assumes "calling m" and "\<And>x. emitsOnly P (f x)"
  shows "calling (bindIO m f)"
  unfolding calling_def
proof (intro allI impI)
  fix w y w'
  assume "bindIO m f w = (Inr y, w')"
  then obtain x w1 where x: "m w = (Inr x, w1)" "f x w1 = (Inr y, w')"
    by (auto simp: bindIO_def split: prod.splits sum.splits)
  from assms(1) x(1) have "length (calls w) < length (calls w1)" unfolding calling_def by blast
  moreover from emitsOnly_grows[OF assms(2), of w1 x] x(2)
  have "length (calls w1) \<le> length (calls w')" by simp
  ultimately show "length (calls w) < length (calls w')" by simp
qed

lemma calling_forEachAsync:
  assumes "xs \<noteq> []" and "\<And>x. calling (body x)" and "\<And>x. emitsOnly P (body x)"
  shows "calling (forEachAsync body xs)"
  unfolding calling_def
proof (intro allI impI)
  fix w rs w'
  assume run: "forEachAsync body xs w = (Inr rs, w')"
  from assms(1) obtain x rest where xs: "xs = x # rest" by (cases xs) auto
  from run[unfolded xs] obtain r w1 others where
    b: "body x w = (Inr r, w1)" and l: "forEachAsync body rest w1 = (Inr others, w')"
    by (rule forEachAsync_Cons_Inr)
  from assms(2) b have "length (calls w) < length (calls w1)" unfolding calling_def by blast
  moreover from emitsOnly_grows[OF emitsOnly_forEachAsync[of P body rest], of w1] assms(3) l
  have "length (calls w1) \<le> length (calls w')" by simp
  ultimately show "length (calls w) < length (calls w')" by simp
qed

subsection \<open>The calls of each importer\<close>

lemma importTaxonomiesAsync_emits:
  "emitsOnly (\<lambda>c. stageOf c = STaxonomies) (importTaxonomiesAsync cfg cl xs)"
  unfolding importTaxonomiesAsync_def by (intro emitsOnly_intros) simp


lemma importContentTypeSnippetsAsync_emits:
  "emitsOnly (\<lambda>c. stageOf c = SContentTypeSnippets) (importContentTypeSnippetsAsync cfg cl xs)"
  unfolding importContentTypeSnippetsAsync_def by (intro emitsOnly_intros) simp


lemma importContentTypesAsync_emits:
  "emitsOnly (\<lambda>c. stageOf c = SContentTypes) (importContentTypesAsync cfg cl xs)"
  unfolding importContentTypesAsync_def by (intro emitsOnly_intros) simp


lemma calling_throwIO: "calling (throwIO e)"
  by (simp add: calling_def throwIO_def)

lemma importContentItemAsync_emits:
  "emitsOnly (\<lambda>c. stageOf c = SContentItems) (importContentItemAsync cfg cl xs)"
  unfolding importContentItemAsync_def Let_def
  by (rule emitsOnly_forEachAsync) (auto intro!: emitsOnly_intros)


lemma importOneAsset_emits:
  "emitsOnly (\<lambda>c. stageOf c = SAssets) (importOneAsset cfg ith cl binFiles cur a)"
  unfolding importOneAsset_def
  by (auto intro!: emitsOnly_intros split: option.splits sum.splits)

lemma importAssetsAsync_emits:
  "emitsOnly (\<lambda>c. stageOf c = SAssets) (importAssetsAsync cfg ith cl xs binFiles cur)"
  unfolding importAssetsAsync_def by (intro emitsOnly_forEachAsync importOneAsset_emits)



lemma importOneLanguageVariant_emits:
  "emitsOnly (\<lambda>c. stageOf c = SLanguageVariants) (importOneLanguageVariant cfg ith cl cur v)"
  unfolding importOneLanguageVariant_def Let_def
  by (auto intro!: emitsOnly_intros split: sum.splits)

lemma importOneLanguageVariant_calling: "calling (importOneLanguageVariant cfg ith cl cur v)"
  unfolding importOneLanguageVariant_def Let_def
  by (auto intro!: calling_bindIO_left[where P="\<lambda>c. True"] calling_request calling_throwIO
        emitsOnly_intros split: sum.splits)

lemma importLanguageVariantsAsync_emits:
  "emitsOnly (\<lambda>c. stageOf c = SLanguageVariants) (importLanguageVariantsAsync cfg ith cl xs cur)"
  unfolding importLanguageVariantsAsync_def
  by (intro emitsOnly_forEachAsync importOneLanguageVariant_emits)

lemma importLanguageVariantsAsync_calling:
  "xs \<noteq> [] \<Longrightarrow> calling (importLanguageVariantsAsync cfg ith cl xs cur)"
  unfolding importLanguageVariantsAsync_def
  by (rule calling_forEachAsync[where P="\<lambda>c. stageOf c = SLanguageVariants"])
     (auto intro: importOneLanguageVariant_calling importOneLanguageVariant_emits)

lemma importAssetFoldersAsync_emits:
  "emitsOnly (\<lambda>c. stageOf c = SAssetFolders) (importAssetFoldersAsync cfg cl xs)"
  unfolding importAssetFoldersAsync_def Let_def
  by (auto intro!: emitsOnly_intros split: sum.splits)


lemma fixLanguageAsync_emits:
  "emitsOnly (\<lambda>c. stageOf c = SLanguages) (fixLanguageAsync cl cur l)"
  unfolding fixLanguageAsync_def
  by (auto intro!: emitsOnly_intros split: option.splits)

lemma importOneLanguage_emits:
  "emitsOnly (\<lambda>c. stageOf c = SLanguages) (importOneLanguage cfg cl cur l)"
  unfolding importOneLanguage_def
  by (auto intro!: emitsOnly_intros fixLanguageAsync_emits split: option.splits sum.splits)

lemma importLanguagesLoop_emits:
  "emitsOnly (\<lambda>c. stageOf c = SLanguages) (importLanguagesLoop cfg cl cur xs)"
  unfolding emitsOnly_def
proof
  fix w
  show "\<exists>cs. calls (snd (importLanguagesLoop cfg cl cur xs w)) = calls w @ cs
          \<and> list_all (\<lambda>c. stageOf c = SLanguages) cs"
  proof (induction xs arbitrary: w cur)
    case Nil
    then show ?case by simp
  next
    case (Cons x xs)
    obtain r w1 where b: "importOneLanguage cfg cl cur x w = (r, w1)"
      by (cases "importOneLanguage cfg cl cur x w")
    from importOneLanguage_emits[of cfg cl cur x] b obtain cs1 where
      cs1: "calls w1 = calls w @ cs1" "list_all (\<lambda>c. stageOf c = SLanguages) cs1"
      unfolding emitsOnly_def by (metis snd_conv)
    show ?case
    proof (cases r)
      case (Inl e)
      then show ?thesis using b cs1 by simp
    next
      case (Inr p)
      obtain cur' pushed where p: "p = (cur', pushed)" by (cases p)
      from Cons.IH[of cur' w1] obtain cs2 where
        "calls (snd (importLanguagesLoop cfg cl cur' xs w1)) = calls w1 @ cs2"
        "list_all (\<lambda>c. stageOf c = SLanguages) cs2"
        by blast
      then show ?thesis using b cs1 Inr p
        by (intro exI[of _ "cs1 @ cs2"]) (auto split: prod.splits sum.splits)
    qed
  qed
qed

lemma importLanguagesAsync_emits:
  "emitsOnly (\<lambda>c. stageOf c = SLanguages) (importLanguagesAsync cfg cl xs)"
  unfolding importLanguagesAsync_def
  by (auto intro!: emitsOnly_intros importLanguagesLoop_emits)


lemma publishOne_emits: "emitsOnly (\<lambda>c. stageOf c = SPublish) (publishOne cfg cl v)"
  unfolding publishOne_def Let_def by (auto intro!: emitsOnly_intros)

lemma publishLanguageVariantsAsync_emits:
  "emitsOnly (\<lambda>c. stageOf c = SPublish) (publishLanguageVariantsAsync cfg cl vs steps)"
  unfolding publishLanguageVariantsAsync_def Let_def
  by (auto intro!: emitsOnly_intros publishOne_emits split: option.splits)

lemma moveOne_emits: "emitsOnly (\<lambda>c. stageOf c = SMove) (moveOne cfg cl s v)"
  unfolding moveOne_def Let_def by (auto intro!: emitsOnly_intros)

lemma moveLanguageVariantsToCustomWorkflowStepAsync_emits:
  "emitsOnly (\<lambda>c. stageOf c = SMove) (moveLanguageVariantsToCustomWorkflowStepAsync cfg cl s vs)"
  unfolding moveLanguageVariantsToCustomWorkflowStepAsync_def
  by (auto intro!: emitsOnly_intros moveOne_emits)


subsection \<open>The calls of the stages\<close>

lemma stageAssetFolders_emits:
  "emitsOnly (\<lambda>c. stageOf c = SAssetFolders \<and> stageActive cfg src SAssetFolders)
     (stageAssetFolders cfg cl src items)"
  unfolding stageAssetFolders_def
  by (auto simp: stageActive_def
      intro!: emitsOnly_intros emitsOnly_mono[OF importAssetFoldersAsync_emits])

lemma stageLanguages_emits:
  "emitsOnly (\<lambda>c. stageOf c = SLanguages \<and> stageActive cfg src SLanguages)
     (stageLanguages cfg cl src items)"
  unfolding stageLanguages_def
  by (auto simp: stageActive_def
      intro!: emitsOnly_intros emitsOnly_mono[OF importLanguagesAsync_emits])

lemma stageTaxonomies_emits:
  "emitsOnly (\<lambda>c. stageOf c = STaxonomies \<and> stageActive cfg src STaxonomies)
     (stageTaxonomies cfg cl src items)"
  unfolding stageTaxonomies_def
  by (auto simp: stageActive_def
      intro!: emitsOnly_intros emitsOnly_mono[OF importTaxonomiesAsync_emits])

lemma stageContentTypeSnippets_emits:
  "emitsOnly (\<lambda>c. stageOf c = SContentTypeSnippets \<and> stageActive cfg src SContentTypeSnippets)
     (stageContentTypeSnippets cfg cl src items)"
  unfolding stageContentTypeSnippets_def
  by (auto simp: stageActive_def
      intro!: emitsOnly_intros emitsOnly_mono[OF importContentTypeSnippetsAsync_emits])

lemma stageContentTypes_emits:
  "emitsOnly (\<lambda>c. stageOf c = SContentTypes \<and> stageActive cfg src SContentTypes)
     (stageContentTypes cfg cl src items)"
  unfolding stageContentTypes_def
  by (auto simp: stageActive_def
      intro!: emitsOnly_intros emitsOnly_mono[OF importContentTypesAsync_emits])

lemma stageAssets_emits:
  "emitsOnly (\<lambda>c. stageOf c = SAssets \<and> stageActive cfg src SAssets)
     (stageAssets cfg ith cl src items)"
  unfolding stageAssets_def
  by (auto simp: stageActive_def
      intro!: emitsOnly_intros emitsOnly_mono[OF importAssetsAsync_emits])

lemma stageContentItems_emits:
  "emitsOnly (\<lambda>c. stageOf c = SContentItems \<and> stageActive cfg src SContentItems)
     (stageContentItems cfg cl src items)"
  unfolding stageContentItems_def
  by (auto simp: stageActive_def
      intro!: emitsOnly_intros emitsOnly_mono[OF importContentItemAsync_emits])









lemma stageRank_inj: "stageRank a = stageRank b \<Longrightarrow> a = b"
  by (cases a; cases b; simp)

lemma runsFrom_returnIO: "8 \<le> k \<Longrightarrow> runsFrom cfg src k (returnIO x)"
  by (simp add: runsFrom_def returnIO_def)

lemma runsFrom_step:
  assumes rank: "stageRank K = k"
    and emits: "emitsOnly (\<lambda>c. stageOf c = K \<and> stageActive cfg src K) m"
    and calling: "k \<le> 7 \<Longrightarrow> \<not> stageInputEmpty src K \<Longrightarrow> calling m"
    and rest: "\<And>x. runsFrom cfg src (Suc k) (f x)"
  shows "runsFrom cfg src k (bindIO m f)"
  unfolding runsFrom_def
proof
  fix w
  let ?stages = "[SAssetFolders, SLanguages, STaxonomies, SContentTypeSnippets, SContentTypes,
                   SAssets, SContentItems, SLanguageVariants]"
  obtain r w1 where m: "m w = (r, w1)" by (cases "m w")
  from emits m obtain cs1 where cs1: "calls w1 = calls w @ cs1"
    "list_all (\<lambda>c. stageOf c = K \<and> stageActive cfg src K) cs1"
    unfolding emitsOnly_def by (metis snd_conv)
  have ranks1: "map (\<lambda>c. stageRank (stageOf c)) cs1 = replicate (length cs1) k"
    using cs1(2) rank by (induction cs1) auto
  have sorted1: "sorted (map (\<lambda>c. stageRank (stageOf c)) cs1)"
    unfolding ranks1 by (simp add: sorted_replicate)
  have ok1: "list_all (\<lambda>c. k \<le> stageRank (stageOf c) \<and> stageActive cfg src (stageOf c)) cs1"
    using cs1(2) rank by (auto simp: list_all_iff)
  show "\<exists>cs. calls (snd (bindIO m f w)) = calls w @ cs
        \<and> sorted (map (\<lambda>c. stageRank (stageOf c)) cs)
        \<and> list_all (\<lambda>c. k \<le> stageRank (stageOf c) \<and> stageActive cfg src (stageOf c)) cs
        \<and> ((\<exists>x. fst (bindIO m f w) = Inr x) \<longrightarrow>
             list_all (\<lambda>j. stageInputEmpty src j \<or> (\<exists>c\<in>set cs. stageOf c = j))
               (filter (\<lambda>j. k \<le> stageRank j) ?stages))"
  proof (cases r)
    case (Inl e)
    then show ?thesis using m cs1(1) sorted1 ok1
      by (intro exI[of _ cs1]) (simp add: bindIO_def)
  next
    case (Inr x)
    from rest[of x] obtain cs2 where cs2: "calls (snd (f x w1)) = calls w1 @ cs2"
      "sorted (map (\<lambda>c. stageRank (stageOf c)) cs2)"
      "list_all (\<lambda>c. Suc k \<le> stageRank (stageOf c) \<and> stageActive cfg src (stageOf c)) cs2"
      "(\<exists>y. fst (f x w1) = Inr y) \<longrightarrow>
             list_all (\<lambda>j. stageInputEmpty src j \<or> (\<exists>c\<in>set cs2. stageOf c = j))
               (filter (\<lambda>j. Suc k \<le> stageRank j) ?stages)"
      unfolding runsFrom_def by blast
    have b: "bindIO m f w = f x w1" using m Inr by (simp add: bindIO_def)
    have sorted12: "sorted (map (\<lambda>c. stageRank (stageOf c)) (cs1 @ cs2))"
      using sorted1 cs2(2) cs2(3) cs1(2) rank
      by (auto simp: sorted_append list_all_iff)
    have ok12: "list_all (\<lambda>c. k \<le> stageRank (stageOf c) \<and> stageActive cfg src (stageOf c))
        (cs1 @ cs2)"
      using ok1 cs2(3) by (auto simp: list_all_iff)
    have executed: "list_all (\<lambda>j. stageInputEmpty src j \<or> (\<exists>c\<in>set (cs1 @ cs2). stageOf c = j))
               (filter (\<lambda>j. k \<le> stageRank j) ?stages)"
      if ok: "\<exists>y. fst (f x w1) = Inr y"
      unfolding list_all_iff
    proof
      fix j assume j: "j \<in> set (filter (\<lambda>j. k \<le> stageRank j) ?stages)"
      show "stageInputEmpty src j \<or> (\<exists>c\<in>set (cs1 @ cs2). stageOf c = j)"
      proof (cases "stageRank j = k")
        case True
        then have jK: "j = K" using rank stageRank_inj by simp
        from j have "j \<in> set ?stages" unfolding set_filter by blast
        then have "stageRank j \<le> 7" by auto
        then have k7: "k \<le> 7" using True by simp
        show ?thesis
        proof (cases "stageInputEmpty src K")
          case True
          then show ?thesis by (simp add: jK)
        next
          case False
          from calling[OF k7 False] m Inr have "length (calls w) < length (calls w1)"
            unfolding calling_def by blast
          then obtain c where "c \<in> set cs1" using cs1(1) by (cases cs1) auto
          then show ?thesis using cs1(2) jK by (auto simp: list_all_iff)
        qed
      next
        case False
        then have "j \<in> set (filter (\<lambda>j. Suc k \<le> stageRank j) ?stages)"
          using j unfolding set_filter by auto
        with cs2(4) ok show ?thesis by (auto simp: list_all_iff)
      qed
    qed
    show ?thesis
      using cs1(1) cs2(1) sorted12 ok12 executed unfolding b
      by (intro exI[of _ "cs1 @ cs2"]) auto
  qed
qed

lemma emitsOnly_nothing:
  assumes "\<And>w. calls (snd (m w)) = calls w"
  shows "emitsOnly P m"
  unfolding emitsOnly_def using assms by simp

lemma publish_stage_emits:
  assumes "languageVariants (importData src) \<noteq> []"
  shows "emitsOnly (\<lambda>c. stageOf c = SPublish \<and> stageActive cfg src SPublish)
     (if enablePublish cfg then publishLanguageVariantsAsync cfg cl vs steps else returnIO ())"
  using assms
  by (auto simp: stageActive_def
      intro!: emitsOnly_returnIO emitsOnly_mono[OF publishLanguageVariantsAsync_emits])

lemma move_stage_emits:
  assumes "languageVariants (importData src) \<noteq> []"
  shows "emitsOnly (\<lambda>c. stageOf c = SMove \<and> stageActive cfg src SMove)
     (if truthy (workflowIdForImportedItems cfg)
      then moveLanguageVariantsToCustomWorkflowStepAsync cfg cl s vs else returnIO ())"
  using assms
  by (auto simp: stageActive_def
      intro!: emitsOnly_returnIO
        emitsOnly_mono[OF moveLanguageVariantsToCustomWorkflowStepAsync_emits])

lemma stageLanguageVariants_runsFrom:
  "runsFrom cfg src 7 (stageLanguageVariants cfg ith cl src items)"
proof (cases "languageVariants (importData src) = []")
  case True
  have "calls (snd (stageLanguageVariants cfg ith cl src items w)) = calls w" for w :: "'a world"
    by (simp add: stageLanguageVariants_def importLanguageVariantsAsync_def True
        publishLanguageVariantsAsync_def moveLanguageVariantsToCustomWorkflowStepAsync_def
        bindIO_def returnIO_def split: option.splits)
  then show ?thesis by (simp add: runsFrom_def True)
next
  case False
  show ?thesis
    unfolding stageLanguageVariants_def
  proof (rule runsFrom_step[where K=SLanguageVariants])
    show "stageRank SLanguageVariants = 7" by simp
    show "emitsOnly (\<lambda>c. stageOf c = SLanguageVariants \<and> stageActive cfg src SLanguageVariants)
       (importLanguageVariantsAsync cfg ith cl (languageVariants (importData src)) items)"
      using False
      by (auto simp: stageActive_def intro!: emitsOnly_mono[OF importLanguageVariantsAsync_emits])
    show "calling (importLanguageVariantsAsync cfg ith cl (languageVariants (importData src)) items)"
      using False by (rule importLanguageVariantsAsync_calling)
  next
    fix vs
    show "runsFrom cfg src (Suc 7)
        (bindIO
          (if enablePublish cfg
           then publishLanguageVariantsAsync cfg cl (map original vs)
                  (workflowSteps (importData src))
           else returnIO ())
          (\<lambda>_. bindIO
                (if truthy (workflowIdForImportedItems cfg)
                 then moveLanguageVariantsToCustomWorkflowStepAsync cfg cl
                        (the (workflowIdForImportedItems cfg)) (map original vs)
                 else returnIO ())
                (\<lambda>_. returnIO
                       (items @ map (widen OLanguageVariant MLanguageVariant) vs))))"
      by (rule runsFrom_step[where K=SPublish], simp, rule publish_stage_emits[OF False], simp,
          rule runsFrom_step[where K=SMove], simp, rule move_stage_emits[OF False], simp,
          rule runsFrom_returnIO, simp)
  qed
qed




subsection \<open>The results of a run that returns normally\<close>

lemma bindIO_Inr_elim:
  assumes "bindIO m f w = (Inr y, w')"
  obtains x w1 where "m w = (Inr x, w1)" "f x w1 = (Inr y, w')"
  using assms by (auto simp: bindIO_def split: prod.splits sum.splits)

lemma forEachAsync_Inr_map:
  assumes "forEachAsync body xs w = (Inr rs, w')"
    and "\<And>x v r v'. body x v = (Inr r, v') \<Longrightarrow> map h r = [g x]"
  shows "map h rs = map g xs"
  using assms(1)
proof (induction xs arbitrary: w rs)
  case Nil
  then show ?case by simp
next
  case (Cons x xs)
  from Cons.prems obtain r w1 rest where
    b: "body x w = (Inr r, w1)" and l: "forEachAsync body xs w1 = (Inr rest, w')"
    and rs: "rs = r @ rest"
    by (rule forEachAsync_Cons_Inr)
  show ?case using assms(2)[OF b] Cons.IH[OF l] rs by simp
qed

lemma forEachAsync_Inr_entries:
  assumes "forEachAsync body xs w = (Inr rs, w')"
    and "\<And>x v r v'. body x v = (Inr r, v') \<Longrightarrow>
           \<exists>y. r = [y] \<and> original y = x \<and> originalId y = Some (k x) \<and> P y"
  shows "map original rs = xs \<and> map originalId rs = map (\<lambda>x. Some (k x)) xs
       \<and> (\<forall>r\<in>set rs. P r)"
  using assms(1)
proof (induction xs arbitrary: w rs)
  case Nil
  then show ?case by simp
next
  case (Cons x xs)
  from Cons.prems obtain r w1 rest where
    b: "body x w = (Inr r, w1)" and l: "forEachAsync body xs w1 = (Inr rest, w')"
    and rs: "rs = r @ rest"
    by (rule forEachAsync_Cons_Inr)
  show ?case using assms(2)[OF b] Cons.IH[OF l] rs by auto
qed

lemma importTaxonomiesAsync_Inr:
  "importTaxonomiesAsync cfg cl xs w = (Inr rs, w') \<Longrightarrow>
     map original rs = xs \<and> map originalId rs = map (\<lambda>x. Some (tx_id x)) xs
     \<and> (\<forall>r\<in>set rs. importId r = Some (model_id (imported r)))"
  unfolding importTaxonomiesAsync_def
  by (erule forEachAsync_Inr_entries)
     (auto simp: io_defs split: prod.splits sum.splits if_splits)

lemma importContentTypeSnippetsAsync_Inr:
  "importContentTypeSnippetsAsync cfg cl xs w = (Inr rs, w') \<Longrightarrow>
     map original rs = xs \<and> map originalId rs = map (\<lambda>x. Some (cts_id x)) xs
     \<and> (\<forall>r\<in>set rs. importId r = Some (model_id (imported r)))"
  unfolding importContentTypeSnippetsAsync_def
  by (erule forEachAsync_Inr_entries)
     (auto simp: io_defs split: prod.splits sum.splits if_splits)

lemma importContentTypesAsync_Inr:
  "importContentTypesAsync cfg cl xs w = (Inr rs, w') \<Longrightarrow>
     map original rs = xs \<and> map originalId rs = map (\<lambda>x. Some (ct_id x)) xs
     \<and> (\<forall>r\<in>set rs. importId r = Some (model_id (imported r)))"
  unfolding importContentTypesAsync_def
  by (erule forEachAsync_Inr_entries)
     (auto simp: io_defs split: prod.splits sum.splits if_splits)

lemma importContentItemAsync_Inr:
  "importContentItemAsync cfg cl xs w = (Inr rs, w') \<Longrightarrow>
     map original rs = xs \<and> map originalId rs = map (\<lambda>x. Some (ci_id x)) xs
     \<and> (\<forall>r\<in>set rs. importId r = Some (model_id (imported r)))"
  unfolding importContentItemAsync_def
  by (erule forEachAsync_Inr_entries)
     (auto simp: io_defs split: prod.splits sum.splits if_splits)

lemma importLanguageVariantsAsync_Inr:
  "importLanguageVariantsAsync cfg ith cl xs cur w = (Inr rs, w') \<Longrightarrow> length rs = length xs"
proof -
  assume "importLanguageVariantsAsync cfg ith cl xs cur w = (Inr rs, w')"
  then have "map (\<lambda>r. ()) rs = map (\<lambda>x. ()) xs"
    unfolding importLanguageVariantsAsync_def
    by (rule forEachAsync_Inr_map)
       (auto simp: importOneLanguageVariant_def io_defs split: prod.splits sum.splits if_splits)
  then show ?thesis by (metis length_map)
qed

lemma flattenAssetFolders_imported:
  "flattenAssetFolders resp originalItems = Inr entries \<Longrightarrow>
     map imported entries = flattenFolderModels resp"
proof (induction resp arbitrary: entries rule: flattenFolderModels.induct)
  case 1
  then show ?case by simp
next
  case (2 i n x sub rest)
  from "2.prems" show ?case
    unfolding flattenAssetFolders_Cons
    by (auto split: option.splits sum.splits simp: "2.IH")
qed

lemma importAssetFoldersAsync_Inr:
  assumes "importAssetFoldersAsync cfg cl fs w = (Inr entries, w')"
  shows "\<exists>resp. fst (addAssetFolders cl (map mapAssetFolder (setExternalIdForFolders fs))
                      (server w)) = Inr resp
           \<and> map imported entries = flattenFolderModels resp"
proof -
  let ?req = "map mapAssetFolder (setExternalIdForFolders fs)"
  from assms obtain resp w1 where
    r: "request (AddAssetFolders ?req) (addAssetFolders cl ?req) w = (Inr resp, w1)"
    and k: "(case flattenAssetFolders resp (flattenAssetFolderContracts (setExternalIdForFolders fs)) of
          Inl e \<Rightarrow> throwIO e
        | Inr importedFlattenedFolders \<Rightarrow>
            forEachAsync
              (\<lambda>flattenedFolder. bindIO
                 (processItem cfg (afm_name (imported flattenedFolder)) AAssetFolder
                    (DataModel (MAssetFolder (imported flattenedFolder))))
                 (\<lambda>_. returnIO [flattenedFolder]))
              importedFlattenedFolders) w1 = (Inr entries, w')"
    unfolding importAssetFoldersAsync_def Let_def by (rule bindIO_Inr_elim)
  from r have a: "fst (addAssetFolders cl ?req (server w)) = Inr resp"
    by (auto simp: request_def split: prod.splits)
  from k obtain flat where f: "flattenAssetFolders resp
        (flattenAssetFolderContracts (setExternalIdForFolders fs)) = Inr flat"
    by (auto simp: throwIO_def split: sum.splits)
  from k f notify_folders[of cfg flat w1] have "entries = flat" by auto
  with flattenAssetFolders_imported[OF f] a show ?thesis by blast
qed

lemma importOneLanguage_Inr:
  assumes "importOneLanguage cfg cl cur x w = (Inr (cur', pushed), w')"
  shows "(pushed = [] \<or> map original pushed = [x]) \<and> (\<not> fixLanguages cfg \<longrightarrow> cur' = cur)"
  using assms unfolding importOneLanguage_def
  by (auto simp: io_defs split: if_splits prod.splits sum.splits option.splits)

lemma importLanguagesLoop_Inr:
  "importLanguagesLoop cfg cl cur xs w = (Inr rs, w') \<Longrightarrow> subseq (map original rs) xs"
proof (induction xs arbitrary: cur w rs)
  case Nil
  then show ?case by simp
next
  case (Cons x xs)
  from Cons.prems obtain cur' pushed w1 others where
    b: "importOneLanguage cfg cl cur x w = (Inr (cur', pushed), w1)"
    and l: "importLanguagesLoop cfg cl cur' xs w1 = (Inr others, w')"
    and rs: "rs = pushed @ others"
    by (auto split: prod.splits sum.splits)
  from importOneLanguage_Inr[OF b] Cons.IH[OF l] rs show ?case by auto
qed

lemma importLanguagesAsync_Inr:
  "importLanguagesAsync cfg cl xs w = (Inr rs, w') \<Longrightarrow> subseq (map original rs) xs"
  unfolding importLanguagesAsync_def
  by (erule bindIO_Inr_elim) (rule importLanguagesLoop_Inr)

lemma returnIO_Inr: "returnIO x w = (Inr y, w') \<Longrightarrow> y = x \<and> w' = w"
  by (simp add: returnIO_def)

lemma runStages_results:
  assumes "runStages cfg ith cl src w = (Inr items, w')"
  shows "\<exists>fs ls ts as cs vs.
      items = map (widen OAssetFolder MAssetFolder) fs @ map (widen OLanguage MLanguage) ls
            @ map (widen OTaxonomy MTaxonomy) ts @ map (widen OAsset MAsset) as
            @ map (widen OContentItem MContentItem) cs
            @ map (widen OLanguageVariant MLanguageVariant) vs
      \<and> ((assetFolders src = [] \<and> fs = [])
         \<or> (assetFolders src \<noteq> []
            \<and> (\<exists>resp. fst (addAssetFolders cl
                (map mapAssetFolder (setExternalIdForFolders (assetFolders src))) (server w))
                  = Inr resp
               \<and> map imported fs = flattenFolderModels resp)))
      \<and> subseq (map original ls) (languages (importData src))
      \<and> map original ts = taxonomies (importData src)
      \<and> map originalId ts = map (\<lambda>x. Some (tx_id x)) (taxonomies (importData src))
      \<and> (\<forall>r\<in>set ts. importId r = Some (model_id (imported r)))
      \<and> map original as = assets (importData src)
      \<and> map originalId as = map (\<lambda>x. Some (asset_id x)) (assets (importData src))
      \<and> (\<forall>r\<in>set as. importId r = Some (am_id (imported r)))
      \<and> map original cs = contentItems (importData src)
      \<and> map originalId cs = map (\<lambda>x. Some (ci_id x)) (contentItems (importData src))
      \<and> (\<forall>r\<in>set cs. importId r = Some (model_id (imported r)))
      \<and> length vs = length (languageVariants (importData src))"
proof -
  from assms obtain i1 w1 where s1: "stageAssetFolders cfg cl src [] w = (Inr i1, w1)"
    and r1: "bindIO (stageLanguages cfg cl src i1)
       (\<lambda>items2. bindIO (stageTaxonomies cfg cl src items2)
       (\<lambda>items3. bindIO (stageContentTypeSnippets cfg cl src items3)
       (\<lambda>items4. bindIO (stageContentTypes cfg cl src items4)
       (\<lambda>items5. bindIO (stageAssets cfg ith cl src items5)
       (\<lambda>items6. bindIO (stageContentItems cfg cl src items6)
       (\<lambda>items7. stageLanguageVariants cfg ith cl src items7)))))) w1 = (Inr items, w')"
    unfolding runStages_def by (rule bindIO_Inr_elim)
  from r1 obtain i2 w2 where s2: "stageLanguages cfg cl src i1 w1 = (Inr i2, w2)"
    and r2: "bindIO (stageTaxonomies cfg cl src i2)
       (\<lambda>items3. bindIO (stageContentTypeSnippets cfg cl src items3)
       (\<lambda>items4. bindIO (stageContentTypes cfg cl src items4)
       (\<lambda>items5. bindIO (stageAssets cfg ith cl src items5)
       (\<lambda>items6. bindIO (stageContentItems cfg cl src items6)
       (\<lambda>items7. stageLanguageVariants cfg ith cl src items7))))) w2 = (Inr items, w')"
    by (rule bindIO_Inr_elim)
  from r2 obtain i3 w3 where s3: "stageTaxonomies cfg cl src i2 w2 = (Inr i3, w3)"
    and r3: "bindIO (stageContentTypeSnippets cfg cl src i3)
       (\<lambda>items4. bindIO (stageContentTypes cfg cl src items4)
       (\<lambda>items5. bindIO (stageAssets cfg ith cl src items5)
       (\<lambda>items6. bindIO (stageContentItems cfg cl src items6)
       (\<lambda>items7. stageLanguageVariants cfg ith cl src items7)))) w3 = (Inr items, w')"
    by (rule bindIO_Inr_elim)
  from r3 obtain i4 w4 where s4: "stageContentTypeSnippets cfg cl src i3 w3 = (Inr i4, w4)"
    and r4: "bindIO (stageContentTypes cfg cl src i4)
       (\<lambda>items5. bindIO (stageAssets cfg ith cl src items5)
       (\<lambda>items6. bindIO (stageContentItems cfg cl src items6)
       (\<lambda>items7. stageLanguageVariants cfg ith cl src items7))) w4 = (Inr items, w')"
    by (rule bindIO_Inr_elim)
  from r4 obtain i5 w5 where s5: "stageContentTypes cfg cl src i4 w4 = (Inr i5, w5)"
    and r5: "bindIO (stageAssets cfg ith cl src i5)
       (\<lambda>items6. bindIO (stageContentItems cfg cl src items6)
       (\<lambda>items7. stageLanguageVariants cfg ith cl src items7)) w5 = (Inr items, w')"
    by (rule bindIO_Inr_elim)
  from r5 obtain i6 w6 where s6: "stageAssets cfg ith cl src i5 w5 = (Inr i6, w6)"
    and r6: "bindIO (stageContentItems cfg cl src i6)
       (\<lambda>items7. stageLanguageVariants cfg ith cl src items7) w6 = (Inr items, w')"
    by (rule bindIO_Inr_elim)
  from r6 obtain i7 w7 where s7: "stageContentItems cfg cl src i6 w6 = (Inr i7, w7)"
    and s8: "stageLanguageVariants cfg ith cl src i7 w7 = (Inr items, w')"
    by (rule bindIO_Inr_elim)
  from s1 obtain fs where fs: "i1 = map (widen OAssetFolder MAssetFolder) fs"
    "(assetFolders src = [] \<and> fs = [])
       \<or> (assetFolders src \<noteq> []
          \<and> (\<exists>resp. fst (addAssetFolders cl
              (map mapAssetFolder (setExternalIdForFolders (assetFolders src))) (server w))
                = Inr resp
             \<and> map imported fs = flattenFolderModels resp))"
    unfolding stageAssetFolders_def
    by (auto simp: returnIO_def elim!: bindIO_Inr_elim dest!: importAssetFoldersAsync_Inr
        split: if_splits)
  from s2 obtain ls where ls: "i2 = i1 @ map (widen OLanguage MLanguage) ls"
    "subseq (map original ls) (languages (importData src))"
    unfolding stageLanguages_def
    by (auto simp: returnIO_def elim!: bindIO_Inr_elim dest!: importLanguagesAsync_Inr
        split: if_splits)
  from s3 obtain ts where ts: "i3 = i2 @ map (widen OTaxonomy MTaxonomy) ts"
    "map original ts = taxonomies (importData src)"
    "map originalId ts = map (\<lambda>x. Some (tx_id x)) (taxonomies (importData src))"
    "\<forall>r\<in>set ts. importId r = Some (model_id (imported r))"
    unfolding stageTaxonomies_def
    by (auto simp: returnIO_def elim!: bindIO_Inr_elim dest!: importTaxonomiesAsync_Inr
        split: if_splits)
  from s4 have i4: "i4 = i3"
    unfolding stageContentTypeSnippets_def
    by (auto simp: returnIO_def elim!: bindIO_Inr_elim split: if_splits)
  from s5 have i5: "i5 = i4"
    unfolding stageContentTypes_def
    by (auto simp: returnIO_def elim!: bindIO_Inr_elim split: if_splits)
  from s6 obtain as where as: "i6 = i5 @ map (widen OAsset MAsset) as"
    "map original as = assets (importData src)"
    "map originalId as = map (\<lambda>x. Some (asset_id x)) (assets (importData src))"
    "\<forall>r\<in>set as. importId r = Some (am_id (imported r))"
    unfolding stageAssets_def importAssetsAsync_def
    by (auto simp: returnIO_def elim!: bindIO_Inr_elim dest!: importAssets_Inr
        split: if_splits)
  from s7 obtain cs where cs: "i7 = i6 @ map (widen OContentItem MContentItem) cs"
    "map original cs = contentItems (importData src)"
    "map originalId cs = map (\<lambda>x. Some (ci_id x)) (contentItems (importData src))"
    "\<forall>r\<in>set cs. importId r = Some (model_id (imported r))"
    unfolding stageContentItems_def
    by (auto simp: returnIO_def elim!: bindIO_Inr_elim dest!: importContentItemAsync_Inr
        split: if_splits)
  from s8 obtain vs where vs: "items = i7 @ map (widen OLanguageVariant MLanguageVariant) vs"
    "length vs = length (languageVariants (importData src))"
    unfolding stageLanguageVariants_def
    by (auto simp: returnIO_def elim!: bindIO_Inr_elim dest!: importLanguageVariantsAsync_Inr)
  show ?thesis
    using fs ls ts i4 i5 as cs vs by (intro exI[of _ fs] exI[of _ ls] exI[of _ ts]
        exI[of _ as] exI[of _ cs] exI[of _ vs]) simp
qed

subsection \<open>The order of the stages\<close>

lemma kindOf_widen [simp]:
  "kindOf (original (widen OAssetFolder MAssetFolder a)) = SAssetFolders"
  "kindOf (original (widen OLanguage MLanguage b)) = SLanguages"
  "kindOf (original (widen OTaxonomy MTaxonomy c)) = STaxonomies"
  "kindOf (original (widen OAsset MAsset d)) = SAssets"
  "kindOf (original (widen OContentItem MContentItem e)) = SContentItems"
  "kindOf (original (widen OLanguageVariant MLanguageVariant f)) = SLanguageVariants"
  by (simp_all add: widen_def)




subsection \<open>What the target answered\<close>

lemma answers_Nil_iff: "answers endpoint s [] ms s' = (ms = [] \<and> s' = s)"
  by (cases ms) auto

lemma answers_Cons_iff:
  "answers endpoint s (q # qs) ms s' =
     (\<exists>m s1 rest. ms = m # rest \<and> endpoint q s = (Inr m, s1) \<and> answers endpoint s1 qs rest s')"
  by (cases ms) (auto split: prod.splits sum.splits)

lemma answers_length: "answers endpoint s qs ms s' \<Longrightarrow> length ms = length qs"
  by (induction endpoint s qs ms s' rule: answers.induct) (auto split: prod.splits sum.splits)

lemma forEachAsync_answers:
  assumes run: "forEachAsync body xs w = (Inr rs, w')"
    and body: "\<And>x v r v'. body x v = (Inr r, v') \<Longrightarrow>
                 ok x \<and> (\<exists>m. endpoint (req x) (server v) = (Inr m, server v') \<and> r = [mk (x, m)])"
  shows "list_all ok xs
       \<and> (\<exists>ms. answers endpoint (server w) (map req xs) ms (server w')
                \<and> rs = map mk (zip xs ms))"
  using run
proof (induction xs arbitrary: w rs)
  case Nil
  then show ?case by (auto intro: exI[of _ "[]"])
next
  case (Cons x xs)
  from Cons.prems obtain r w1 rest where
    b: "body x w = (Inr r, w1)" and l: "forEachAsync body xs w1 = (Inr rest, w')"
    and rs: "rs = r @ rest"
    by (rule forEachAsync_Cons_Inr)
  from body[OF b] obtain m where one: "ok x" "endpoint (req x) (server w) = (Inr m, server w1)"
    "r = [mk (x, m)]"
    by blast
  from Cons.IH[OF l] obtain ms where ih: "list_all ok xs"
    "answers endpoint (server w1) (map req xs) ms (server w')" "rest = map mk (zip xs ms)"
    by blast
  show ?case
    using one ih rs by (auto intro: exI[of _ "m # ms"])
qed

lemma adds_no_language:
  "list_all (\<lambda>c. stageOf c \<noteq> SLanguages) cs \<Longrightarrow> addedLanguages cs = []"
  by (induction cs rule: addedLanguages.induct) auto

lemma addedLanguages_append:
  "addedLanguages (cs @ ds) = addedLanguages cs @ addedLanguages ds"
  by (induction cs rule: addedLanguages.induct) auto

lemma emitsOnly_adds_no_language:
  assumes "emitsOnly P m" and "\<And>c. P c \<Longrightarrow> stageOf c \<noteq> SLanguages"
  shows "addedLanguages (calls (snd (m w))) = addedLanguages (calls w)"
proof -
  from assms(1) obtain cs where cs: "calls (snd (m w)) = calls w @ cs" "list_all P cs"
    unfolding emitsOnly_def by blast
  from cs(2) assms(2) have "list_all (\<lambda>c. stageOf c \<noteq> SLanguages) cs"
    by (auto simp: list_all_iff)
  then show ?thesis unfolding cs(1) by (simp add: addedLanguages_append adds_no_language)
qed

subsection \<open>The answers to the requests of a loop\<close>

lemma importTaxonomiesAsync_answers:
  assumes "importTaxonomiesAsync cfg cl xs w = (Inr rs, w')"
  shows "\<exists>ms. answers (addTaxonomy cl) (server w) xs ms (server w')
           \<and> map (widen OTaxonomy MTaxonomy) rs = map taxonomyEntry (zip xs ms)"
proof -
  from assms have "list_all (\<lambda>x. True) xs
       \<and> (\<exists>ms. answers (addTaxonomy cl) (server w) (map (\<lambda>x. x) xs) ms (server w')
                \<and> rs = map (\<lambda>(x, m). \<lparr>imported = m, original = x,
                     importId = Some (model_id m), originalId = Some (tx_id x)\<rparr>) (zip xs ms))"
    unfolding importTaxonomiesAsync_def
    by (rule forEachAsync_answers)
       (auto simp: io_defs split: prod.splits sum.splits if_splits)
  then obtain ms where ms: "answers (addTaxonomy cl) (server w) xs ms (server w')"
    "rs = map (\<lambda>(x, m). \<lparr>imported = m, original = x,
                     importId = Some (model_id m), originalId = Some (tx_id x)\<rparr>) (zip xs ms)"
    by auto
  have "map (widen OTaxonomy MTaxonomy) rs = map taxonomyEntry (zip xs ms)"
    unfolding ms(2) by (auto simp: widen_def taxonomyEntry_def)
  with ms(1) show ?thesis by blast
qed

lemma importContentTypeSnippetsAsync_answers:
  assumes "importContentTypeSnippetsAsync cfg cl xs w = (Inr rs, w')"
  shows "\<exists>ms. answers (addContentTypeSnippet cl) (server w) (map snippetRequestOf xs) ms (server w')"
proof -
  from assms have "list_all (\<lambda>x. True) xs
       \<and> (\<exists>ms. answers (addContentTypeSnippet cl) (server w) (map snippetRequestOf xs) ms (server w')
                \<and> rs = map (\<lambda>(x, m). \<lparr>imported = m, original = x,
                     importId = Some (model_id m), originalId = Some (cts_id x)\<rparr>) (zip xs ms))"
    unfolding importContentTypeSnippetsAsync_def
    by (rule forEachAsync_answers)
       (auto simp: io_defs snippetRequestOf_def split: prod.splits sum.splits if_splits)
  then show ?thesis by blast
qed

lemma importContentTypesAsync_answers:
  assumes "importContentTypesAsync cfg cl xs w = (Inr rs, w')"
  shows "\<exists>ms. answers (addContentType cl) (server w) xs ms (server w')"
proof -
  from assms have "list_all (\<lambda>x. True) xs
       \<and> (\<exists>ms. answers (addContentType cl) (server w) (map (\<lambda>x. x) xs) ms (server w')
                \<and> rs = map (\<lambda>(x, m). \<lparr>imported = m, original = x,
                     importId = Some (model_id m), originalId = Some (ct_id x)\<rparr>) (zip xs ms))"
    unfolding importContentTypesAsync_def
    by (rule forEachAsync_answers)
       (auto simp: io_defs split: prod.splits sum.splits if_splits)
  then show ?thesis by auto
qed

lemma importContentItemAsync_answers:
  assumes "importContentItemAsync cfg cl xs w = (Inr rs, w')"
  shows "list_all (\<lambda>x. truthy (ref_codename (ci_type x))) xs
       \<and> (\<exists>ms. answers (addContentItem cl) (server w) (map itemRequestOf xs) ms (server w')
           \<and> map (widen OContentItem MContentItem) rs = map contentItemEntry (zip xs ms))"
proof -
  from assms have "list_all (\<lambda>x. truthy (ref_codename (ci_type x))) xs
       \<and> (\<exists>ms. answers (addContentItem cl) (server w) (map itemRequestOf xs) ms (server w')
                \<and> rs = map (\<lambda>(x, m). \<lparr>imported = m, original = x,
                     importId = Some (model_id m), originalId = Some (ci_id x)\<rparr>) (zip xs ms))"
    unfolding importContentItemAsync_def
    by (rule forEachAsync_answers)
       (auto simp: io_defs itemRequestOf_def split: prod.splits sum.splits if_splits)
  then obtain ms where ms: "answers (addContentItem cl) (server w) (map itemRequestOf xs) ms (server w')"
    "rs = map (\<lambda>(x, m). \<lparr>imported = m, original = x,
                     importId = Some (model_id m), originalId = Some (ci_id x)\<rparr>) (zip xs ms)"
    and ok: "list_all (\<lambda>x. truthy (ref_codename (ci_type x))) xs"
    by auto
  have "map (widen OContentItem MContentItem) rs = map contentItemEntry (zip xs ms)"
    unfolding ms(2) by (auto simp: widen_def contentItemEntry_def)
  with ms(1) ok show ?thesis by blast
qed

lemma importLanguageVariantsAsync_answers:
  assumes "importLanguageVariantsAsync cfg ith cl xs ledger w = (Inr rs, w')"
  shows "list_all (\<lambda>v. publishable v \<and> (\<exists>v'. newIds_languageVariant ith v ledger = Inr v')) xs
       \<and> (\<exists>ms. answers (upsertVariant cl ith ledger) (server w) xs ms (server w')
           \<and> map original rs = map (rewrittenVariant ith ledger) xs
           \<and> map (widen OLanguageVariant MLanguageVariant) rs
               = map (variantEntry ith ledger) (zip xs ms))"
proof -
  from assms have "list_all (\<lambda>v. publishable v \<and> (\<exists>v'. newIds_languageVariant ith v ledger = Inr v')) xs
       \<and> (\<exists>ms. answers (upsertVariant cl ith ledger) (server w) (map (\<lambda>x. x) xs) ms (server w')
                \<and> rs = map (\<lambda>(v, m). \<lparr>imported = m, original = rewrittenVariant ith ledger v,
                     importId = ref_id (lvm_item m),
                     originalId = ref_id (lv_item (rewrittenVariant ith ledger v))\<rparr>) (zip xs ms))"
    unfolding importLanguageVariantsAsync_def
    by (rule forEachAsync_answers)
       (auto simp: importOneLanguageVariant_def io_defs upsertVariant_def rewrittenVariant_def
          publishable_def split: prod.splits sum.splits if_splits)
  then obtain ms where ms: "answers (upsertVariant cl ith ledger) (server w) xs ms (server w')"
    "rs = map (\<lambda>(v, m). \<lparr>imported = m, original = rewrittenVariant ith ledger v,
                     importId = ref_id (lvm_item m),
                     originalId = ref_id (lv_item (rewrittenVariant ith ledger v))\<rparr>) (zip xs ms)"
    and ok: "list_all (\<lambda>v. publishable v \<and> (\<exists>v'. newIds_languageVariant ith v ledger = Inr v')) xs"
    by auto
  have l: "length ms = length xs" using answers_length[OF ms(1)] .
  have o: "map original rs = map (rewrittenVariant ith ledger) xs"
    unfolding ms(2) using l by (induction xs ms rule: list_induct2') auto
  have e: "map (widen OLanguageVariant MLanguageVariant) rs
               = map (variantEntry ith ledger) (zip xs ms)"
    unfolding ms(2) by (auto simp: widen_def variantEntry_def)
  from ok ms(1) o e show ?thesis by blast
qed

subsection \<open>The languages added\<close>

lemma emitsOnly_adds_nothing:
  assumes "emitsOnly P m" and "\<And>c. P c \<Longrightarrow> addedLanguages [c] = []"
  shows "addedLanguages (calls (snd (m w))) = addedLanguages (calls w)"
proof -
  from assms(1) obtain cs where cs: "calls (snd (m w)) = calls w @ cs" "list_all P cs"
    unfolding emitsOnly_def by blast
  from cs(2) have "addedLanguages cs = []"
  proof (induction cs)
    case Nil
    then show ?case by simp
  next
    case (Cons c cs)
    then have "addedLanguages ([c] @ cs) = []"
      unfolding addedLanguages_append using assms(2)[of c] by simp
    then show ?case by simp
  qed
  then show ?thesis unfolding cs(1) by (simp add: addedLanguages_append)
qed

lemma other_stage_adds_nothing:
  assumes "emitsOnly (\<lambda>c. stageOf c = k \<and> Q c) m" and "k \<noteq> SLanguages"
  shows "addedLanguages (calls (snd (m w))) = addedLanguages (calls w)"
proof (rule emitsOnly_adds_nothing[OF assms(1)])
  fix c assume "stageOf c = k \<and> Q c"
  with assms(2) show "addedLanguages [c] = []" by (cases c) auto
qed

lemma fixLanguageAsync_adds_nothing:
  "addedLanguages (calls (snd (fixLanguageAsync cl cur l w))) = addedLanguages (calls w)"
proof (rule emitsOnly_adds_nothing[where P="\<lambda>c. addedLanguages [c] = []"])
  show "emitsOnly (\<lambda>c. addedLanguages [c] = []) (fixLanguageAsync cl cur l)"
    unfolding fixLanguageAsync_def
    by (auto intro!: emitsOnly_intros split: option.splits)
qed simp

lemma tryGetLanguage_Inr:
  "tryGetLanguage cur l = Inr r \<Longrightarrow>
     (r = None \<and> find (\<lambda>m. lm_codename m = language_codename l) cur \<noteq> None)
     \<or> (r = Some (addLanguageRequestOf l)
         \<and> find (\<lambda>m. lm_codename m = language_codename l) cur = None)"
  by (auto simp: tryGetLanguage_def addLanguageRequestOf_def defaultLanguageId_def
      split: option.splits if_splits)

lemma language_continuation:
  assumes "(case tryGetLanguage cur l of
              Inl e \<Rightarrow> throwIO e
            | Inr None \<Rightarrow> returnIO (cur, [])
            | Inr (Some processedLanguageData) \<Rightarrow>
                bindIO (request (AddLanguage processedLanguageData)
                          (addLanguage cl processedLanguageData))
                  (\<lambda>response. bindIO
                     (processItem cfg (lm_name response) ALanguage (DataModel (MLanguage response)))
                     (\<lambda>_. returnIO (cur,
                        [\<lparr>imported = response, original = l,
                          importId = Some (lm_id response),
                          originalId = Some (language_id l)\<rparr>])))) v = (Inr (c2, pushed), w1)"
  shows "c2 = cur
       \<and> ((find (\<lambda>m. lm_codename m = language_codename l) cur \<noteq> None \<and> pushed = [] \<and> w1 = v)
          \<or> (find (\<lambda>m. lm_codename m = language_codename l) cur = None
              \<and> (\<exists>m. addLanguage cl (addLanguageRequestOf l) (server v) = (Inr m, server w1)
                     \<and> pushed = [\<lparr>imported = m, original = l, importId = Some (lm_id m),
                                    originalId = Some (language_id l)\<rparr>]
                     \<and> calls w1 = calls v @ [AddLanguage (addLanguageRequestOf l)])))"
proof (cases "tryGetLanguage cur l")
  case (Inl e)
  with assms show ?thesis by (simp add: throwIO_def)
next
  case (Inr r)
  from tryGetLanguage_Inr[OF Inr] show ?thesis
  proof
    assume "r = None \<and> find (\<lambda>m. lm_codename m = language_codename l) cur \<noteq> None"
    with assms Inr show ?thesis by (simp add: returnIO_def)
  next
    assume a: "r = Some (addLanguageRequestOf l)
         \<and> find (\<lambda>m. lm_codename m = language_codename l) cur = None"
    with assms Inr show ?thesis
      by (auto simp: io_defs split: prod.splits sum.splits if_splits)
  qed
qed

lemma importOneLanguage_step:
  assumes "importOneLanguage cfg cl cur l w = (Inr (cur', pushed), w1)"
  shows "(\<not> fixLanguages cfg \<longrightarrow> cur' = cur)
       \<and> ((find (\<lambda>m. lm_codename m = language_codename l) cur' \<noteq> None \<and> pushed = []
             \<and> addedLanguages (calls w1) = addedLanguages (calls w)
             \<and> (\<not> fixLanguages cfg \<longrightarrow> server w1 = server w))
          \<or> (find (\<lambda>m. lm_codename m = language_codename l) cur' = None
              \<and> (\<exists>m s. addLanguage cl (addLanguageRequestOf l) s = (Inr m, server w1)
                     \<and> (\<not> fixLanguages cfg \<longrightarrow> s = server w)
                     \<and> pushed = [\<lparr>imported = m, original = l, importId = Some (lm_id m),
                                    originalId = Some (language_id l)\<rparr>]
                     \<and> addedLanguages (calls w1)
                         = addedLanguages (calls w) @ [addLanguageRequestOf l])))"
proof -
  from assms obtain c v where
    first: "(if fixLanguages cfg
        then bindIO (fixLanguageAsync cl cur l) (\<lambda>_. request ListLanguages (listLanguages cl))
        else returnIO cur) w = (Inr c, v)"
    and rest: "(case tryGetLanguage c l of
              Inl e \<Rightarrow> throwIO e
            | Inr None \<Rightarrow> returnIO (c, [])
            | Inr (Some processedLanguageData) \<Rightarrow>
                bindIO (request (AddLanguage processedLanguageData)
                          (addLanguage cl processedLanguageData))
                  (\<lambda>response. bindIO
                     (processItem cfg (lm_name response) ALanguage (DataModel (MLanguage response)))
                     (\<lambda>_. returnIO (c,
                        [\<lparr>imported = response, original = l,
                          importId = Some (lm_id response),
                          originalId = Some (language_id l)\<rparr>])))) v = (Inr (cur', pushed), w1)"
    unfolding importOneLanguage_def by (rule bindIO_Inr_elim)
  note k = language_continuation[OF rest]
  have a: "addedLanguages (calls v) = addedLanguages (calls w)"
  proof (cases "fixLanguages cfg")
    case False
    with first show ?thesis by (simp add: returnIO_def)
  next
    case True
    with first obtain u va where f: "fixLanguageAsync cl cur l w = (Inr u, va)"
      and g: "request ListLanguages (listLanguages cl) va = (Inr c, v)"
      by (auto elim: bindIO_Inr_elim)
    from fixLanguageAsync_adds_nothing[of cl cur l w] f
    have "addedLanguages (calls va) = addedLanguages (calls w)" by simp
    moreover from g have "calls v = calls va @ [ListLanguages]"
      by (auto simp: request_def split: prod.splits)
    ultimately show ?thesis by (simp add: addedLanguages_append)
  qed
  have n: "\<not> fixLanguages cfg \<Longrightarrow> c = cur \<and> v = w"
    using first by (simp add: returnIO_def)
  from k have c: "cur' = c" by simp
  from k show ?thesis
    unfolding c using a n by (auto simp: addedLanguages_append)
qed

lemma importLanguagesLoop_added:
  assumes "importLanguagesLoop cfg cl cur xs w = (Inr rs, w')"
  shows "\<exists>added.
      rs = map (\<lambda>(l, m). \<lparr>imported = m, original = l, importId = Some (lm_id m),
                            originalId = Some (language_id l)\<rparr>) added
      \<and> subseq (map fst added) xs
      \<and> list_all (\<lambda>(l, m). \<exists>s t. addLanguage cl (addLanguageRequestOf l) s = (Inr m, t)) added
      \<and> addedLanguages (calls w')
          = addedLanguages (calls w) @ map (\<lambda>(l, m). addLanguageRequestOf l) added
      \<and> (\<not> fixLanguages cfg \<longrightarrow>
           map fst added
             = filter (\<lambda>l. find (\<lambda>m. lm_codename m = language_codename l) cur = None) xs
           \<and> answers (addLanguage cl) (server w)
               (map (\<lambda>(l, m). addLanguageRequestOf l) added) (map snd added) (server w'))"
  using assms
proof (induction xs arbitrary: cur w rs)
  case Nil
  then show ?case by (auto intro: exI[of _ "[]"])
next
  case (Cons x xs)
  from Cons.prems obtain cur' pushed w1 others where
    b: "importOneLanguage cfg cl cur x w = (Inr (cur', pushed), w1)"
    and l: "importLanguagesLoop cfg cl cur' xs w1 = (Inr others, w')"
    and rs: "rs = pushed @ others"
    by (auto split: prod.splits sum.splits)
  from Cons.IH[OF l] obtain added where ih:
    "others = map (\<lambda>(l, m). \<lparr>imported = m, original = l, importId = Some (lm_id m),
                            originalId = Some (language_id l)\<rparr>) added"
    "subseq (map fst added) xs"
    "list_all (\<lambda>(l, m). \<exists>s t. addLanguage cl (addLanguageRequestOf l) s = (Inr m, t)) added"
    "addedLanguages (calls w')
          = addedLanguages (calls w1) @ map (\<lambda>(l, m). addLanguageRequestOf l) added"
    "\<not> fixLanguages cfg \<longrightarrow>
           map fst added
             = filter (\<lambda>l. find (\<lambda>m. lm_codename m = language_codename l) cur' = None) xs
           \<and> answers (addLanguage cl) (server w1)
               (map (\<lambda>(l, m). addLanguageRequestOf l) added) (map snd added) (server w')"
    by blast
  note step = importOneLanguage_step[OF b]
  from step have same: "\<not> fixLanguages cfg \<longrightarrow> cur' = cur" by simp
  from step consider
    (skip) "find (\<lambda>m. lm_codename m = language_codename x) cur' \<noteq> None" "pushed = []"
      "addedLanguages (calls w1) = addedLanguages (calls w)"
      "\<not> fixLanguages cfg \<longrightarrow> server w1 = server w"
    | (add) m s where "find (\<lambda>m. lm_codename m = language_codename x) cur' = None"
      "addLanguage cl (addLanguageRequestOf x) s = (Inr m, server w1)"
      "\<not> fixLanguages cfg \<longrightarrow> s = server w"
      "pushed = [\<lparr>imported = m, original = x, importId = Some (lm_id m),
                                    originalId = Some (language_id x)\<rparr>]"
      "addedLanguages (calls w1) = addedLanguages (calls w) @ [addLanguageRequestOf x]"
    by blast
  then show ?case
  proof cases
    case skip
    show ?thesis
      apply (rule exI[of _ added])
      using skip ih rs same by (auto simp: subseq_Cons')
  next
    case add
    show ?thesis
      apply (rule exI[of _ "(x, m) # added"])
      using add ih rs same by auto
  qed
qed

lemma importLanguagesAsync_added:
  assumes "importLanguagesAsync cfg cl xs w = (Inr rs, w')"
  shows "\<exists>added.
      map (widen OLanguage MLanguage) rs = map languageEntry added
      \<and> subseq (map fst added) xs
      \<and> list_all (\<lambda>(l, m). \<exists>s t. addLanguage cl (addLanguageRequestOf l) s = (Inr m, t)) added
      \<and> addedLanguages (calls w')
          = addedLanguages (calls w) @ map (\<lambda>(l, m). addLanguageRequestOf l) added
      \<and> (\<not> fixLanguages cfg \<longrightarrow>
           (\<exists>current sl. listLanguages cl (server w) = (Inr current, sl)
              \<and> map fst added
                  = filter (\<lambda>l. find (\<lambda>m. lm_codename m = language_codename l) current = None) xs
              \<and> answers (addLanguage cl) sl
                  (map (\<lambda>(l, m). addLanguageRequestOf l) added) (map snd added) (server w')))"
proof -
  from assms obtain cur v where
    q: "request ListLanguages (listLanguages cl) w = (Inr cur, v)"
    and l: "importLanguagesLoop cfg cl cur xs v = (Inr rs, w')"
    unfolding importLanguagesAsync_def by (rule bindIO_Inr_elim)
  from q have v: "listLanguages cl (server w) = (Inr cur, server v)"
    "calls v = calls w @ [ListLanguages]"
    by (auto simp: request_def split: prod.splits)
  from importLanguagesLoop_added[OF l] obtain added where ad:
    "rs = map (\<lambda>(l, m). \<lparr>imported = m, original = l, importId = Some (lm_id m),
                            originalId = Some (language_id l)\<rparr>) added"
    "subseq (map fst added) xs"
    "list_all (\<lambda>(l, m). \<exists>s t. addLanguage cl (addLanguageRequestOf l) s = (Inr m, t)) added"
    "addedLanguages (calls w')
          = addedLanguages (calls v) @ map (\<lambda>(l, m). addLanguageRequestOf l) added"
    "\<not> fixLanguages cfg \<longrightarrow>
           map fst added
             = filter (\<lambda>l. find (\<lambda>m. lm_codename m = language_codename l) cur = None) xs
           \<and> answers (addLanguage cl) (server v)
               (map (\<lambda>(l, m). addLanguageRequestOf l) added) (map snd added) (server w')"
    by blast
  have e: "map (widen OLanguage MLanguage) rs = map languageEntry added"
    unfolding ad(1) by (auto simp: widen_def languageEntry_def)
  have c: "addedLanguages (calls w')
          = addedLanguages (calls w) @ map (\<lambda>(l, m). addLanguageRequestOf l) added"
    unfolding ad(4) v(2) by (simp add: addedLanguages_append)
  show ?thesis
    apply (rule exI[of _ added])
    using e ad(2) ad(3) c ad(5) v(1) by blast
qed

subsection \<open>The entries of the folders\<close>

lemma flatten_folderEntries:
  "flattenAssetFolders resp originalItems = Inr entries \<Longrightarrow>
     map (widen OAssetFolder MAssetFolder) entries = folderEntries originalItems resp
     \<and> list_all (\<lambda>m. find (\<lambda>c. folder_external_id c = afm_externalId m) originalItems \<noteq> None)
          (flattenFolderModels resp)"
proof (induction resp arbitrary: entries rule: flattenFolderModels.induct)
  case 1
  then show ?case by (simp add: folderEntries_def)
next
  case (2 i n x sub rest)
  from "2.prems" show ?case
    unfolding flattenAssetFolders_Cons
    by (auto split: option.splits sum.splits dest!: "2.IH"
        simp: folderEntries_def folderEntry_def widen_def)
qed

lemma importAssetFoldersAsync_entries:
  assumes "importAssetFoldersAsync cfg cl fs w = (Inr entries, w')"
  shows "\<exists>resp. addAssetFolders cl (map mapAssetFolder (setExternalIdForFolders fs)) (server w)
                  = (Inr resp, server w')
           \<and> flattenAssetFolders resp (flattenAssetFolderContracts (setExternalIdForFolders fs))
                = Inr entries"
proof -
  let ?req = "map mapAssetFolder (setExternalIdForFolders fs)"
  from assms obtain resp w1 where
    r: "request (AddAssetFolders ?req) (addAssetFolders cl ?req) w = (Inr resp, w1)"
    and k: "(case flattenAssetFolders resp (flattenAssetFolderContracts (setExternalIdForFolders fs)) of
          Inl e \<Rightarrow> throwIO e
        | Inr importedFlattenedFolders \<Rightarrow>
            forEachAsync
              (\<lambda>flattenedFolder. bindIO
                 (processItem cfg (afm_name (imported flattenedFolder)) AAssetFolder
                    (DataModel (MAssetFolder (imported flattenedFolder))))
                 (\<lambda>_. returnIO [flattenedFolder]))
              importedFlattenedFolders) w1 = (Inr entries, w')"
    unfolding importAssetFoldersAsync_def Let_def by (rule bindIO_Inr_elim)
  from r have a: "addAssetFolders cl ?req (server w) = (Inr resp, server w1)"
    by (auto simp: request_def split: prod.splits)
  from k obtain flat where f: "flattenAssetFolders resp
        (flattenAssetFolderContracts (setExternalIdForFolders fs)) = Inr flat"
    by (auto simp: throwIO_def split: sum.splits)
  from k f notify_folders[of cfg flat w1] have "entries = flat \<and> server w' = server w1" by auto
  with f a show ?thesis by auto
qed

subsection \<open>The entries of each stage\<close>

lemma stageAssetFolders_entries:
  assumes "stageAssetFolders cfg cl src [] w = (Inr items', w')"
  shows "\<exists>resp.
      ((assetFolders src = [] \<and> resp = [] \<and> server w' = server w)
       \<or> (assetFolders src \<noteq> []
           \<and> addAssetFolders cl (map mapAssetFolder (setExternalIdForFolders (assetFolders src)))
                (server w) = (Inr resp, server w')))
      \<and> list_all (\<lambda>m. find (\<lambda>c. folder_external_id c = afm_externalId m)
                        (flattenAssetFolderContracts (setExternalIdForFolders (assetFolders src)))
                      \<noteq> None)
           (flattenFolderModels resp)
      \<and> items' = folderEntries
           (flattenAssetFolderContracts (setExternalIdForFolders (assetFolders src))) resp"
proof (cases "assetFolders src = []")
  case True
  with assms show ?thesis
    by (auto simp: stageAssetFolders_def returnIO_def folderEntries_def intro!: exI[of _ "[]"])
next
  case False
  with assms obtain entries v where
    i: "importAssetFoldersAsync cfg cl (assetFolders src) w = (Inr entries, v)"
    and r: "returnIO ([] @ map (widen OAssetFolder MAssetFolder) entries) v = (Inr items', w')"
    unfolding stageAssetFolders_def by (auto elim: bindIO_Inr_elim)
  from r have e: "items' = map (widen OAssetFolder MAssetFolder) entries" "w' = v"
    by (simp_all add: returnIO_def)
  from importAssetFoldersAsync_entries[OF i] obtain resp where resp:
    "addAssetFolders cl (map mapAssetFolder (setExternalIdForFolders (assetFolders src))) (server w)
       = (Inr resp, server v)"
    "flattenAssetFolders resp
       (flattenAssetFolderContracts (setExternalIdForFolders (assetFolders src))) = Inr entries"
    by blast
  from flatten_folderEntries[OF resp(2)] resp(1) False e show ?thesis
    by (intro exI[of _ resp]) simp
qed

lemma stageLanguages_entries:
  assumes "stageLanguages cfg cl src items w = (Inr items', w')"
  shows "\<exists>added.
      items' = items @ map languageEntry added
      \<and> subseq (map fst added) (languages (importData src))
      \<and> list_all (\<lambda>(l, m). \<exists>s t. addLanguage cl (addLanguageRequestOf l) s = (Inr m, t)) added
      \<and> addedLanguages (calls w')
          = addedLanguages (calls w) @ map (\<lambda>(l, m). addLanguageRequestOf l) added
      \<and> (languages (importData src) = [] \<longrightarrow> server w' = server w)
      \<and> (languages (importData src) \<noteq> [] \<and> \<not> fixLanguages cfg \<longrightarrow>
           (\<exists>current sl. listLanguages cl (server w) = (Inr current, sl)
              \<and> map fst added
                  = filter (\<lambda>l. find (\<lambda>m. lm_codename m = language_codename l) current = None)
                      (languages (importData src))
              \<and> answers (addLanguage cl) sl
                  (map (\<lambda>(l, m). addLanguageRequestOf l) added) (map snd added) (server w')))"
proof (cases "languages (importData src) = []")
  case True
  with assms show ?thesis
    by (auto simp: stageLanguages_def returnIO_def intro!: exI[of _ "[]"])
next
  case False
  with assms obtain rs v where
    i: "importLanguagesAsync cfg cl (languages (importData src)) w = (Inr rs, v)"
    and r: "returnIO (items @ map (widen OLanguage MLanguage) rs) v = (Inr items', w')"
    unfolding stageLanguages_def by (auto elim: bindIO_Inr_elim)
  from r have e: "items' = items @ map (widen OLanguage MLanguage) rs" "w' = v"
    by (simp_all add: returnIO_def)
  from importLanguagesAsync_added[OF i] obtain added where ad:
    "map (widen OLanguage MLanguage) rs = map languageEntry added"
    "subseq (map fst added) (languages (importData src))"
    "list_all (\<lambda>(l, m). \<exists>s t. addLanguage cl (addLanguageRequestOf l) s = (Inr m, t)) added"
    "addedLanguages (calls v)
          = addedLanguages (calls w) @ map (\<lambda>(l, m). addLanguageRequestOf l) added"
    "\<not> fixLanguages cfg \<longrightarrow>
           (\<exists>current sl. listLanguages cl (server w) = (Inr current, sl)
              \<and> map fst added
                  = filter (\<lambda>l. find (\<lambda>m. lm_codename m = language_codename l) current = None)
                      (languages (importData src))
              \<and> answers (addLanguage cl) sl
                  (map (\<lambda>(l, m). addLanguageRequestOf l) added) (map snd added) (server v))"
    by blast
  show ?thesis
    apply (rule exI[of _ added])
    using ad e False by simp
qed

lemma stageTaxonomies_entries:
  assumes "stageTaxonomies cfg cl src items w = (Inr items', w')"
  shows "\<exists>ms. answers (addTaxonomy cl) (server w) (taxonomies (importData src)) ms (server w')
           \<and> items' = items @ map taxonomyEntry (zip (taxonomies (importData src)) ms)"
proof (cases "taxonomies (importData src) = []")
  case True
  with assms show ?thesis
    by (auto simp: stageTaxonomies_def returnIO_def intro!: exI[of _ "[]"])
next
  case False
  with assms obtain rs v where
    i: "importTaxonomiesAsync cfg cl (taxonomies (importData src)) w = (Inr rs, v)"
    and r: "returnIO (items @ map (widen OTaxonomy MTaxonomy) rs) v = (Inr items', w')"
    unfolding stageTaxonomies_def by (auto elim: bindIO_Inr_elim)
  from r have e: "items' = items @ map (widen OTaxonomy MTaxonomy) rs" "w' = v"
    by (simp_all add: returnIO_def)
  from importTaxonomiesAsync_answers[OF i] e show ?thesis by auto
qed

lemma stageContentTypeSnippets_entries:
  assumes "stageContentTypeSnippets cfg cl src items w = (Inr items', w')"
  shows "\<exists>ms. answers (addContentTypeSnippet cl) (server w)
                 (map snippetRequestOf (contentTypeSnippets (importData src))) ms (server w')
           \<and> items' = items"
proof (cases "contentTypeSnippets (importData src) = []")
  case True
  with assms show ?thesis
    by (auto simp: stageContentTypeSnippets_def returnIO_def intro!: exI[of _ "[]"])
next
  case False
  with assms obtain rs v where
    i: "importContentTypeSnippetsAsync cfg cl (contentTypeSnippets (importData src)) w = (Inr rs, v)"
    and r: "returnIO items v = (Inr items', w')"
    unfolding stageContentTypeSnippets_def by (auto elim: bindIO_Inr_elim)
  from r have e: "items' = items" "w' = v"
    by (simp_all add: returnIO_def)
  from importContentTypeSnippetsAsync_answers[OF i] e show ?thesis by auto
qed

lemma stageContentTypes_entries:
  assumes "stageContentTypes cfg cl src items w = (Inr items', w')"
  shows "\<exists>ms. answers (addContentType cl) (server w) (contentTypes (importData src)) ms (server w')
           \<and> items' = items"
proof (cases "contentTypes (importData src) = []")
  case True
  with assms show ?thesis
    by (auto simp: stageContentTypes_def returnIO_def intro!: exI[of _ "[]"])
next
  case False
  with assms obtain rs v where
    i: "importContentTypesAsync cfg cl (contentTypes (importData src)) w = (Inr rs, v)"
    and r: "returnIO items v = (Inr items', w')"
    unfolding stageContentTypes_def by (auto elim: bindIO_Inr_elim)
  from r have e: "items' = items" "w' = v"
    by (simp_all add: returnIO_def)
  from importContentTypesAsync_answers[OF i] e show ?thesis by auto
qed

lemma stageAssets_entries:
  assumes "stageAssets cfg ith cl src items w = (Inr items', w')"
  shows "\<exists>created. assetsCreated cl ith items (binaryFiles src) (server w)
                      (assets (importData src)) created (server w')
           \<and> items' = items @ map assetEntry (zip (assets (importData src)) created)"
proof (cases "assets (importData src) = []")
  case True
  with assms show ?thesis
    by (auto simp: stageAssets_def returnIO_def intro!: exI[of _ "[]"])
next
  case False
  with assms obtain rs v where
    i: "forEachAsync (importOneAsset cfg ith cl (binaryFiles src) items)
          (assets (importData src)) w = (Inr rs, v)"
    and r: "returnIO (items @ map (widen OAsset MAsset) rs) v = (Inr items', w')"
    unfolding stageAssets_def importAssetsAsync_def by (auto elim: bindIO_Inr_elim)
  from r have e: "items' = items @ map (widen OAsset MAsset) rs" "w' = v"
    by (simp_all add: returnIO_def)
  from importAssets_created[OF i] obtain created where c:
    "assetsCreated cl ith items (binaryFiles src) (server w) (assets (importData src)) created
       (server v)"
    "rs = map assetResult (zip (assets (importData src)) created)"
    by blast
  have "map (widen OAsset MAsset) rs = map assetEntry (zip (assets (importData src)) created)"
    unfolding c(2) by (auto simp: widen_def assetResult_def assetEntry_def)
  with c(1) e show ?thesis by auto
qed

lemma stageContentItems_entries:
  assumes "stageContentItems cfg cl src items w = (Inr items', w')"
  shows "\<exists>ms. answers (addContentItem cl) (server w)
                 (map itemRequestOf (contentItems (importData src))) ms (server w')
           \<and> items' = items @ map contentItemEntry (zip (contentItems (importData src)) ms)"
proof (cases "contentItems (importData src) = []")
  case True
  with assms show ?thesis
    by (auto simp: stageContentItems_def returnIO_def intro!: exI[of _ "[]"])
next
  case False
  with assms obtain rs v where
    i: "importContentItemAsync cfg cl (contentItems (importData src)) w = (Inr rs, v)"
    and r: "returnIO (items @ map (widen OContentItem MContentItem) rs) v = (Inr items', w')"
    unfolding stageContentItems_def by (auto elim: bindIO_Inr_elim)
  from r have e: "items' = items @ map (widen OContentItem MContentItem) rs" "w' = v"
    by (simp_all add: returnIO_def)
  from importContentItemAsync_answers[OF i] e show ?thesis by auto
qed

lemma stageLanguageVariants_entries:
  assumes "stageLanguageVariants cfg ith cl src items w = (Inr items', w')"
  shows "list_all (\<lambda>v. publishable v \<and> (\<exists>v'. newIds_languageVariant ith v items = Inr v'))
           (languageVariants (importData src))
       \<and> (\<exists>ms s. answers (upsertVariant cl ith items) (server w)
                    (languageVariants (importData src)) ms s
              \<and> items' = items @ map (variantEntry ith items)
                                    (zip (languageVariants (importData src)) ms))"
proof -
  from assms obtain rs v where
    i: "importLanguageVariantsAsync cfg ith cl (languageVariants (importData src)) items w
          = (Inr rs, v)"
    and k: "bindIO
            (if enablePublish cfg
             then publishLanguageVariantsAsync cfg cl (map original rs)
                    (workflowSteps (importData src))
             else returnIO ())
            (\<lambda>_. bindIO
               (if truthy (workflowIdForImportedItems cfg)
                then moveLanguageVariantsToCustomWorkflowStepAsync cfg cl
                       (the (workflowIdForImportedItems cfg))
                       (map original rs)
                else returnIO ())
               (\<lambda>_. returnIO
                  (items @ map (widen OLanguageVariant MLanguageVariant) rs))) v = (Inr items', w')"
    unfolding stageLanguageVariants_def by (rule bindIO_Inr_elim)
  from k have e: "items' = items @ map (widen OLanguageVariant MLanguageVariant) rs"
    by (auto simp: returnIO_def elim!: bindIO_Inr_elim)
  from importLanguageVariantsAsync_answers[OF i] e show ?thesis by auto
qed

lemma variants_stage_adds_nothing:
  "addedLanguages (calls (snd (stageLanguageVariants cfg ith cl src items w)))
     = addedLanguages (calls w)"
proof -
  from stageLanguageVariants_runsFrom[of cfg src ith cl items]
  obtain cs where cs: "calls (snd (stageLanguageVariants cfg ith cl src items w)) = calls w @ cs"
    "list_all (\<lambda>c. 7 \<le> stageRank (stageOf c) \<and> stageActive cfg src (stageOf c)) cs"
    unfolding runsFrom_def by blast
  have "list_all (\<lambda>c. stageOf c \<noteq> SLanguages) cs"
    using cs(2) by (auto simp: list_all_iff)
  then show ?thesis unfolding cs(1) by (simp add: addedLanguages_append adds_no_language)
qed

lemma runStages_entries:
  assumes "runStages cfg ith cl src w = (Inr items, w')"
  shows "\<exists>resp added tms sms cms created ims vms s1 s2 s3 s4 s5 s6 s7 s8 fes les tes aes ces ves.
      items = fes @ les @ tes @ aes @ ces @ ves
    \<and> fes = folderEntries
        (flattenAssetFolderContracts (setExternalIdForFolders (assetFolders src))) resp
    \<and> ((assetFolders src = [] \<and> resp = [] \<and> s1 = server w)
       \<or> (assetFolders src \<noteq> []
           \<and> addAssetFolders cl (map mapAssetFolder (setExternalIdForFolders (assetFolders src)))
                (server w) = (Inr resp, s1)))
    \<and> list_all (\<lambda>m. find (\<lambda>c. folder_external_id c = afm_externalId m)
                        (flattenAssetFolderContracts (setExternalIdForFolders (assetFolders src)))
                      \<noteq> None)
           (flattenFolderModels resp)
    \<and> les = map languageEntry added
    \<and> subseq (map fst added) (languages (importData src))
    \<and> list_all (\<lambda>(l, m). \<exists>s t. addLanguage cl (addLanguageRequestOf l) s = (Inr m, t)) added
    \<and> addedLanguages (calls w')
          = addedLanguages (calls w) @ map (\<lambda>(l, m). addLanguageRequestOf l) added
    \<and> (languages (importData src) = [] \<longrightarrow> s2 = s1)
    \<and> (languages (importData src) \<noteq> [] \<and> \<not> fixLanguages cfg \<longrightarrow>
           (\<exists>current sl. listLanguages cl s1 = (Inr current, sl)
              \<and> map fst added
                  = filter (\<lambda>l. find (\<lambda>m. lm_codename m = language_codename l) current = None)
                      (languages (importData src))
              \<and> answers (addLanguage cl) sl
                  (map (\<lambda>(l, m). addLanguageRequestOf l) added) (map snd added) s2))
    \<and> answers (addTaxonomy cl) s2 (taxonomies (importData src)) tms s3
    \<and> tes = map taxonomyEntry (zip (taxonomies (importData src)) tms)
    \<and> answers (addContentTypeSnippet cl) s3
        (map snippetRequestOf (contentTypeSnippets (importData src))) sms s4
    \<and> answers (addContentType cl) s4 (contentTypes (importData src)) cms s5
    \<and> assetsCreated cl ith (fes @ les @ tes) (binaryFiles src) s5 (assets (importData src))
        created s6
    \<and> aes = map assetEntry (zip (assets (importData src)) created)
    \<and> answers (addContentItem cl) s6 (map itemRequestOf (contentItems (importData src))) ims s7
    \<and> ces = map contentItemEntry (zip (contentItems (importData src)) ims)
    \<and> list_all (\<lambda>v. publishable v
                    \<and> (\<exists>v'. newIds_languageVariant ith v (fes @ les @ tes @ aes @ ces) = Inr v'))
        (languageVariants (importData src))
    \<and> answers (upsertVariant cl ith (fes @ les @ tes @ aes @ ces)) s7
        (languageVariants (importData src)) vms s8
    \<and> ves = map (variantEntry ith (fes @ les @ tes @ aes @ ces))
              (zip (languageVariants (importData src)) vms)"
proof -
  from assms obtain i1 w1 where s1: "stageAssetFolders cfg cl src [] w = (Inr i1, w1)"
    and r1: "bindIO (stageLanguages cfg cl src i1)
       (\<lambda>items2. bindIO (stageTaxonomies cfg cl src items2)
       (\<lambda>items3. bindIO (stageContentTypeSnippets cfg cl src items3)
       (\<lambda>items4. bindIO (stageContentTypes cfg cl src items4)
       (\<lambda>items5. bindIO (stageAssets cfg ith cl src items5)
       (\<lambda>items6. bindIO (stageContentItems cfg cl src items6)
       (\<lambda>items7. stageLanguageVariants cfg ith cl src items7)))))) w1 = (Inr items, w')"
    unfolding runStages_def by (rule bindIO_Inr_elim)
  from r1 obtain i2 w2 where s2: "stageLanguages cfg cl src i1 w1 = (Inr i2, w2)"
    and r2: "bindIO (stageTaxonomies cfg cl src i2)
       (\<lambda>items3. bindIO (stageContentTypeSnippets cfg cl src items3)
       (\<lambda>items4. bindIO (stageContentTypes cfg cl src items4)
       (\<lambda>items5. bindIO (stageAssets cfg ith cl src items5)
       (\<lambda>items6. bindIO (stageContentItems cfg cl src items6)
       (\<lambda>items7. stageLanguageVariants cfg ith cl src items7))))) w2 = (Inr items, w')"
    by (rule bindIO_Inr_elim)
  from r2 obtain i3 w3 where s3: "stageTaxonomies cfg cl src i2 w2 = (Inr i3, w3)"
    and r3: "bindIO (stageContentTypeSnippets cfg cl src i3)
       (\<lambda>items4. bindIO (stageContentTypes cfg cl src items4)
       (\<lambda>items5. bindIO (stageAssets cfg ith cl src items5)
       (\<lambda>items6. bindIO (stageContentItems cfg cl src items6)
       (\<lambda>items7. stageLanguageVariants cfg ith cl src items7)))) w3 = (Inr items, w')"
    by (rule bindIO_Inr_elim)
  from r3 obtain i4 w4 where s4: "stageContentTypeSnippets cfg cl src i3 w3 = (Inr i4, w4)"
    and r4: "bindIO (stageContentTypes cfg cl src i4)
       (\<lambda>items5. bindIO (stageAssets cfg ith cl src items5)
       (\<lambda>items6. bindIO (stageContentItems cfg cl src items6)
       (\<lambda>items7. stageLanguageVariants cfg ith cl src items7))) w4 = (Inr items, w')"
    by (rule bindIO_Inr_elim)
  from r4 obtain i5 w5 where s5: "stageContentTypes cfg cl src i4 w4 = (Inr i5, w5)"
    and r5: "bindIO (stageAssets cfg ith cl src i5)
       (\<lambda>items6. bindIO (stageContentItems cfg cl src items6)
       (\<lambda>items7. stageLanguageVariants cfg ith cl src items7)) w5 = (Inr items, w')"
    by (rule bindIO_Inr_elim)
  from r5 obtain i6 w6 where s6: "stageAssets cfg ith cl src i5 w5 = (Inr i6, w6)"
    and r6: "bindIO (stageContentItems cfg cl src i6)
       (\<lambda>items7. stageLanguageVariants cfg ith cl src items7) w6 = (Inr items, w')"
    by (rule bindIO_Inr_elim)
  from r6 obtain i7 w7 where s7: "stageContentItems cfg cl src i6 w6 = (Inr i7, w7)"
    and s8: "stageLanguageVariants cfg ith cl src i7 w7 = (Inr items, w')"
    by (rule bindIO_Inr_elim)
  let ?orig = "flattenAssetFolderContracts (setExternalIdForFolders (assetFolders src))"
  from stageAssetFolders_entries[OF s1] obtain resp where f:
    "(assetFolders src = [] \<and> resp = [] \<and> server w1 = server w)
       \<or> (assetFolders src \<noteq> []
           \<and> addAssetFolders cl (map mapAssetFolder (setExternalIdForFolders (assetFolders src)))
                (server w) = (Inr resp, server w1))"
    "list_all (\<lambda>m. find (\<lambda>c. folder_external_id c = afm_externalId m) ?orig \<noteq> None)
           (flattenFolderModels resp)"
    "i1 = folderEntries ?orig resp"
    by blast
  from stageLanguages_entries[OF s2] obtain added where l:
    "i2 = i1 @ map languageEntry added"
    "subseq (map fst added) (languages (importData src))"
    "list_all (\<lambda>(l, m). \<exists>s t. addLanguage cl (addLanguageRequestOf l) s = (Inr m, t)) added"
    "addedLanguages (calls w2)
          = addedLanguages (calls w1) @ map (\<lambda>(l, m). addLanguageRequestOf l) added"
    "languages (importData src) = [] \<longrightarrow> server w2 = server w1"
    "languages (importData src) \<noteq> [] \<and> \<not> fixLanguages cfg \<longrightarrow>
           (\<exists>current sl. listLanguages cl (server w1) = (Inr current, sl)
              \<and> map fst added
                  = filter (\<lambda>l. find (\<lambda>m. lm_codename m = language_codename l) current = None)
                      (languages (importData src))
              \<and> answers (addLanguage cl) sl
                  (map (\<lambda>(l, m). addLanguageRequestOf l) added) (map snd added) (server w2))"
    by blast
  from stageTaxonomies_entries[OF s3] obtain tms where t:
    "answers (addTaxonomy cl) (server w2) (taxonomies (importData src)) tms (server w3)"
    "i3 = i2 @ map taxonomyEntry (zip (taxonomies (importData src)) tms)"
    by blast
  from stageContentTypeSnippets_entries[OF s4] obtain sms where sn:
    "answers (addContentTypeSnippet cl) (server w3)
        (map snippetRequestOf (contentTypeSnippets (importData src))) sms (server w4)"
    "i4 = i3"
    by blast
  from stageContentTypes_entries[OF s5] obtain cms where ct:
    "answers (addContentType cl) (server w4) (contentTypes (importData src)) cms (server w5)"
    "i5 = i4"
    by blast
  from stageAssets_entries[OF s6] obtain created where a:
    "assetsCreated cl ith i5 (binaryFiles src) (server w5) (assets (importData src)) created
       (server w6)"
    "i6 = i5 @ map assetEntry (zip (assets (importData src)) created)"
    by blast
  from stageContentItems_entries[OF s7] obtain ims where c:
    "answers (addContentItem cl) (server w6) (map itemRequestOf (contentItems (importData src)))
       ims (server w7)"
    "i7 = i6 @ map contentItemEntry (zip (contentItems (importData src)) ims)"
    by blast
  from stageLanguageVariants_entries[OF s8] obtain vms s where v:
    "list_all (\<lambda>v. publishable v \<and> (\<exists>v'. newIds_languageVariant ith v i7 = Inr v'))
           (languageVariants (importData src))"
    "answers (upsertVariant cl ith i7) (server w7) (languageVariants (importData src)) vms s"
    "items = i7 @ map (variantEntry ith i7) (zip (languageVariants (importData src)) vms)"
    by blast
  have n1: "addedLanguages (calls w1) = addedLanguages (calls w)"
    using other_stage_adds_nothing[OF stageAssetFolders_emits[of cfg src cl "[]"], where w=w] s1 by simp
  have n3: "addedLanguages (calls w3) = addedLanguages (calls w2)"
    using other_stage_adds_nothing[OF stageTaxonomies_emits[of cfg src cl i2], where w=w2] s3 by simp
  have n4: "addedLanguages (calls w4) = addedLanguages (calls w3)"
    using other_stage_adds_nothing[OF stageContentTypeSnippets_emits[of cfg src cl i3], where w=w3] s4
    by simp
  have n5: "addedLanguages (calls w5) = addedLanguages (calls w4)"
    using other_stage_adds_nothing[OF stageContentTypes_emits[of cfg src cl i4], where w=w4] s5 by simp
  have n6: "addedLanguages (calls w6) = addedLanguages (calls w5)"
    using other_stage_adds_nothing[OF stageAssets_emits[of cfg src ith cl i5], where w=w5] s6 by simp
  have n7: "addedLanguages (calls w7) = addedLanguages (calls w6)"
    using other_stage_adds_nothing[OF stageContentItems_emits[of cfg src cl i6], where w=w6] s7 by simp
  have n8: "addedLanguages (calls w') = addedLanguages (calls w7)"
    using variants_stage_adds_nothing[of cfg ith cl src i7 w7] s8 by simp
  have calls: "addedLanguages (calls w')
          = addedLanguages (calls w) @ map (\<lambda>(l, m). addLanguageRequestOf l) added"
    by (simp only: n8 n7 n6 n5 n4 n3 l(4) n1)
  define fes where "fes = folderEntries ?orig resp"
  define les where "les = map languageEntry added"
  define tes where "tes = map taxonomyEntry (zip (taxonomies (importData src)) tms)"
  define aes where "aes = map assetEntry (zip (assets (importData src)) created)"
  define ces where "ces = map contentItemEntry (zip (contentItems (importData src)) ims)"
  define ves where "ves = map (variantEntry ith (fes @ les @ tes @ aes @ ces))
              (zip (languageVariants (importData src)) vms)"
  have i5: "i5 = fes @ les @ tes"
    by (simp add: ct(2) sn(2) t(2) l(1) f(3) fes_def les_def tes_def)
  have i7: "i7 = fes @ les @ tes @ aes @ ces"
    by (simp add: c(2) a(2) i5 aes_def ces_def)
  have items: "items = fes @ les @ tes @ aes @ ces @ ves"
    by (simp add: v(3) i7 ves_def)
  show ?thesis
    apply (rule exI[of _ resp], rule exI[of _ added], rule exI[of _ tms], rule exI[of _ sms],
        rule exI[of _ cms], rule exI[of _ created], rule exI[of _ ims], rule exI[of _ vms],
        rule exI[of _ "server w1"], rule exI[of _ "server w2"], rule exI[of _ "server w3"],
        rule exI[of _ "server w4"], rule exI[of _ "server w5"], rule exI[of _ "server w6"],
        rule exI[of _ "server w7"], rule exI[of _ s],
        rule exI[of _ fes], rule exI[of _ les], rule exI[of _ tes], rule exI[of _ aes],
        rule exI[of _ ces], rule exI[of _ ves])
    apply (intro conjI)
    apply (rule items)
    apply (rule fes_def)
    apply (rule f(1))
    apply (rule f(2))
    apply (rule les_def)
    apply (rule l(2))
    apply (rule l(3))
    apply (rule calls)
    apply (rule l(5))
    apply (rule l(6))
    apply (rule t(1))
    apply (rule tes_def)
    apply (rule sn(1))
    apply (rule ct(1))
    apply (rule a(1)[unfolded i5])
    apply (rule aes_def)
    apply (rule c(1))
    apply (rule ces_def)
    apply (rule v(1)[unfolded i7])
    apply (rule v(2)[unfolded i7])
    apply (rule ves_def)
    done
qed

subsection \<open>The returned list\<close>

text \<open>
  C9: when \<^verbatim>\<open>importAsync\<close> returns a list, the list is the concatenation, in stage order,
  of the entries of the asset folders, the languages, the taxonomies, the assets, the
  content items and the language variants of the preprocessed source, and every entry holds
  what the target answered. There is one entry per folder of the response to the folder
  request, each with the original folder of its external id; one entry per language added
  (the \<^verbatim>\<open>AddLanguage\<close> calls of the run are those for the languages of the entries, in
  order, and without \<^verbatim>\<open>fixLanguages\<close> these are the languages whose codename the target did
  not list, answered one after the other); one entry per taxonomy, per asset and per content
  item, in order, with the model the target answered to its request, the id of that model
  and the original id; one entry per language variant, with the variant as the id helper
  rewrote it and the answer to its upsert. The target's state threads through the stages
  in order; content types and snippets are sent to it between the taxonomies and the
  assets, and the list has no entry for them, although their importers build one entry per
  content type and per snippet.
\<close>

theorem returned_results:
  "(importAsync cfg th ith cl source w = (Inr items, w')
      \<and> src = removeSkippedItemsFromImport cfg (translateIds th source) \<longrightarrow>
      (\<exists>resp added tms sms cms created ims vms s1 s2 s3 s4 s5 s6 s7 s8 fes les tes aes ces ves.
          items = fes @ les @ tes @ aes @ ces @ ves
        \<and> fes = folderEntries
            (flattenAssetFolderContracts (setExternalIdForFolders (assetFolders src))) resp
        \<and> ((assetFolders src = [] \<and> resp = [] \<and> s1 = server w)
           \<or> (assetFolders src \<noteq> []
               \<and> addAssetFolders cl
                    (map mapAssetFolder (setExternalIdForFolders (assetFolders src))) (server w)
                    = (Inr resp, s1)))
        \<and> list_all (\<lambda>m. find (\<lambda>c. folder_external_id c = afm_externalId m)
                            (flattenAssetFolderContracts
                               (setExternalIdForFolders (assetFolders src))) \<noteq> None)
               (flattenFolderModels resp)
        \<and> les = map languageEntry added
        \<and> subseq (map fst added) (languages (importData src))
        \<and> list_all (\<lambda>(l, m). \<exists>s t. addLanguage cl (addLanguageRequestOf l) s = (Inr m, t)) added
        \<and> addedLanguages (calls w')
              = addedLanguages (calls w) @ map (\<lambda>(l, m). addLanguageRequestOf l) added
        \<and> (languages (importData src) = [] \<longrightarrow> s2 = s1)
        \<and> (languages (importData src) \<noteq> [] \<and> \<not> fixLanguages cfg \<longrightarrow>
               (\<exists>current sl. listLanguages cl s1 = (Inr current, sl)
                  \<and> map fst added
                      = filter (\<lambda>l. find (\<lambda>m. lm_codename m = language_codename l) current = None)
                          (languages (importData src))
                  \<and> answers (addLanguage cl) sl
                      (map (\<lambda>(l, m). addLanguageRequestOf l) added) (map snd added) s2))
        \<and> answers (addTaxonomy cl) s2 (taxonomies (importData src)) tms s3
        \<and> tes = map taxonomyEntry (zip (taxonomies (importData src)) tms)
        \<and> answers (addContentTypeSnippet cl) s3
            (map snippetRequestOf (contentTypeSnippets (importData src))) sms s4
        \<and> answers (addContentType cl) s4 (contentTypes (importData src)) cms s5
        \<and> assetsCreated cl ith (fes @ les @ tes) (binaryFiles src) s5 (assets (importData src))
            created s6
        \<and> aes = map assetEntry (zip (assets (importData src)) created)
        \<and> answers (addContentItem cl) s6 (map itemRequestOf (contentItems (importData src)))
            ims s7
        \<and> ces = map contentItemEntry (zip (contentItems (importData src)) ims)
        \<and> list_all (\<lambda>v. publishable v
                        \<and> (\<exists>v'. newIds_languageVariant ith v (fes @ les @ tes @ aes @ ces)
                                   = Inr v'))
            (languageVariants (importData src))
        \<and> answers (upsertVariant cl ith (fes @ les @ tes @ aes @ ces)) s7
            (languageVariants (importData src)) vms s8
        \<and> ves = map (variantEntry ith (fes @ les @ tes @ aes @ ces))
                  (zip (languageVariants (importData src)) vms)))
   \<and> (importAsync cfg th ith cl source w = (Inr items, w') \<longrightarrow>
        (\<forall>r\<in>set items. kindOf (original r) \<noteq> SContentTypes
            \<and> kindOf (original r) \<noteq> SContentTypeSnippets)
        \<and> sorted (map (\<lambda>r. stageRank (kindOf (original r))) items))
   \<and> (importContentTypeSnippetsAsync cfg cl snippets v = (Inr ss, v') \<longrightarrow> map original ss = snippets)
   \<and> (importContentTypesAsync cfg cl types v = (Inr rs, v') \<longrightarrow> map original rs = types)"
proof (intro conjI impI)
  assume a: "importAsync cfg th ith cl source w = (Inr items, w')
      \<and> src = removeSkippedItemsFromImport cfg (translateIds th source)"
  then have "runStages cfg ith cl src w = (Inr items, w')" by (simp add: importAsync_def)
  then show "\<exists>resp added tms sms cms created ims vms s1 s2 s3 s4 s5 s6 s7 s8 fes les tes aes ces ves.
          items = fes @ les @ tes @ aes @ ces @ ves
        \<and> fes = folderEntries
            (flattenAssetFolderContracts (setExternalIdForFolders (assetFolders src))) resp
        \<and> ((assetFolders src = [] \<and> resp = [] \<and> s1 = server w)
           \<or> (assetFolders src \<noteq> []
               \<and> addAssetFolders cl
                    (map mapAssetFolder (setExternalIdForFolders (assetFolders src))) (server w)
                    = (Inr resp, s1)))
        \<and> list_all (\<lambda>m. find (\<lambda>c. folder_external_id c = afm_externalId m)
                            (flattenAssetFolderContracts
                               (setExternalIdForFolders (assetFolders src))) \<noteq> None)
               (flattenFolderModels resp)
        \<and> les = map languageEntry added
        \<and> subseq (map fst added) (languages (importData src))
        \<and> list_all (\<lambda>(l, m). \<exists>s t. addLanguage cl (addLanguageRequestOf l) s = (Inr m, t)) added
        \<and> addedLanguages (calls w')
              = addedLanguages (calls w) @ map (\<lambda>(l, m). addLanguageRequestOf l) added
        \<and> (languages (importData src) = [] \<longrightarrow> s2 = s1)
        \<and> (languages (importData src) \<noteq> [] \<and> \<not> fixLanguages cfg \<longrightarrow>
               (\<exists>current sl. listLanguages cl s1 = (Inr current, sl)
                  \<and> map fst added
                      = filter (\<lambda>l. find (\<lambda>m. lm_codename m = language_codename l) current = None)
                          (languages (importData src))
                  \<and> answers (addLanguage cl) sl
                      (map (\<lambda>(l, m). addLanguageRequestOf l) added) (map snd added) s2))
        \<and> answers (addTaxonomy cl) s2 (taxonomies (importData src)) tms s3
        \<and> tes = map taxonomyEntry (zip (taxonomies (importData src)) tms)
        \<and> answers (addContentTypeSnippet cl) s3
            (map snippetRequestOf (contentTypeSnippets (importData src))) sms s4
        \<and> answers (addContentType cl) s4 (contentTypes (importData src)) cms s5
        \<and> assetsCreated cl ith (fes @ les @ tes) (binaryFiles src) s5 (assets (importData src))
            created s6
        \<and> aes = map assetEntry (zip (assets (importData src)) created)
        \<and> answers (addContentItem cl) s6 (map itemRequestOf (contentItems (importData src)))
            ims s7
        \<and> ces = map contentItemEntry (zip (contentItems (importData src)) ims)
        \<and> list_all (\<lambda>v. publishable v
                        \<and> (\<exists>v'. newIds_languageVariant ith v (fes @ les @ tes @ aes @ ces)
                                   = Inr v'))
            (languageVariants (importData src))
        \<and> answers (upsertVariant cl ith (fes @ les @ tes @ aes @ ces)) s7
            (languageVariants (importData src)) vms s8
        \<and> ves = map (variantEntry ith (fes @ les @ tes @ aes @ ces))
                  (zip (languageVariants (importData src)) vms)"
    by (rule runStages_entries)
next
  let ?src = "removeSkippedItemsFromImport cfg (translateIds th source)"
  assume "importAsync cfg th ith cl source w = (Inr items, w')"
  then have run: "runStages cfg ith cl ?src w = (Inr items, w')" by (simp add: importAsync_def)
  from runStages_results[OF run] obtain fs ls ts as cs vs where
    items: "items = map (widen OAssetFolder MAssetFolder) fs @ map (widen OLanguage MLanguage) ls
            @ map (widen OTaxonomy MTaxonomy) ts @ map (widen OAsset MAsset) as
            @ map (widen OContentItem MContentItem) cs
            @ map (widen OLanguageVariant MLanguageVariant) vs"
    by blast
  show "\<forall>r\<in>set items. kindOf (original r) \<noteq> SContentTypes
            \<and> kindOf (original r) \<noteq> SContentTypeSnippets"
    unfolding items by auto
  show "sorted (map (\<lambda>r. stageRank (kindOf (original r))) items)"
    unfolding items by (auto simp: sorted_append comp_def map_replicate_const sorted_replicate)
next
  assume "importContentTypeSnippetsAsync cfg cl snippets v = (Inr ss, v')"
  then show "map original ss = snippets" by (simp add: importContentTypeSnippetsAsync_Inr)
next
  assume "importContentTypesAsync cfg cl types v = (Inr rs, v')"
  then show "map original rs = types" by (simp add: importContentTypesAsync_Inr)
qed


subsection \<open>Evaluating a whole run\<close>

lemmas importer_defs = importAsync_def runStages_def stageAssetFolders_def stageLanguages_def
  stageTaxonomies_def stageContentTypeSnippets_def stageContentTypes_def stageAssets_def
  stageContentItems_def stageLanguageVariants_def importAssetFoldersAsync_def
  importLanguagesAsync_def importOneLanguage_def tryGetLanguage_def importTaxonomiesAsync_def
  importContentTypeSnippetsAsync_def importContentTypesAsync_def importAssetsAsync_def
  importOneAsset_def getAddAssetModel_def importContentItemAsync_def
  importLanguageVariantsAsync_def importOneLanguageVariant_def publishLanguageVariantsAsync_def
  getPublishedWorkflowStep_def publishedWorkflowStepName_def publishOne_def
  moveLanguageVariantsToCustomWorkflowStepAsync_def moveOne_def defaultLanguageId_def
  maxAllowedAssetSizeInBytes_def

lemmas run_defs = keepReferences_def keepIds_def demoFullSource_def demoGerman_def
  demoSnippet_def demoFolders_def demoBinaryFiles_def demoAsset_def mismatchSource_def
  demoDefaultLanguage_def

lemma demo_preprocessed:
  "removeSkippedItemsFromImport demoConfig (translateIds keepReferences demoFullSource)
     = demoFullSource"
  "removeSkippedItemsFromImport demoConfig (translateIds keepReferences mismatchSource)
     = mismatchSource"
  by (simp_all add: filter_defs keepReferences_def demoConfig_def)

lemma demo_full_run:
  "\<exists>items w'. importAsync demoConfig keepReferences keepIds demoClient demoFullSource demoWorld
       = (Inr items, w')
     \<and> map stageOf (calls w')
         = [SAssetFolders, SLanguages, SLanguages, SContentTypeSnippets, SContentTypes, SAssets,
            SAssets, SContentItems, SLanguageVariants, SPublish, SMove]
     \<and> map (\<lambda>r. kindOf (original r)) items
         = [SAssetFolders, SAssetFolders, SAssetFolders, SAssetFolders, SLanguages, SAssets,
            SContentItems, SLanguageVariants]
     \<and> map originalId items
         = [Some ''f1'', Some ''f2'', Some ''f3'', Some ''f4'', Some ''l-de'', Some ''small'',
            Some ''i1'', Some ''i1'']"
  by (simp add: importer_defs filter_defs run_defs source_defs demo_defs io_defs widen_def)



text \<open>The returned list of the same run, entry by entry: the original ids, the ids the
  target gave, and the kinds; the content type and the snippet were created, and no entry of
  the list is theirs.\<close>

lemma map_fst_single: "map fst xs = [a] \<Longrightarrow> \<exists>b. xs = [(a, b)]"
  by (cases xs) auto

theorem returned_results_witness:
  "(\<exists>items. fst (importAsync demoConfig keepReferences keepIds demoClient demoFullSource
          demoWorld) = Inr items)
   \<and> map originalId
        (projr (fst (importAsync demoConfig keepReferences keepIds demoClient demoFullSource
          demoWorld)))
       = [Some ''f1'', Some ''f2'', Some ''f3'', Some ''f4'', Some ''l-de'', Some ''small'',
          Some ''i1'', Some ''i1'']
   \<and> map importId
        (projr (fst (importAsync demoConfig keepReferences keepIds demoClient demoFullSource
          demoWorld)))
       = [Some ''new-images'', Some ''new-icons'', Some ''new-small'', Some ''new-videos'',
          Some ''new-'', Some ''new-iiii'', Some ''new-iiiii'', Some ''new-iiiiii'']
   \<and> list_all (\<lambda>r. kindOf (original r) \<noteq> SContentTypes
                  \<and> kindOf (original r) \<noteq> SContentTypeSnippets)
        (projr (fst (importAsync demoConfig keepReferences keepIds demoClient demoFullSource
          demoWorld)))
   \<and> map (\<lambda>r. kindOf (original r))
        (projr (fst (importAsync demoConfig keepReferences keepIds demoClient demoFullSource
          demoWorld)))
       = [SAssetFolders, SAssetFolders, SAssetFolders, SAssetFolders, SLanguages, SAssets,
          SContentItems, SLanguageVariants]
   \<and> map stageOf
        (calls (snd (importAsync demoConfig keepReferences keepIds demoClient demoFullSource
          demoWorld)))
       = [SAssetFolders, SLanguages, SLanguages, SContentTypeSnippets, SContentTypes, SAssets,
          SAssets, SContentItems, SLanguageVariants, SPublish, SMove]"
proof -
  let ?run = "importAsync demoConfig keepReferences keepIds demoClient demoFullSource demoWorld"
  from demo_full_run obtain items w' where run: "?run = (Inr items, w')"
    and st: "map stageOf (calls w')
         = [SAssetFolders, SLanguages, SLanguages, SContentTypeSnippets, SContentTypes, SAssets,
            SAssets, SContentItems, SLanguageVariants, SPublish, SMove]"
    and ks: "map (\<lambda>r. kindOf (original r)) items
         = [SAssetFolders, SAssetFolders, SAssetFolders, SAssetFolders, SLanguages, SAssets,
            SContentItems, SLanguageVariants]"
    by (elim exE conjE)
  note t = returned_results[of demoConfig keepReferences keepIds demoClient demoFullSource
      demoWorld items w' demoFullSource]
  have src: "demoFullSource
      = removeSkippedItemsFromImport demoConfig (translateIds keepReferences demoFullSource)"
    by (simp add: demo_preprocessed)
  note main = t[THEN conjunct1, THEN mp, OF conjI[OF run src]]
  from main obtain resp added tms sms cms created ims vms s1 s2 s3 s4 s5 s6 s7 s8
      fes les tes aes ces ves where
    items: "items = fes @ les @ tes @ aes @ ces @ ves"
    and fes: "fes = folderEntries
        (flattenAssetFolderContracts (setExternalIdForFolders (assetFolders demoFullSource))) resp"
    and f: "(assetFolders demoFullSource = [] \<and> resp = [] \<and> s1 = server demoWorld)
       \<or> (assetFolders demoFullSource \<noteq> []
           \<and> addAssetFolders demoClient
                (map mapAssetFolder (setExternalIdForFolders (assetFolders demoFullSource)))
                (server demoWorld) = (Inr resp, s1))"
    and les: "les = map languageEntry added"
    and l: "languages (importData demoFullSource) \<noteq> [] \<and> \<not> fixLanguages demoConfig \<longrightarrow>
           (\<exists>current sl. listLanguages demoClient s1 = (Inr current, sl)
              \<and> map fst added
                  = filter (\<lambda>l. find (\<lambda>m. lm_codename m = language_codename l) current = None)
                      (languages (importData demoFullSource))
              \<and> answers (addLanguage demoClient) sl
                  (map (\<lambda>(l, m). addLanguageRequestOf l) added) (map snd added) s2)"
    and tx: "answers (addTaxonomy demoClient) s2 (taxonomies (importData demoFullSource)) tms s3"
    and tes: "tes = map taxonomyEntry (zip (taxonomies (importData demoFullSource)) tms)"
    and sn: "answers (addContentTypeSnippet demoClient) s3
        (map snippetRequestOf (contentTypeSnippets (importData demoFullSource))) sms s4"
    and ct: "answers (addContentType demoClient) s4 (contentTypes (importData demoFullSource))
        cms s5"
    and a: "assetsCreated demoClient keepIds (fes @ les @ tes) (binaryFiles demoFullSource) s5
        (assets (importData demoFullSource)) created s6"
    and aes: "aes = map assetEntry (zip (assets (importData demoFullSource)) created)"
    and c: "answers (addContentItem demoClient) s6
        (map itemRequestOf (contentItems (importData demoFullSource))) ims s7"
    and ces: "ces = map contentItemEntry (zip (contentItems (importData demoFullSource)) ims)"
    and v: "answers (upsertVariant demoClient keepIds (fes @ les @ tes @ aes @ ces)) s7
        (languageVariants (importData demoFullSource)) vms s8"
    and ves: "ves = map (variantEntry keepIds (fes @ les @ tes @ aes @ ces))
              (zip (languageVariants (importData demoFullSource)) vms)"
    by (elim exE conjE)
  from f have s1: "s1 = 0"
    and resp: "resp = map echoFolder (map mapAssetFolder (setExternalIdForFolders demoFolders))"
    by (auto simp: demoFullSource_def demoFolders_def demoClient_def demoWorld_def)
  have fi: "map importId fes
      = [Some ''new-images'', Some ''new-icons'', Some ''new-small'', Some ''new-videos'']"
    "map originalId fes = [Some ''f1'', Some ''f2'', Some ''f3'', Some ''f4'']"
    unfolding fes resp
    by (simp_all add: demoFullSource_def demoFolders_def folderEntries_def folderEntry_def)
  from l obtain current sl where ll: "listLanguages demoClient s1 = (Inr current, sl)"
    "map fst added
       = filter (\<lambda>l. find (\<lambda>m. lm_codename m = language_codename l) current = None)
           (languages (importData demoFullSource))"
    "answers (addLanguage demoClient) sl
       (map (\<lambda>(l, m). addLanguageRequestOf l) added) (map snd added) s2"
    by (auto simp: demoFullSource_def demoConfig_def)
  from ll(1) have cur: "current = demoTargetLanguages" "sl = 0"
    by (auto simp: demoClient_def s1)
  from ll(2) have "map fst added = [demoGerman]"
    by (simp add: cur demoFullSource_def demoTargetLanguages_def demoGerman_def)
  then obtain m where added: "added = [(demoGerman, m)]" by (auto dest: map_fst_single)
  from ll(3) have lm: "lm_id m = ''new-''" and s2: "s2 = Suc 0"
    by (auto simp: added cur answers_Cons_iff answers_Nil_iff demoClient_def freshId_def)
  have li: "map importId les = [Some ''new-'']" "map originalId les = [Some ''l-de'']"
    unfolding les added by (simp_all add: languageEntry_def lm demoGerman_def)
  from tx have tms: "tms = []" and s3: "s3 = Suc 0"
    by (auto simp: demoFullSource_def answers_Nil_iff s2)
  have ti: "tes = []" unfolding tes tms by simp
  from sn have s4: "s4 = Suc (Suc 0)"
    by (auto simp: demoFullSource_def answers_Cons_iff answers_Nil_iff demoClient_def s3)
  from ct have s5: "s5 = Suc (Suc (Suc 0))"
    by (auto simp: demoFullSource_def answers_Cons_iff answers_Nil_iff demoClient_def s4)
  from a obtain q am where created: "created = [(q, am)]"
    and ai: "am_id am = ''new-iiii''" and s6: "s6 = Suc (Suc (Suc (Suc (Suc 0))))"
    by (auto simp: demoFullSource_def assetsCreated_Cons_iff assetsCreated_Nil_iff demoClient_def
        freshId_def s5)
  have ai': "map importId aes = [Some ''new-iiii'']" "map originalId aes = [Some ''small'']"
    unfolding aes created by (simp_all add: demoFullSource_def assetEntry_def ai demoAsset_def)
  from c obtain im where ims: "ims = [im]"
    and ii: "model_id im = ''new-iiiii''" and s7: "s7 = Suc (Suc (Suc (Suc (Suc (Suc 0)))))"
    by (auto simp: demoFullSource_def answers_Cons_iff answers_Nil_iff demoClient_def
        freshId_def s6)
  have ci: "map importId ces = [Some ''new-iiiii'']" "map originalId ces = [Some ''i1'']"
    unfolding ces ims
    by (simp_all add: demoFullSource_def contentItemEntry_def ii demoItemHome_def)
  from v obtain vm where vms: "vms = [vm]"
    and vi: "ref_id (lvm_item vm) = Some ''new-iiiiii''"
    by (auto simp: demoFullSource_def answers_Cons_iff answers_Nil_iff demoClient_def
        freshId_def s7 upsertVariant_def)
  have vi': "map importId ves = [Some ''new-iiiiii'']" "map originalId ves = [Some ''i1'']"
    unfolding ves vms
    by (simp_all add: demoFullSource_def variantEntry_def rewrittenVariant_def keepIds_def vi
        demoVariantHome_def byCodename_def)
  have g1: "map originalId items
       = [Some ''f1'', Some ''f2'', Some ''f3'', Some ''f4'', Some ''l-de'', Some ''small'',
          Some ''i1'', Some ''i1'']"
    unfolding items by (simp add: fi li ti ai' ci vi')
  have g2: "map importId items
       = [Some ''new-images'', Some ''new-icons'', Some ''new-small'', Some ''new-videos'',
          Some ''new-'', Some ''new-iiii'', Some ''new-iiiii'', Some ''new-iiiiii'']"
    unfolding items by (simp add: fi li ti ai' ci vi')
  from t run
  have "\<forall>r\<in>set items. kindOf (original r) \<noteq> SContentTypes
            \<and> kindOf (original r) \<noteq> SContentTypeSnippets"
    by blast
  then have g3: "list_all (\<lambda>r. kindOf (original r) \<noteq> SContentTypes
                  \<and> kindOf (original r) \<noteq> SContentTypeSnippets) items"
    by (simp add: list_all_iff)
  show ?thesis using run st ks g1 g2 g3 by simp
qed

subsection \<open>The default language\<close>

lemma tryGetLanguage_mismatch:
  assumes "language_id d = defaultLanguageId"
    and "find (\<lambda>m. lm_id m = defaultLanguageId) current = Some t"
    and "lm_codename t \<noteq> language_codename d"
    and "find (\<lambda>m. lm_codename m = language_codename d) current = None"
  shows "tryGetLanguage current d
           = Inl (DefaultLanguageMismatch (language_codename d) (lm_codename t))"
  using assms by (simp add: tryGetLanguage_def)

lemma importLanguagesLoop_mismatch:
  assumes "\<not> fixLanguages cfg" and "d \<in> set xs"
    and "language_id d = defaultLanguageId"
    and "find (\<lambda>m. lm_id m = defaultLanguageId) current = Some t"
    and "lm_codename t \<noteq> language_codename d"
    and "find (\<lambda>m. lm_codename m = language_codename d) current = None"
  shows "\<exists>e. fst (importLanguagesLoop cfg cl current xs w) = Inl e"
  using assms(2)
proof (induction xs arbitrary: w)
  case Nil
  then show ?case by simp
next
  case (Cons x xs)
  obtain r w1 where b: "importOneLanguage cfg cl current x w = (r, w1)"
    by (cases "importOneLanguage cfg cl current x w")
  show ?case
  proof (cases r)
    case (Inl e)
    then show ?thesis using b by simp
  next
    case (Inr p)
    obtain cur' pushed where p: "p = (cur', pushed)" by (cases p)
    from importOneLanguage_Inr[OF b[unfolded Inr p]] assms(1) have cur: "cur' = current" by simp
    have "x \<noteq> d"
    proof
      assume "x = d"
      then have "importOneLanguage cfg cl current x w
          = (Inl (DefaultLanguageMismatch (language_codename d) (lm_codename t)), w)"
        using assms(1) tryGetLanguage_mismatch[OF assms(3-6)]
        by (simp add: importOneLanguage_def returnIO_def bindIO_def throwIO_def)
      with b Inr show False by simp
    qed
    with Cons.prems have "d \<in> set xs" by simp
    from Cons.IH[OF this, of w1] show ?thesis
      using b Inr p cur by (auto split: prod.splits sum.splits)
  qed
qed

lemma stageLanguages_mismatch:
  assumes "\<not> fixLanguages cfg" and "d \<in> set (languages (importData src))"
    and "language_id d = defaultLanguageId"
    and "fst (listLanguages cl (server w)) = Inr current"
    and "find (\<lambda>m. lm_id m = defaultLanguageId) current = Some t"
    and "lm_codename t \<noteq> language_codename d"
    and "find (\<lambda>m. lm_codename m = language_codename d) current = None"
  shows "\<exists>e. fst (stageLanguages cfg cl src items w) = Inl e"
proof -
  from assms(2) have ne: "languages (importData src) \<noteq> []" by auto
  obtain w1 where l: "request ListLanguages (listLanguages cl) w = (Inr current, w1)"
    using assms(4) by (cases "listLanguages cl (server w)") (auto simp: request_def)
  have "\<exists>e. fst (importLanguagesAsync cfg cl (languages (importData src)) w) = Inl e"
    unfolding importLanguagesAsync_def
      bindIO_Inr[where m="request ListLanguages (listLanguages cl)" and w=w, OF l]
    by (rule importLanguagesLoop_mismatch[OF assms(1-3) assms(5-7)])
  then show ?thesis unfolding stageLanguages_def using ne by (auto intro: bindIO_fails_left)
qed

text \<open>
  C5 (as amended): with fix-languages mode disabled, when the source holds the default
  language (the sentinel id) after preprocessing, the target's default language (as the
  target lists its languages when the language stage starts) has another codename, and
  no target language has the codename of the source's default language, the run ends
  with a fatal error, and the only calls it has made are those of the asset-folder
  stage, which runs before the language stage, and of the language stage itself.
\<close>

theorem default_language_mismatch_is_fatal:
  assumes "\<not> fixLanguages cfg"
    and "d \<in> set (languages (importData
           (removeSkippedItemsFromImport cfg (translateIds th source))))"
    and "language_id d = defaultLanguageId"
    and "fst (listLanguages cl (server (snd (stageAssetFolders cfg cl
           (removeSkippedItemsFromImport cfg (translateIds th source)) [] w)))) = Inr current"
    and "find (\<lambda>m. lm_id m = defaultLanguageId) current = Some t"
    and "lm_codename t \<noteq> language_codename d"
    and "find (\<lambda>m. lm_codename m = language_codename d) current = None"
  shows "\<exists>e cs. fst (importAsync cfg th ith cl source w) = Inl e
           \<and> calls (snd (importAsync cfg th ith cl source w)) = calls w @ cs
           \<and> list_all (\<lambda>c. stageOf c = SAssetFolders \<or> stageOf c = SLanguages) cs"
proof -
  let ?src = "removeSkippedItemsFromImport cfg (translateIds th source)"
  let ?rest = "\<lambda>items1. bindIO (stageLanguages cfg cl ?src items1)
       (\<lambda>items2. bindIO (stageTaxonomies cfg cl ?src items2)
       (\<lambda>items3. bindIO (stageContentTypeSnippets cfg cl ?src items3)
       (\<lambda>items4. bindIO (stageContentTypes cfg cl ?src items4)
       (\<lambda>items5. bindIO (stageAssets cfg ith cl ?src items5)
       (\<lambda>items6. bindIO (stageContentItems cfg cl ?src items6)
       (\<lambda>items7. stageLanguageVariants cfg ith cl ?src items7))))))"
  have run: "importAsync cfg th ith cl source w
      = bindIO (stageAssetFolders cfg cl ?src []) ?rest w"
    by (simp add: importAsync_def runStages_def Let_def)
  obtain r1 w1 where s1: "stageAssetFolders cfg cl ?src [] w = (r1, w1)"
    by (cases "stageAssetFolders cfg cl ?src [] w")
  from stageAssetFolders_emits[of cfg ?src cl "[]"] s1 obtain cs1 where
    cs1: "calls w1 = calls w @ cs1" "list_all (\<lambda>c. stageOf c = SAssetFolders) cs1"
    unfolding emitsOnly_def list_all_iff by (metis snd_conv)
  show ?thesis
  proof (cases r1)
    case (Inl e)
    have "importAsync cfg th ith cl source w = (Inl e, w1)"
      unfolding run using s1 Inl by (simp add: bindIO_def)
    then show ?thesis using cs1 by (auto simp: list_all_iff)
  next
    case (Inr items1)
    obtain r2 w2 where s2: "stageLanguages cfg cl ?src items1 w1 = (r2, w2)"
      by (cases "stageLanguages cfg cl ?src items1 w1")
    from assms(4) s1 have l: "fst (listLanguages cl (server w1)) = Inr current" by simp
    from stageLanguages_mismatch[OF assms(1-3) l assms(5-7), of items1] s2
    obtain e where e: "r2 = Inl e" by auto
    from stageLanguages_emits[of cfg ?src cl items1] s2 obtain cs2 where
      cs2: "calls w2 = calls w1 @ cs2" "list_all (\<lambda>c. stageOf c = SLanguages) cs2"
      unfolding emitsOnly_def list_all_iff by (metis snd_conv)
    have "importAsync cfg th ith cl source w = (Inl e, w2)"
      unfolding run using s1 Inr s2 e by (simp add: bindIO_def)
    then show ?thesis using cs1 cs2 by (auto simp: list_all_iff)
  qed
qed

theorem default_language_mismatch_is_fatal_witness:
  "\<exists>e cs. fst (importAsync demoConfig keepReferences keepIds demoClient mismatchSource demoWorld)
             = Inl e
        \<and> calls (snd (importAsync demoConfig keepReferences keepIds demoClient mismatchSource
             demoWorld)) = calls demoWorld @ cs
        \<and> list_all (\<lambda>c. stageOf c = SAssetFolders \<or> stageOf c = SLanguages) cs"
proof (rule default_language_mismatch_is_fatal[where d=demoDefaultLanguage
      and current=demoTargetLanguages and t="hd demoTargetLanguages"])
  show "\<not> fixLanguages demoConfig" by (simp add: demoConfig_def)
  show "demoDefaultLanguage \<in> set (languages (importData
           (removeSkippedItemsFromImport demoConfig (translateIds keepReferences mismatchSource))))"
    by (simp add: demo_preprocessed) (simp add: mismatchSource_def emptyImportData_def)
  show "language_id demoDefaultLanguage = defaultLanguageId"
    by (simp add: demoDefaultLanguage_def)
  show "fst (listLanguages demoClient (server (snd (stageAssetFolders demoConfig demoClient
           (removeSkippedItemsFromImport demoConfig (translateIds keepReferences mismatchSource))
           [] demoWorld)))) = Inr demoTargetLanguages"
    by (simp add: demoClient_def)
  show "find (\<lambda>m. lm_id m = defaultLanguageId) demoTargetLanguages = Some (hd demoTargetLanguages)"
    by (simp add: demoTargetLanguages_def)
  show "lm_codename (hd demoTargetLanguages) \<noteq> language_codename demoDefaultLanguage"
    by (simp add: demoTargetLanguages_def demoDefaultLanguage_def)
  show "find (\<lambda>m. lm_codename m = language_codename demoDefaultLanguage) demoTargetLanguages = None"
    by (simp add: demoTargetLanguages_def demoDefaultLanguage_def)
qed

text \<open>
  C5 (as stated) fails: with an asset folder in the source, the asset-folder stage has
  created the folders before the language stage finds the mismatch (source \<open>en-US\<close>,
  target \<open>en-GB\<close>, fix-languages mode disabled).
\<close>

theorem mismatch_after_folders_counterexample:
  "fst (importAsync demoConfig keepReferences keepIds demoClient mismatchSource demoWorld)
     = Inl (DefaultLanguageMismatch ''en-US'' ''en-GB'')
   \<and> calls (snd (importAsync demoConfig keepReferences keepIds demoClient mismatchSource
        demoWorld))
     = [AddAssetFolders
          [AddFolderData ''images'' (Some ''f1'')
             [AddFolderData ''icons'' (Some ''f2'') [AddFolderData ''small'' (Some ''f3'') []]],
           AddFolderData ''videos'' (Some ''f4'') []],
        ListLanguages]"
  by (simp add: importer_defs filter_defs run_defs source_defs demo_defs io_defs widen_def)

end
